(* ===== verification/Gifter_Prelude.thy ===== *)
theory Gifter_Prelude
  imports Main "HOL-Library.Word"
begin

text \<open>
  Shared vocabulary of the development: the machine integers of the Rust sources, the value of a
  fallible Rust computation, the question-mark operator on it, actions on an explicit state, and
  the generic list and word lemmas that the components share.
\<close>

unbundle bit_operations_syntax

section \<open>Machine integers\<close>

type_synonym u8 = "8 word"
type_synonym u16 = "16 word"
type_synonym u32 = "32 word"
type_synonym u64 = "64 word"
type_synonym bytes = "u8 list"

text \<open>
  \<open>usize\<close> is 64 bits wide. A Rust slice or vector never holds more than \<open>isize::MAX\<close> bytes, so
  every length and index of a real buffer is below \<open>2 ^ 63\<close>; indices are kept as natural numbers
  and the places where the code tests for overflow compare against \<open>2 ^ 64\<close>.
\<close>

definition usize_limit :: nat where
  "usize_limit = 2 ^ 64"

definition vec_limit :: nat where
  "vec_limit = 2 ^ 63"

lemma vec_limit_less_usize: "n < vec_limit \<Longrightarrow> n < usize_limit"
  by (simp add: vec_limit_def usize_limit_def)

section \<open>Fallible computations\<close>

text \<open>
  The result of a Rust function of type \<open>Result<T, E>\<close>: a value, an error, or a panic (an index
  out of range, a failed \<open>copy_from_slice\<close>, an \<open>unwrap\<close> of an error). The modules are built with
  \<open>panic = "abort"\<close>, so a panic is never caught. The fourth case is a call that never returns; it
  can only come from a loop that is modelled as a partial function (\<open>returned\<close>).
\<close>

datatype ('e, 'a) outcome = Ok 'a | Err 'e | Panic | Diverge

fun returned :: "('e, 'a) outcome option \<Rightarrow> ('e, 'a) outcome" where
  "returned (Some r) = r"
| "returned None = Diverge"

fun and_then :: "('e, 'a) outcome \<Rightarrow> ('a \<Rightarrow> ('e, 'b) outcome) \<Rightarrow> ('e, 'b) outcome" where
  "and_then (Ok v) k = k v"
| "and_then (Err e) k = Err e"
| "and_then Panic k = Panic"
| "and_then Diverge k = Diverge"

fun map_err :: "('e \<Rightarrow> 'f) \<Rightarrow> ('e, 'a) outcome \<Rightarrow> ('f, 'a) outcome" where
  "map_err f (Ok v) = Ok v"
| "map_err f (Err e) = Err (f e)"
| "map_err f Panic = Panic"
| "map_err f Diverge = Diverge"

definition ok_or :: "'a option \<Rightarrow> 'e \<Rightarrow> ('e, 'a) outcome" where
  "ok_or v e = (case v of None \<Rightarrow> Err e | Some x \<Rightarrow> Ok x)"

named_theorems outcome_simps \<open>how the outcome combinators compute\<close>

lemma ok_or_simps [simp, outcome_simps]:
  "ok_or None e = Err e" "ok_or (Some x) e = Ok x"
  by (simp_all add: ok_or_def)

lemma and_then_eq_Ok [outcome_simps]:
  "and_then m k = Ok v \<longleftrightarrow> (\<exists>x. m = Ok x \<and> k x = Ok v)"
  by (cases m) auto

lemma and_then_eq_Panic [outcome_simps]:
  "and_then m k = Panic \<longleftrightarrow> m = Panic \<or> (\<exists>x. m = Ok x \<and> k x = Panic)"
  by (cases m) auto

lemma and_then_eq_Diverge [outcome_simps]:
  "and_then m k = Diverge \<longleftrightarrow> m = Diverge \<or> (\<exists>x. m = Ok x \<and> k x = Diverge)"
  by (cases m) auto

lemma and_then_eq_Err [outcome_simps]:
  "and_then m k = Err e \<longleftrightarrow> m = Err e \<or> (\<exists>x. m = Ok x \<and> k x = Err e)"
  by (cases m) auto

lemma ok_or_eq_Ok [outcome_simps]: "ok_or v e = Ok x \<longleftrightarrow> v = Some x"
  by (cases v) auto

lemma ok_or_not_Panic [simp]: "ok_or v e \<noteq> Panic" "ok_or v e \<noteq> Diverge"
  by (cases v; simp)+

lemma map_err_eq_Ok [outcome_simps]: "map_err f m = Ok v \<longleftrightarrow> m = Ok v"
  by (cases m) auto

lemma map_err_eq_Panic [outcome_simps]: "map_err f m = Panic \<longleftrightarrow> m = Panic"
  by (cases m) auto

lemma and_then_assoc: "and_then (and_then m f) g = and_then m (\<lambda>x. and_then (f x) g)"
  by (cases m) auto

lemma and_then_cong [fundef_cong]:
  "m = m' \<Longrightarrow> (\<And>x. m' = Ok x \<Longrightarrow> k x = k' x) \<Longrightarrow> and_then m k = and_then m' k'"
  by (cases m) auto

section \<open>Actions on a state\<close>

text \<open>
  A function that reads and writes the module's state or talks to the outside takes the state and
  returns it updated; \<open>act_then\<close> is the question-mark operator on such functions (an error or a
  panic leaves the state as the failing call left it).
\<close>

type_synonym ('s, 'e, 'a) action = "'s \<Rightarrow> ('e, 'a) outcome \<times> 's"

definition act_then :: "('s, 'e, 'a) action \<Rightarrow> ('a \<Rightarrow> ('s, 'e, 'b) action) \<Rightarrow> ('s, 'e, 'b) action" where
  "act_then m k s =
     (case m s of
        (Ok v, s') \<Rightarrow> k v s'
      | (Err e, s') \<Rightarrow> (Err e, s')
      | (Panic, s') \<Rightarrow> (Panic, s')
      | (Diverge, s') \<Rightarrow> (Diverge, s'))"

definition act_lift :: "('e, 'a) outcome \<Rightarrow> ('s, 'e, 'a) action" where
  "act_lift m s = (m, s)"

lemma act_then_simps [simp, outcome_simps]:
  "m s = (Ok v, s') \<Longrightarrow> act_then m k s = k v s'"
  "m s = (Err e, s') \<Longrightarrow> act_then m k s = (Err e, s')"
  "m s = (Panic, s') \<Longrightarrow> act_then m k s = (Panic, s')"
  "m s = (Diverge, s') \<Longrightarrow> act_then m k s = (Diverge, s')"
  by (simp_all add: act_then_def)

lemma act_then_lift [simp]:
  "act_then (act_lift (Ok v)) k s = k v s"
  "act_then (act_lift (Err e)) k s = (Err e, s)"
  "act_then (act_lift Panic) k s = (Panic, s)"
  "act_then (act_lift Diverge) k s = (Diverge, s)"
  by (simp_all add: act_then_def act_lift_def)

section \<open>Results without panics\<close>

text \<open>
  Most of the gifter module cannot panic; there a \<open>Result<T, E>\<close> is the sum \<open>'e + 't\<close>, and a
  function on the state with such a result is a \<open>call\<close>.
\<close>

fun try_then :: "'e + 'a \<Rightarrow> ('a \<Rightarrow> 'e + 'b) \<Rightarrow> 'e + 'b" where
  "try_then (Inr v) k = k v"
| "try_then (Inl e) k = Inl e"

definition some_or :: "'a option \<Rightarrow> 'e \<Rightarrow> 'e + 'a" where
  "some_or v e = (case v of None \<Rightarrow> Inl e | Some x \<Rightarrow> Inr x)"

fun of_sum :: "'e + 'a \<Rightarrow> ('e, 'a) outcome" where
  "of_sum (Inr v) = Ok v"
| "of_sum (Inl e) = Err e"

lemma some_or_simps [simp]: "some_or None e = Inl e" "some_or (Some x) e = Inr x"
  by (simp_all add: some_or_def)

lemma try_then_eq_Inr: "try_then m k = Inr v \<longleftrightarrow> (\<exists>x. m = Inr x \<and> k x = Inr v)"
  by (cases m) auto

lemma some_or_eq_Inr [simp]: "some_or v e = Inr x \<longleftrightarrow> v = Some x"
  by (cases v) auto

lemma of_sum_no_panic [simp]: "of_sum m \<noteq> Panic" "of_sum m \<noteq> Diverge"
  by (cases m; simp)+

lemma of_sum_eq [simp]: "of_sum m = Ok v \<longleftrightarrow> m = Inr v" "of_sum m = Err e \<longleftrightarrow> m = Inl e"
  by (cases m; auto)+

type_synonym ('s, 'a) call = "'s \<Rightarrow> (string + 'a) \<times> 's"

definition call_then :: "('s, 'a) call \<Rightarrow> ('a \<Rightarrow> ('s, 'b) call) \<Rightarrow> ('s, 'b) call" where
  "call_then m k s = (case m s of (Inr v, s') \<Rightarrow> k v s' | (Inl e, s') \<Rightarrow> (Inl e, s'))"

definition call_lift :: "string + 'a \<Rightarrow> ('s, 'a) call" where
  "call_lift m s = (m, s)"

lemma call_then_simps [simp]:
  "m s = (Inr v, s') \<Longrightarrow> call_then m k s = k v s'"
  "m s = (Inl e, s') \<Longrightarrow> call_then m k s = (Inl e, s')"
  by (simp_all add: call_then_def)

lemma call_then_lift [simp]:
  "call_then (call_lift (Inr v)) k s = k v s" "call_then (call_lift (Inl e)) k s = (Inl e, s)"
  by (simp_all add: call_then_def call_lift_def)

lemma snd_call_then_lift: "snd (call_then m (\<lambda>v. call_lift (f v)) s) = snd (m s)"
  by (simp add: call_then_def call_lift_def split: prod.split sum.split)

lemma fst_call_then_lift: "fst (call_then m (\<lambda>v. call_lift (f v)) s) = try_then (fst (m s)) f"
  by (simp add: call_then_def call_lift_def split: prod.split sum.split)

text \<open>A call inside a function that may panic.\<close>

definition act_call :: "('s, 'a) call \<Rightarrow> ('s, string, 'a) action" where
  "act_call m s = (case m s of (r, s') \<Rightarrow> (of_sum r, s'))"

lemma act_call_simps [simp]: "act_call (call_lift r) = act_lift (of_sum r)"
  by (simp add: act_call_def act_lift_def call_lift_def fun_eq_iff)

lemma act_then_cases:
  assumes "act_then m k s = (r, s')"
  obtains (Ok) v s1 where "m s = (Ok v, s1)" "k v s1 = (r, s')"
  | (Err) e where "m s = (Err e, s')" "r = Err e"
  | (Panic) "m s = (Panic, s')" "r = Panic"
  | (Diverge) "m s = (Diverge, s')" "r = Diverge"
  using assms by (auto simp: act_then_def split: prod.splits outcome.splits)

lemma act_call_eq: "act_call m s = (r, s') \<longleftrightarrow> (\<exists>x. m s = (x, s') \<and> r = of_sum x)"
  by (auto simp: act_call_def split: prod.split)

lemma act_lift_eq [simp]: "act_lift m s = (r, s') \<longleftrightarrow> r = m \<and> s' = s"
  by (auto simp: act_lift_def)

section \<open>Lists and slices\<close>

text \<open>A Rust slice \<open>&buf[a..b]\<close>: it panics unless \<open>a \<le> b \<le> buf.len()\<close>.\<close>

definition subslice :: "'a list \<Rightarrow> nat \<Rightarrow> nat \<Rightarrow> ('e, 'a list) outcome" where
  "subslice buf a b = (if a \<le> b \<and> b \<le> length buf then Ok (take (b - a) (drop a buf)) else Panic)"

text \<open>\<open>buf.get(i)\<close>.\<close>

definition get_at :: "'a list \<Rightarrow> nat \<Rightarrow> 'a option" where
  "get_at buf i = (if i < length buf then Some (buf ! i) else None)"

text \<open>\<open>buf[i]\<close>: it panics out of range.\<close>

definition index :: "'a list \<Rightarrow> nat \<Rightarrow> ('e, 'a) outcome" where
  "index buf i = (if i < length buf then Ok (buf ! i) else Panic)"

lemma get_at_drop: "drop i buf = x # rest \<Longrightarrow> get_at buf i = Some x"
  by (metis drop_eq_Nil2 get_at_def hd_drop_conv_nth leI list.distinct(1) list.sel(1))

lemma get_at_None_iff [simp]: "get_at buf i = None \<longleftrightarrow> length buf \<le> i"
  by (simp add: get_at_def)

lemma get_at_SomeD: "get_at buf i = Some x \<Longrightarrow> i < length buf \<and> x = buf ! i"
  by (auto simp: get_at_def split: if_splits)

lemma get_at_append: "i < length xs \<Longrightarrow> get_at (xs @ ys) i = get_at xs i"
  by (simp add: get_at_def nth_append)

lemma drop_Suc_Cons_eq: "drop i buf = x # rest \<Longrightarrow> drop (Suc i) buf = rest"
  by (metis drop_Suc list.sel(3) tl_drop)

lemma drop_append_eq: "drop i buf = xs @ rest \<Longrightarrow> drop (i + length xs) buf = rest"
  by (metis add.commute append_eq_conv_conj drop_drop)

lemma drop_nonempty: "drop i buf = xs @ rest \<Longrightarrow> xs \<noteq> [] \<Longrightarrow> i < length buf"
  by (rule ccontr) auto

lemma drop_length_le: "drop i buf = xs @ rest \<Longrightarrow> xs \<noteq> [] \<Longrightarrow> i + length xs \<le> length buf"
proof -
  assume eq: "drop i buf = xs @ rest" and ne: "xs \<noteq> []"
  have "length buf - i = length xs + length rest"
    by (metis eq length_append length_drop)
  moreover have "0 < length xs" using ne by simp
  ultimately show ?thesis by arith
qed

lemma subslice_drop:
  "drop i buf = xs @ rest \<Longrightarrow> i + length xs \<le> length buf \<Longrightarrow> subslice buf i (i + length xs) = Ok xs"
  by (simp add: subslice_def)

end
