(* ===== verification/Rust_Std.thy ===== *)
theory Rust_Std
  imports Gifter_Prelude "HOL-Library.Char_ord" "HOL-Library.List_Lexorder"
begin

text \<open>
  What the sources use of the Rust standard library on strings. A Rust \<open>String\<close> is its UTF-8 byte
  sequence, held here as a HOL \<open>string\<close> (a HOL character is one byte); \<open>valid_str\<close> is the type
  invariant of \<open>String\<close>. The theory models UTF-8 decoding and \<open>String::from_utf8_lossy\<close>,
  \<open>str::chars\<close>, \<open>trim\<close>, \<open>to_lowercase\<close>, \<open>lines\<close>, \<open>trim_start_matches\<close>, and the integer
  formatting of \<open>format!\<close>.
\<close>

section \<open>Bytes and characters\<close>

definition as_bytes :: "string \<Rightarrow> bytes" where
  "as_bytes s = map of_char s"

definition chr_of :: "u8 \<Rightarrow> char" where
  "chr_of b = char_of (unat b)"

definition str_of_bytes :: "bytes \<Rightarrow> string" where
  "str_of_bytes bs = map chr_of bs"

lemma unat_of_char [simp]: "unat (of_char c :: u8) = of_char c"
proof -
  have "(of_char c :: u8) = word_of_nat (of_char c)" by (simp only: of_nat_of_char)
  moreover have "(of_char c :: nat) < 2 ^ 8" by simp
  ultimately show ?thesis by (simp add: unat_of_nat)
qed

lemma chr_of_of_char [simp]: "chr_of (of_char c) = c"
  by (simp add: chr_of_def)

lemma of_char_chr_of [simp]: "(of_char (chr_of b) :: u8) = b"
proof -
  have "unat b < 256" using unsigned_less [of b] by simp
  then have "(of_char (chr_of b) :: nat) = unat b"
    by (simp add: chr_of_def)
  then show ?thesis
    by (metis unat_of_char unat_eq_nat_uint word_unat_eq_iff)
qed

lemma str_of_as_bytes [simp]: "str_of_bytes (as_bytes s) = s"
  by (induction s) (simp_all add: str_of_bytes_def as_bytes_def)

lemma as_bytes_str_of [simp]: "as_bytes (str_of_bytes bs) = bs"
  by (induction bs) (simp_all add: str_of_bytes_def as_bytes_def)

lemma as_bytes_append [simp]: "as_bytes (s @ t) = as_bytes s @ as_bytes t"
  by (simp add: as_bytes_def)

lemma str_of_bytes_append [simp]: "str_of_bytes (s @ t) = str_of_bytes s @ str_of_bytes t"
  by (simp add: str_of_bytes_def)

lemma as_bytes_simps [simp]: "as_bytes [] = []" "as_bytes (c # s) = of_char c # as_bytes s"
  by (simp_all add: as_bytes_def)

lemma str_of_bytes_simps [simp]:
  "str_of_bytes [] = []" "str_of_bytes (b # bs) = chr_of b # str_of_bytes bs"
  by (simp_all add: str_of_bytes_def)

lemma length_as_bytes [simp]: "length (as_bytes s) = length s"
  by (simp add: as_bytes_def)

lemma as_bytes_inject [simp]: "as_bytes s = as_bytes t \<longleftrightarrow> s = t"
  by (metis str_of_as_bytes)

section \<open>UTF-8\<close>

text \<open>
  One step of the standard library's decoder (\<open>Utf8Chunks\<close>): from the front of a non-empty byte
  sequence, either a well-formed character of the given width, or a maximal ill-formed piece of the
  given length. A read past the end yields 0, which is never a continuation byte.
\<close>

definition safe_get :: "bytes \<Rightarrow> nat \<Rightarrow> u8" where
  "safe_get bs i = (if i < length bs then bs ! i else 0)"

definition is_cont :: "u8 \<Rightarrow> bool" where
  "is_cont b \<longleftrightarrow> 0x80 \<le> b \<and> b \<le> 0xBF"

definition second3 :: "u8 \<Rightarrow> u8 \<Rightarrow> bool" where
  "second3 b c \<longleftrightarrow>
     (b = 0xE0 \<and> 0xA0 \<le> c \<and> c \<le> 0xBF) \<or> (0xE1 \<le> b \<and> b \<le> 0xEC \<and> is_cont c) \<or>
     (b = 0xED \<and> 0x80 \<le> c \<and> c \<le> 0x9F) \<or> (0xEE \<le> b \<and> b \<le> 0xEF \<and> is_cont c)"

definition second4 :: "u8 \<Rightarrow> u8 \<Rightarrow> bool" where
  "second4 b c \<longleftrightarrow>
     (b = 0xF0 \<and> 0x90 \<le> c \<and> c \<le> 0xBF) \<or> (0xF1 \<le> b \<and> b \<le> 0xF3 \<and> is_cont c) \<or>
     (b = 0xF4 \<and> 0x80 \<le> c \<and> c \<le> 0x8F)"

definition utf8_chunk :: "bytes \<Rightarrow> bool \<times> nat" where
  "utf8_chunk bs =
     (let b = safe_get bs 0; c = safe_get bs 1; d = safe_get bs 2; e = safe_get bs 3 in
      if b < 0x80 then (True, 1)
      else if 0xC2 \<le> b \<and> b \<le> 0xDF then (if is_cont c then (True, 2) else (False, 1))
      else if 0xE0 \<le> b \<and> b \<le> 0xEF then
        (if \<not> second3 b c then (False, 1) else if is_cont d then (True, 3) else (False, 2))
      else if 0xF0 \<le> b \<and> b \<le> 0xF4 then
        (if \<not> second4 b c then (False, 1) else if \<not> is_cont d then (False, 2)
         else if is_cont e then (True, 4) else (False, 3))
      else (False, 1))"

lemma utf8_chunk_pos: "0 < snd (utf8_chunk bs)"
  by (simp add: utf8_chunk_def Let_def)

lemma cont_in_range: "is_cont (safe_get bs i) \<Longrightarrow> i < length bs"
  by (auto simp: safe_get_def is_cont_def split: if_splits)

lemma second3_in_range: "second3 b (safe_get bs i) \<Longrightarrow> i < length bs"
  by (auto simp: second3_def safe_get_def is_cont_def split: if_splits)

lemma second4_in_range: "second4 b (safe_get bs i) \<Longrightarrow> i < length bs"
  by (auto simp: second4_def safe_get_def is_cont_def split: if_splits)

lemma utf8_chunk_le: "bs \<noteq> [] \<Longrightarrow> snd (utf8_chunk bs) \<le> length bs"
  by (auto simp: utf8_chunk_def Let_def Suc_le_eq numeral_eq_Suc
      dest: cont_in_range second3_in_range second4_in_range)

text \<open>The code point that replaces an ill-formed piece, U+FFFD.\<close>

definition replacement :: bytes where
  "replacement = [0xEF, 0xBF, 0xBD]"

function lossy_bytes :: "bytes \<Rightarrow> bytes" where
  "lossy_bytes bs =
     (if bs = [] then []
      else (if fst (utf8_chunk bs) then take (snd (utf8_chunk bs)) bs else replacement)
           @ lossy_bytes (drop (snd (utf8_chunk bs)) bs))"
  by pat_completeness auto
termination
  by (relation "measure length") (auto simp: utf8_chunk_pos)

function utf8_valid :: "bytes \<Rightarrow> bool" where
  "utf8_valid bs \<longleftrightarrow>
     (if bs = [] then True
      else if fst (utf8_chunk bs) then utf8_valid (drop (snd (utf8_chunk bs)) bs)
      else False)"
  by pat_completeness auto
termination
  by (relation "measure length") (auto simp: utf8_chunk_pos)

declare lossy_bytes.simps [simp del] utf8_valid.simps [simp del]

text \<open>\<open>String::from_utf8_lossy(b).into_owned()\<close>.\<close>

definition from_utf8_lossy :: "bytes \<Rightarrow> string" where
  "from_utf8_lossy bs = str_of_bytes (lossy_bytes bs)"

definition valid_str :: "string \<Rightarrow> bool" where
  "valid_str s \<longleftrightarrow> utf8_valid (as_bytes s)"

lemma lossy_bytes_Nil [simp]: "lossy_bytes [] = []"
  by (simp add: lossy_bytes.simps)

lemma utf8_valid_Nil [simp]: "utf8_valid []"
  by (simp add: utf8_valid.simps)

lemma utf8_valid_step:
  "bs \<noteq> [] \<Longrightarrow> utf8_valid bs \<longleftrightarrow>
     fst (utf8_chunk bs) \<and> utf8_valid (drop (snd (utf8_chunk bs)) bs)"
  by (subst utf8_valid.simps) simp

lemma lossy_bytes_valid: "utf8_valid bs \<Longrightarrow> lossy_bytes bs = bs"
proof (induction bs rule: utf8_valid.induct)
  case (1 bs)
  show ?case
  proof (cases "bs = []")
    case False
    with "1.prems" have "fst (utf8_chunk bs)" "utf8_valid (drop (snd (utf8_chunk bs)) bs)"
      by (simp_all add: utf8_valid_step)
    with "1.IH" False show ?thesis
      by (simp add: lossy_bytes.simps [of bs])
  qed simp
qed

lemma from_utf8_lossy_as_bytes [simp]: "valid_str s \<Longrightarrow> from_utf8_lossy (as_bytes s) = s"
  by (simp add: from_utf8_lossy_def valid_str_def lossy_bytes_valid)

text \<open>A well-formed chunk stays one whatever follows it.\<close>

lemma safe_get_append: "i < length xs \<Longrightarrow> safe_get (xs @ ys) i = safe_get xs i"
  by (simp add: safe_get_def nth_append)

lemma safe_get_take: "i < n \<Longrightarrow> n \<le> length bs \<Longrightarrow> safe_get (take n bs @ r) i = safe_get bs i"
  by (simp add: safe_get_def nth_append)

lemma utf8_chunk_take:
  assumes "bs \<noteq> []" "utf8_chunk bs = (True, n)"
  shows "utf8_chunk (take n bs @ r) = (True, n)"
proof -
  have n: "n \<le> length bs" using utf8_chunk_le [OF assms(1)] assms(2) by simp
  then have get: "safe_get (take n bs @ r) i = safe_get bs i" if "i < n" for i
    using that by (rule safe_get_take [rotated])
  consider "n = 1" | "n = 2" | "n = 3" | "n = 4"
    using assms(2) by (fastforce simp: utf8_chunk_def Let_def split: if_splits)
  then show ?thesis
    using assms(2) get by cases (auto simp: utf8_chunk_def Let_def split: if_splits)
qed

lemma utf8_valid_chunk_append:
  assumes "bs \<noteq> []" "utf8_chunk bs = (True, n)" "utf8_valid r"
  shows "utf8_valid (take n bs @ r)"
proof -
  have "0 < n" "n \<le> length bs"
    using utf8_chunk_pos [of bs] utf8_chunk_le [OF assms(1)] assms(2) by auto
  then have "take n bs @ r \<noteq> []" "drop n (take n bs @ r) = r"
    using assms(1) by auto
  then show ?thesis
    using utf8_chunk_take [OF assms(1,2), of r] assms(3)
    by (simp add: utf8_valid_step)
qed

lemma utf8_valid_append: "utf8_valid xs \<Longrightarrow> utf8_valid ys \<Longrightarrow> utf8_valid (xs @ ys)"
proof (induction xs rule: utf8_valid.induct)
  case (1 bs)
  show ?case
  proof (cases "bs = []")
    case False
    obtain v n where c: "utf8_chunk bs = (v, n)" by fastforce
    with False "1.prems"(1) have v: "v" "utf8_valid (drop n bs)"
      by (simp_all add: utf8_valid_step)
    with "1.IH" False c "1.prems"(2) have "utf8_valid (drop n bs @ ys)" by simp
    with utf8_valid_chunk_append [OF False, of n] c v
    have "utf8_valid (take n bs @ drop n bs @ ys)" by simp
    then show ?thesis by (simp add: append_assoc [symmetric] del: append_assoc)
  qed (use "1.prems" in simp)
qed

lemma utf8_valid_replacement: "utf8_valid replacement"
proof -
  have "utf8_chunk replacement = (True, 3)"
    by (simp add: replacement_def utf8_chunk_def safe_get_def second3_def is_cont_def Let_def)
  then show ?thesis
    by (subst utf8_valid.simps) (simp add: replacement_def)
qed

text \<open>The lossy conversion always yields a \<open>String\<close>.\<close>

lemma utf8_valid_lossy_bytes: "utf8_valid (lossy_bytes bs)"
proof (induction bs rule: lossy_bytes.induct)
  case (1 bs)
  show ?case
  proof (cases "bs = []")
    case False
    obtain v n where c: "utf8_chunk bs = (v, n)" by fastforce
    with False "1.IH" have IH: "utf8_valid (lossy_bytes (drop n bs))" by simp
    then show ?thesis
      using False c utf8_valid_chunk_append [OF False] utf8_valid_append [OF utf8_valid_replacement IH]
      by (cases v) (simp_all add: lossy_bytes.simps [of bs])
  qed simp
qed

lemma valid_str_lossy [simp]: "valid_str (from_utf8_lossy bs)"
  by (simp add: valid_str_def from_utf8_lossy_def utf8_valid_lossy_bytes)

lemma valid_str_append [simp]: "valid_str s \<Longrightarrow> valid_str t \<Longrightarrow> valid_str (s @ t)"
  by (simp add: valid_str_def utf8_valid_append)

section \<open>Characters of a string\<close>

text \<open>\<open>str::chars\<close>: the byte pieces of the characters, and the scalar value of each.\<close>

function str_pieces :: "bytes \<Rightarrow> bytes list" where
  "str_pieces bs =
     (if bs = [] then []
      else take (snd (utf8_chunk bs)) bs # str_pieces (drop (snd (utf8_chunk bs)) bs))"
  by pat_completeness auto
termination
  by (relation "measure length") (auto simp: utf8_chunk_pos)

declare str_pieces.simps [simp del]

fun scalar :: "bytes \<Rightarrow> nat" where
  "scalar [b] = unat b"
| "scalar [b, c] = (unat b mod 32) * 64 + unat c mod 64"
| "scalar [b, c, d] = (unat b mod 16) * 4096 + (unat c mod 64) * 64 + unat d mod 64"
| "scalar [b, c, d, e] =
     (unat b mod 8) * 262144 + (unat c mod 64) * 4096 + (unat d mod 64) * 64 + unat e mod 64"
| "scalar _ = 0xFFFD"

definition chars :: "string \<Rightarrow> nat list" where
  "chars s = map scalar (str_pieces (as_bytes s))"

text \<open>\<open>char::is_whitespace\<close> (the Unicode property White_Space) and \<open>char::is_control\<close> (category Cc).\<close>

definition is_whitespace :: "nat \<Rightarrow> bool" where
  "is_whitespace c \<longleftrightarrow>
     (9 \<le> c \<and> c \<le> 13) \<or> c = 0x20 \<or> c = 0x85 \<or> c = 0xA0 \<or> c = 0x1680 \<or>
     (0x2000 \<le> c \<and> c \<le> 0x200A) \<or> c = 0x2028 \<or> c = 0x2029 \<or> c = 0x202F \<or> c = 0x205F \<or>
     c = 0x3000"

definition is_control :: "nat \<Rightarrow> bool" where
  "is_control c \<longleftrightarrow> c \<le> 0x1F \<or> (0x7F \<le> c \<and> c \<le> 0x9F)"

text \<open>\<open>str::trim\<close>.\<close>

definition trim_by :: "('a \<Rightarrow> bool) \<Rightarrow> 'a list \<Rightarrow> 'a list" where
  "trim_by P xs = rev (dropWhile P (rev (dropWhile P xs)))"

definition trim :: "string \<Rightarrow> string" where
  "trim s = str_of_bytes (concat (trim_by (\<lambda>p. is_whitespace (scalar p)) (str_pieces (as_bytes s))))"

text \<open>ASCII strings, where all of this is per byte.\<close>

definition ascii_str :: "string \<Rightarrow> bool" where
  "ascii_str s \<longleftrightarrow> list_all (\<lambda>c. (of_char c :: nat) < 128) s"

lemma ascii_str_simps [simp]:
  "ascii_str []" "ascii_str (c # s) \<longleftrightarrow> (of_char c :: nat) < 128 \<and> ascii_str s"
  "ascii_str (s @ t) \<longleftrightarrow> ascii_str s \<and> ascii_str t"
  by (simp_all add: ascii_str_def)

lemma utf8_chunk_ascii: "(of_char c :: nat) < 128 \<Longrightarrow> utf8_chunk (of_char c # bs) = (True, 1)"
  by (simp add: utf8_chunk_def safe_get_def word_less_nat_alt)

lemma str_pieces_ascii: "ascii_str s \<Longrightarrow> str_pieces (as_bytes s) = map (\<lambda>c. [of_char c]) s"
  by (induction s) (simp_all add: str_pieces.simps utf8_chunk_ascii)

lemma valid_str_ascii: "ascii_str s \<Longrightarrow> valid_str s"
  unfolding valid_str_def
  by (induction s) (simp_all add: utf8_valid_step utf8_chunk_ascii)

lemma chars_ascii: "ascii_str s \<Longrightarrow> chars s = map of_char s"
  by (simp add: chars_def str_pieces_ascii comp_def)

lemma trim_by_map: "trim_by P (map f xs) = map f (trim_by (P \<circ> f) xs)"
  by (simp add: trim_by_def dropWhile_map rev_map)

lemma trim_ascii: "ascii_str s \<Longrightarrow> trim s = trim_by (\<lambda>c. is_whitespace (of_char c)) s"
  by (simp add: trim_def str_pieces_ascii trim_by_map comp_def str_of_bytes_def)

lemma trim_by_id:
  "xs = [] \<or> (\<not> P (hd xs) \<and> \<not> P (last xs)) \<Longrightarrow> trim_by P xs = xs"
  by (cases xs) (auto simp: trim_by_def hd_rev [symmetric] dropWhile_eq_self_iff)

text \<open>
  \<open>str::to_lowercase\<close>. ASCII letters map as usual; the Unicode case-mapping tables, which only
  matter for strings with a non-ASCII character, are the parameter \<open>ucd\<close>.
\<close>

definition ascii_lower :: "char \<Rightarrow> char" where
  "ascii_lower c = (let n = of_char c :: nat in if 65 \<le> n \<and> n \<le> 90 then char_of (n + 32) else c)"

definition to_lowercase :: "(string \<Rightarrow> string) \<Rightarrow> string \<Rightarrow> string" where
  "to_lowercase ucd s = (if ascii_str s then map ascii_lower s else ucd s)"

lemma ascii_lower_idem [simp]: "ascii_lower (ascii_lower c) = ascii_lower c"
  by (simp add: ascii_lower_def Let_def)

lemma ascii_lower_ascii: "(of_char c :: nat) < 128 \<Longrightarrow> (of_char (ascii_lower c) :: nat) < 128"
  by (simp add: ascii_lower_def Let_def)

lemma ascii_str_lower: "ascii_str s \<Longrightarrow> ascii_str (map ascii_lower s)"
  by (induction s) (simp_all add: ascii_lower_ascii)

lemma to_lowercase_idem: "ascii_str s \<Longrightarrow> to_lowercase ucd (to_lowercase ucd s) = to_lowercase ucd s"
  by (simp add: to_lowercase_def ascii_str_lower)

text \<open>\<open>str::lines\<close>: split at line feeds, a carriage return before the line feed dropped.\<close>

definition strip_cr :: "string \<Rightarrow> string" where
  "strip_cr l = (if l \<noteq> [] \<and> last l = CHR 0x0D then butlast l else l)"

lemma length_tl_dropWhile: "s \<noteq> [] \<Longrightarrow> length (dropWhile P s) - Suc 0 < length s"
  using length_dropWhile_le [of P s] by (cases s) (auto simp del: dropWhile.simps)

function lines :: "string \<Rightarrow> string list" where
  "lines s =
     (if s = [] then []
      else let l = takeWhile (\<lambda>c. c \<noteq> CHR 0x0A) s; r = dropWhile (\<lambda>c. c \<noteq> CHR 0x0A) s in
           if r = [] then [l] else strip_cr l # lines (tl r))"
  by pat_completeness auto
termination
  by (relation "measure length") (auto simp: length_tl_dropWhile)

declare lines.simps [simp del]

text \<open>\<open>s.trim_start_matches("0x")\<close>: every leading occurrence is dropped.\<close>

fun trim_0x :: "string \<Rightarrow> string" where
  "trim_0x (a # b # s) = (if a = CHR ''0'' \<and> b = CHR ''x'' then trim_0x s else a # b # s)"
| "trim_0x s = s"

text \<open>\<open>&s[..n]\<close>: it panics unless \<open>n\<close> is at most the length and on a character boundary.\<close>

definition is_char_boundary :: "string \<Rightarrow> nat \<Rightarrow> bool" where
  "is_char_boundary s n \<longleftrightarrow>
     n = 0 \<or> n = length s \<or> (n < length s \<and> \<not> is_cont (as_bytes s ! n))"

definition str_prefix :: "string \<Rightarrow> nat \<Rightarrow> ('e, string) outcome" where
  "str_prefix s n = (if is_char_boundary s n then Ok (take n s) else Panic)"

lemma ascii_not_cont: "(of_char c :: nat) < 128 \<Longrightarrow> \<not> is_cont (of_char c)"
proof -
  assume c: "(of_char c :: nat) < 128"
  have "unat (of_char c :: u8) = (of_char c :: nat)"
    using c by (simp add: unat_of_char)
  then show ?thesis
    using c by (auto simp: is_cont_def word_le_nat_alt)
qed

lemma str_prefix_ascii: "ascii_str s \<Longrightarrow> n \<le> length s \<Longrightarrow> str_prefix s n = Ok (take n s)"
  by (auto simp: str_prefix_def is_char_boundary_def as_bytes_def ascii_str_def list_all_length
      ascii_not_cont)

section \<open>Formatting\<close>

text \<open>A format hole in single quotes, as in \<open>'{s}'\<close>.\<close>

definition quoted :: "string \<Rightarrow> string" where
  "quoted s = CHR 0x27 # s @ [CHR 0x27]"

definition digit_char :: "nat \<Rightarrow> char" where
  "digit_char d = char_of (if d < 10 then 48 + d else 87 + d)"

fun dec :: "nat \<Rightarrow> string" where
  "dec n = (if n < 10 then [digit_char n] else dec (n div 10) @ [digit_char (n mod 10)])"

declare dec.simps [simp del]

text \<open>\<open>{:04X}\<close> on a 16-bit status word and \<open>{:#04x}\<close> on a tag byte.\<close>

definition upper_hex_digit :: "nat \<Rightarrow> char" where
  "upper_hex_digit d = char_of (if d < 10 then 48 + d else 55 + d)"

definition hex_04X :: "u16 \<Rightarrow> string" where
  "hex_04X w = map (\<lambda>k. upper_hex_digit (unat w div 16 ^ k mod 16)) [3, 2, 1, 0]"

definition hex_04x_byte :: "u8 \<Rightarrow> string" where
  "hex_04x_byte b = ''0x'' @ map (\<lambda>k. digit_char (unat b div 16 ^ k mod 16)) [1, 0]"

end
