(* ===== verification/Wire.thy ===== *)
theory Wire
  imports Rust_Std
begin

text \<open>
  The protobuf codec of \<open>rust/rln-gifter-module/rust-lib/src/wire.rs\<close>: the varint and field
  primitives, the field walker, and \<open>encode\<close>/\<open>decode\<close> of the four gifter messages. A Rust
  \<open>Result<T, String>\<close> is \<open>string + 't\<close> here, since no function of this file can panic: the one
  slice it takes is behind an explicit bounds check.
\<close>

section \<open>Messages\<close>

definition RLN_GIFTER_CODEC :: string where
  "RLN_GIFTER_CODEC = ''/logos/rln/membership/1.0.0''"

record rln_gifter_request =
  request_id :: string
  authentication_type :: bytes
  authentication_payload :: bytes
  identity_commitment :: bytes
  rate_limit :: "u64 option"

record membership_allocation_success =
  leaf_index :: u64
  merkle_root :: bytes
  block_number :: u64
  transaction_hash :: bytes
  config_account_id :: "string option"

record membership_allocation_failure =
  error_message :: string

record rln_gifter_response =
  resp_request_id :: string
  auth_success :: bool
  resp_error :: "string option"
  success :: "membership_allocation_success option"
  failure :: "membership_allocation_failure option"

section \<open>Low-level encoding\<close>

function put_varint :: "bytes \<Rightarrow> u64 \<Rightarrow> bytes" where
  "put_varint out v =
     (let b = (ucast (v AND 0x7f) :: u8);
          v' = drop_bit 7 v;
          b' = (if v' \<noteq> 0 then b OR 0x80 else b)
      in if v' = 0 then out @ [b'] else put_varint (out @ [b']) v')"
  by pat_completeness auto
termination
proof (relation "measure (\<lambda>(out, v). unat v)")
  fix out :: bytes and v v' :: u64
  assume "v' = drop_bit 7 v" "v' \<noteq> 0"
  then have "unat v' = drop_bit 7 (unat v)" and "unat v' \<noteq> 0"
    by (simp only: unat_drop_bit_eq, simp only: unat_eq_0 not_False_eq_True)
  then have "unat v' < unat v" by (simp add: drop_bit_eq_div)
  then show "((out @ [b'], v'), (out, v)) \<in> measure (\<lambda>(out, v). unat v)" for b' by auto
qed auto

declare put_varint.simps [simp del]

definition put_len_field :: "bytes \<Rightarrow> u64 \<Rightarrow> bytes \<Rightarrow> bytes" where
  "put_len_field out field data =
     put_varint (put_varint out (push_bit 3 field OR 2)) (of_nat (length data)) @ data"

definition put_varint_field :: "bytes \<Rightarrow> u64 \<Rightarrow> u64 \<Rightarrow> bytes" where
  "put_varint_field out field v = put_varint (put_varint out (push_bit 3 field)) v"

text \<open>The loop of \<open>read_varint\<close>; the index is returned as the updated \<open>*i\<close>.\<close>

function read_varint_loop :: "bytes \<Rightarrow> nat \<Rightarrow> u64 \<Rightarrow> nat \<Rightarrow> (u64 \<times> nat) option" where
  "read_varint_loop buf i result shift =
     (case get_at buf i of
        None \<Rightarrow> None
      | Some b \<Rightarrow>
          let result' = result OR push_bit shift (ucast (b AND 0x7f) :: u64) in
          if b AND 0x80 = 0 then Some (result', i + 1)
          else if 64 \<le> shift + 7 then None
          else read_varint_loop buf (i + 1) result' (shift + 7))"
  by pat_completeness auto
termination
  by (relation "measure (\<lambda>(buf, i, result, shift). 64 - shift)") auto

declare read_varint_loop.simps [simp del]

definition read_varint :: "bytes \<Rightarrow> nat \<Rightarrow> (u64 \<times> nat) option" where
  "read_varint buf i = read_varint_loop buf i 0 0"

text \<open>A varint read makes progress, stays in the buffer and takes at most ten bytes.\<close>

lemma read_varint_loop_bounds:
  "read_varint_loop buf i r shift = Some (v, j) \<Longrightarrow> shift \<le> 63 \<Longrightarrow>
     i < j \<and> j \<le> length buf \<and> 7 * (j - i) + shift \<le> 70"
proof (induction buf i r shift rule: read_varint_loop.induct)
  case (1 buf i r shift)
  from "1.prems"(1) obtain b where b: "get_at buf i = Some b"
    by (subst (asm) read_varint_loop.simps) (auto split: option.splits)
  then have i: "i < length buf" by (simp add: get_at_SomeD)
  let ?r = "r OR push_bit shift (ucast (b AND 0x7f))"
  show ?case
  proof (cases "b AND 0x80 = 0")
    case True
    with "1.prems" b i show ?thesis
      by (subst (asm) read_varint_loop.simps) auto
  next
    case False
    with "1.prems"(1) b have s: "shift + 7 < 64" and
      rec: "read_varint_loop buf (i + 1) ?r (shift + 7) = Some (v, j)"
      by (subst (asm) read_varint_loop.simps, auto split: if_splits)+
    from "1.IH" [OF b refl False] s rec
    have "i + 1 < j \<and> j \<le> length buf \<and> 7 * (j - (i + 1)) + (shift + 7) \<le> 70" by simp
    then show ?thesis by auto
  qed
qed

lemma read_varint_bounds:
  "read_varint buf i = Some (v, j) \<Longrightarrow> i < j \<and> j \<le> length buf \<and> j \<le> i + 10"
  using read_varint_loop_bounds [of buf i 0 0 v j] by (auto simp: read_varint_def)

section \<open>The field walker\<close>

datatype field_val = Varint u64 | Bytes bytes

function walk_loop ::
  "bytes \<Rightarrow> (u64 \<Rightarrow> field_val \<Rightarrow> 's \<Rightarrow> 's) \<Rightarrow> nat \<Rightarrow> 's \<Rightarrow> string + 's" where
  "walk_loop buf f i st =
     (if i < length buf then
        (case read_varint buf i of
           None \<Rightarrow> Inl ''truncated field key''
         | Some (key, i1) \<Rightarrow>
             let field = drop_bit 3 key in
             if key AND 7 = 0 then
               (case read_varint buf i1 of
                  None \<Rightarrow> Inl ''truncated varint value''
                | Some (v, i2) \<Rightarrow> walk_loop buf f i2 (f field (Varint v) st))
             else if key AND 7 = 2 then
               (case read_varint buf i1 of
                  None \<Rightarrow> Inl ''truncated length''
                | Some (len, i2) \<Rightarrow>
                    if usize_limit \<le> i2 + unat len then Inl ''length overflow''
                    else if length buf < i2 + unat len then Inl ''length exceeds buffer''
                    else walk_loop buf f (i2 + unat len)
                           (f field (Bytes (take (unat len) (drop i2 buf))) st))
             else Inl (''unsupported wire type '' @ dec (unat (key AND 7))))
      else Inr st)"
  by pat_completeness auto
termination
  by (relation "measure (\<lambda>(buf, f, i, st). length buf - i)")
     (auto dest!: read_varint_bounds)

declare walk_loop.simps [simp del]

definition walk_fields :: "bytes \<Rightarrow> (u64 \<Rightarrow> field_val \<Rightarrow> 's \<Rightarrow> 's) \<Rightarrow> 's \<Rightarrow> string + 's" where
  "walk_fields buf f st = walk_loop buf f 0 st"

fun fv_bytes :: "field_val \<Rightarrow> bytes" where
  "fv_bytes (Bytes b) = b"
| "fv_bytes (Varint _) = []"

fun fv_string :: "field_val \<Rightarrow> string" where
  "fv_string (Bytes b) = from_utf8_lossy b"
| "fv_string (Varint _) = []"

fun fv_u64 :: "field_val \<Rightarrow> u64" where
  "fv_u64 (Varint n) = n"
| "fv_u64 (Bytes _) = 0"

section \<open>Message encoders and decoders\<close>

definition request_encode :: "rln_gifter_request \<Rightarrow> bytes" where
  "request_encode m =
     (let out = put_len_field [] 1 (as_bytes (request_id m));
          out = put_len_field out 2 (authentication_type m);
          out = put_len_field out 3 (authentication_payload m);
          out = put_len_field out 4 (identity_commitment m)
      in case rate_limit m of Some r \<Rightarrow> put_varint_field out 5 r | None \<Rightarrow> out)"

definition request_default :: rln_gifter_request where
  "request_default =
     \<lparr>request_id = [], authentication_type = [], authentication_payload = [],
      identity_commitment = [], rate_limit = None\<rparr>"

definition request_field ::
  "u64 \<Rightarrow> field_val \<Rightarrow> rln_gifter_request \<times> bool \<times> bool \<Rightarrow> rln_gifter_request \<times> bool \<times> bool" where
  "request_field field v = (\<lambda>(m, have_id, have_idc).
     if field = 1 then (m\<lparr>request_id := fv_string v\<rparr>, True, have_idc)
     else if field = 2 then (m\<lparr>authentication_type := fv_bytes v\<rparr>, have_id, have_idc)
     else if field = 3 then (m\<lparr>authentication_payload := fv_bytes v\<rparr>, have_id, have_idc)
     else if field = 4 then (m\<lparr>identity_commitment := fv_bytes v\<rparr>, have_id, True)
     else if field = 5 then (m\<lparr>rate_limit := Some (fv_u64 v)\<rparr>, have_id, have_idc)
     else (m, have_id, have_idc))"

definition request_decode :: "bytes \<Rightarrow> string + rln_gifter_request" where
  "request_decode buf =
     (case walk_fields buf request_field (request_default, False, False) of
        Inl e \<Rightarrow> Inl e
      | Inr (m, have_id, have_idc) \<Rightarrow>
          if \<not> have_id then Inl ''missing request_id''
          else if \<not> have_idc then Inl ''missing identity_commitment''
          else Inr m)"

definition success_encode :: "membership_allocation_success \<Rightarrow> bytes" where
  "success_encode m =
     (let out = put_varint_field [] 1 (leaf_index m);
          out = put_len_field out 2 (merkle_root m);
          out = put_varint_field out 3 (block_number m);
          out = put_len_field out 4 (transaction_hash m)
      in case config_account_id m of
           Some cfg \<Rightarrow> put_len_field out 100 (as_bytes cfg) | None \<Rightarrow> out)"

definition success_default :: membership_allocation_success where
  "success_default =
     \<lparr>leaf_index = 0, merkle_root = [], block_number = 0, transaction_hash = [],
      config_account_id = None\<rparr>"

definition success_field ::
  "u64 \<Rightarrow> field_val \<Rightarrow> membership_allocation_success \<Rightarrow> membership_allocation_success" where
  "success_field field v m =
     (if field = 1 then m\<lparr>leaf_index := fv_u64 v\<rparr>
      else if field = 2 then m\<lparr>merkle_root := fv_bytes v\<rparr>
      else if field = 3 then m\<lparr>block_number := fv_u64 v\<rparr>
      else if field = 4 then m\<lparr>transaction_hash := fv_bytes v\<rparr>
      else if field = 100 then m\<lparr>config_account_id := Some (fv_string v)\<rparr>
      else m)"

definition success_decode :: "bytes \<Rightarrow> string + membership_allocation_success" where
  "success_decode buf = walk_fields buf success_field success_default"

definition failure_encode :: "membership_allocation_failure \<Rightarrow> bytes" where
  "failure_encode m = put_len_field [] 1 (as_bytes (error_message m))"

definition failure_default :: membership_allocation_failure where
  "failure_default = \<lparr>error_message = []\<rparr>"

definition failure_field ::
  "u64 \<Rightarrow> field_val \<Rightarrow> membership_allocation_failure \<Rightarrow> membership_allocation_failure" where
  "failure_field field v m = (if field = 1 then m\<lparr>error_message := fv_string v\<rparr> else m)"

definition failure_decode :: "bytes \<Rightarrow> string + membership_allocation_failure" where
  "failure_decode buf = walk_fields buf failure_field failure_default"

definition response_encode :: "rln_gifter_response \<Rightarrow> bytes" where
  "response_encode m =
     (let out = put_len_field [] 1 (as_bytes (resp_request_id m));
          out = put_varint_field out 2 (if auth_success m then 1 else 0);
          out = (case resp_error m of Some e \<Rightarrow> put_len_field out 3 (as_bytes e) | None \<Rightarrow> out);
          out = (case success m of Some s \<Rightarrow> put_len_field out 4 (success_encode s) | None \<Rightarrow> out)
      in case failure m of Some f \<Rightarrow> put_len_field out 5 (failure_encode f) | None \<Rightarrow> out)"

definition response_default :: rln_gifter_response where
  "response_default =
     \<lparr>resp_request_id = [], auth_success = False, resp_error = None, success = None,
      failure = None\<rparr>"

type_synonym response_acc = "rln_gifter_response \<times> string option \<times> bool \<times> bool"

definition response_field :: "u64 \<Rightarrow> field_val \<Rightarrow> response_acc \<Rightarrow> response_acc" where
  "response_field field v = (\<lambda>(m, sub_err, have_id, have_auth).
     if field = 1 then (m\<lparr>resp_request_id := fv_string v\<rparr>, sub_err, True, have_auth)
     else if field = 2 then (m\<lparr>auth_success := (fv_u64 v \<noteq> 0)\<rparr>, sub_err, have_id, True)
     else if field = 3 then (m\<lparr>resp_error := Some (fv_string v)\<rparr>, sub_err, have_id, have_auth)
     else if field = 4 then
       (case success_decode (fv_bytes v) of
          Inr s \<Rightarrow> (m\<lparr>success := Some s\<rparr>, sub_err, have_id, have_auth)
        | Inl e \<Rightarrow> (m, Some e, have_id, have_auth))
     else if field = 5 then
       (case failure_decode (fv_bytes v) of
          Inr f \<Rightarrow> (m\<lparr>failure := Some f\<rparr>, sub_err, have_id, have_auth)
        | Inl e \<Rightarrow> (m, Some e, have_id, have_auth))
     else (m, sub_err, have_id, have_auth))"

definition response_decode :: "bytes \<Rightarrow> string + rln_gifter_response" where
  "response_decode buf =
     (case walk_fields buf response_field (response_default, None, False, False) of
        Inl e \<Rightarrow> Inl e
      | Inr (m, sub_err, have_id, have_auth) \<Rightarrow>
          (case sub_err of
             Some e \<Rightarrow> Inl e
           | None \<Rightarrow>
               if \<not> have_id then Inl ''missing request_id''
               else if \<not> have_auth then Inl ''missing auth_success''
               else Inr m))"

section \<open>Varints round-trip\<close>

abbreviation varint :: "u64 \<Rightarrow> bytes" where
  "varint v \<equiv> put_varint [] v"

lemma put_varint_prefix: "put_varint (p @ out) v = p @ put_varint out v"
proof (induction out v arbitrary: p rule: put_varint.induct)
  case (1 out v)
  show ?case
    using "1" [OF refl refl refl, of p]
    by (subst (1 2) put_varint.simps) (simp add: Let_def)
qed

lemma put_varint_acc: "put_varint out v = out @ varint v"
  using put_varint_prefix [of out "[]" v] by simp

lemma varint_step:
  "varint v = (if drop_bit 7 v = 0 then [ucast (v AND 0x7f)]
               else (ucast (v AND 0x7f) OR 0x80) # varint (drop_bit 7 v))"
  by (subst put_varint.simps) (simp add: Let_def put_varint_acc [of "[_]"])

lemma mask7: "(0x7f :: 'a::len word) = mask 7"
  by (simp add: mask_eq_exp_minus_1)

lemma low7: "(ucast (ucast (v AND 0x7f) AND 0x7f :: u8) :: u64) = v AND 0x7f"
  unfolding mask7 by (rule bit_word_eqI) (auto simp: bit_simps)

lemma low7_cont: "(ucast ((ucast (v AND 0x7f) OR 0x80) AND 0x7f :: u8) :: u64) = v AND 0x7f"
proof -
  have "(x OR 0x80) AND 0x7f = (x AND 0x7f :: u8)" for x
    by (simp add: bit.conj_disj_distrib2)
  then show ?thesis by (simp add: low7)
qed

lemma cont_bit: "(ucast (v AND 0x7f :: u64) OR 0x80) AND 0x80 \<noteq> (0 :: u8)"
proof -
  have "bit ((ucast (v AND 0x7f :: u64) OR 0x80) AND 0x80 :: u8) 7"
    by (simp add: bit_simps)
  then show ?thesis by fastforce
qed

lemma no_cont_bit: "ucast (v AND 0x7f :: u64) AND 0x80 = (0 :: u8)"
  unfolding mask7
proof (rule bit_word_eqI)
  fix n assume "n < LENGTH(8)"
  then show "bit (ucast (v AND mask 7 :: u64) AND 0x80 :: u8) n = bit (0 :: u8) n"
    using bit_exp_iff [of 7 n, where 'a = u8]
    by (auto simp: bit_simps)
qed

lemma split7: "push_bit s (v :: u64) = push_bit s (v AND 0x7f) OR push_bit (s + 7) (drop_bit 7 v)"
  unfolding mask7
proof (rule bit_word_eqI)
  fix n
  have "7 + (n - (s + 7)) = n - s" if "\<not> n - s < 7" using that by arith
  then show "bit (push_bit s v) n = bit (push_bit s (v AND mask 7) OR push_bit (s + 7) (drop_bit 7 v)) n"
    by (cases "n - s < 7") (auto simp: bit_simps)
qed

lemma drop7_nonzero: "drop_bit 7 (v :: u64) \<noteq> 0 \<Longrightarrow> 128 \<le> unat v"
proof -
  assume "drop_bit 7 v \<noteq> 0"
  then have "drop_bit 7 (unat v) \<noteq> 0"
    by (metis unat_drop_bit_eq unat_eq_0)
  then show ?thesis by (simp add: drop_bit_eq_div)
qed

lemma read_varint_loop_varint:
  "drop i buf = varint v @ rest \<Longrightarrow> shift \<le> 63 \<Longrightarrow> unat v < 2 ^ (64 - shift) \<Longrightarrow>
     read_varint_loop buf i r shift = Some (r OR push_bit shift v, i + length (varint v))"
proof (induction "unat v" arbitrary: v i r shift rule: less_induct)
  case less
  let ?b = "ucast (v AND 0x7f) :: u8"
  show ?case
  proof (cases "drop_bit 7 v = 0")
    case True
    then have vb: "varint v = [?b]" by (subst varint_step) simp
    with less.prems(1) have "get_at buf i = Some ?b" by (simp add: get_at_drop)
    moreover have "push_bit shift v = push_bit shift (v AND 0x7f)"
      using split7 [of shift v] True by simp
    ultimately show ?thesis
      by (simp add: read_varint_loop.simps [of buf i] vb low7 no_cont_bit)
  next
    case False
    let ?w = "drop_bit 7 v"
    from False have vb: "varint v = (?b OR 0x80) # varint ?w" by (subst varint_step) simp
    with less.prems(1) have g: "get_at buf i = Some (?b OR 0x80)"
      and d: "drop (i + 1) buf = varint ?w @ rest"
      by (simp_all add: get_at_drop drop_Suc_Cons_eq)
    have big: "128 \<le> unat v" using False by (rule drop7_nonzero)
    have "(2::nat) ^ 7 < 2 ^ (64 - shift)" using big less.prems(3) by simp
    then have sh: "7 < 64 - shift" by (rule power_less_imp_less_exp [rotated]) simp
    then have sh': "\<not> 57 \<le> shift" by arith
    have uw: "unat ?w = unat v div 128"
      by (simp only: unat_drop_bit_eq) (simp add: drop_bit_eq_div)
    with big have lt: "unat ?w < unat v" by simp
    have e: "64 - shift = 7 + (64 - (shift + 7))" using sh by arith
    have "(2::nat) ^ (64 - shift) = 2 ^ 7 * 2 ^ (64 - (shift + 7))"
      by (subst e) (rule power_add)
    with less.prems(3) uw have uw': "unat ?w < 2 ^ (64 - (shift + 7))"
      by (simp add: less_mult_imp_div_less mult.commute)
    have rec: "read_varint_loop buf (i + 1) (r OR push_bit shift (v AND 0x7f)) (shift + 7)
        = Some ((r OR push_bit shift (v AND 0x7f)) OR push_bit (shift + 7) ?w,
                (i + 1) + length (varint ?w))"
      using less.hyps [OF lt d _ uw'] sh by simp
    have step: "read_varint_loop buf i r shift
        = read_varint_loop buf (i + 1) (r OR push_bit shift (v AND 0x7f)) (shift + 7)"
      using sh' by (simp add: read_varint_loop.simps [of buf i] g low7_cont cont_bit)
    have eq: "r OR push_bit shift v = (r OR push_bit shift (v AND 0x7f)) OR push_bit (shift + 7) ?w"
      by (subst split7) (simp only: or.assoc)
    show ?thesis unfolding step rec eq by (simp add: vb)
  qed
qed

lemma read_varint_varint:
  "drop i buf = varint v @ rest \<Longrightarrow> read_varint buf i = Some (v, i + length (varint v))"
  using read_varint_loop_varint [of i buf v rest 0 0] unsigned_less [of v]
  by (simp add: read_varint_def)

section \<open>Fields\<close>

text \<open>The fields of a message as data, their encoding, and the walker on them.\<close>

type_synonym wire_field = "u64 \<times> field_val"

fun field_bytes :: "wire_field \<Rightarrow> bytes" where
  "field_bytes (n, Varint v) = put_varint_field [] n v"
| "field_bytes (n, Bytes b) = put_len_field [] n b"

lemma put_len_field_acc: "put_len_field out n b = out @ field_bytes (n, Bytes b)"
  by (simp add: put_len_field_def put_varint_acc [of out] put_varint_acc [of "_ @ _"]
      put_varint_acc [of "varint _"])

lemma put_varint_field_acc: "put_varint_field out n v = out @ field_bytes (n, Varint v)"
  by (simp add: put_varint_field_def put_varint_acc [of out] put_varint_acc [of "_ @ _"]
      put_varint_acc [of "varint _"])

definition field_ok :: "wire_field \<Rightarrow> bool" where
  "field_ok fv \<longleftrightarrow> fst fv < 2 ^ 61"

lemma key_field:
  assumes "(n :: u64) < 2 ^ 61"
  shows "drop_bit 3 (push_bit 3 n) = n" "drop_bit 3 (push_bit 3 n OR 2) = n"
    "push_bit 3 n AND 7 = 0" "(push_bit 3 n OR 2) AND 7 = 2"
proof -
  have t: "n AND mask 61 = n"
    using assms by (rule less_mask_eq)
  have b: "bit n k \<Longrightarrow> k < 61" for k
    using t by (metis bit_and_iff bit_mask_iff)
  have m: "(7 :: u64) = mask 3" by (simp add: mask_eq_exp_minus_1)
  show d: "drop_bit 3 (push_bit 3 n) = n"
    by (rule bit_word_eqI) (auto simp: bit_simps dest: b)
  have z: "drop_bit 3 (2 :: u64) = 0" by simp
  show "drop_bit 3 (push_bit 3 n OR 2) = n" by (simp only: drop_bit_or d z or.right_neutral)
  show z7: "push_bit 3 n AND 7 = 0" unfolding m by (rule bit_word_eqI) (auto simp: bit_simps)
  have "(2 :: u64) AND 7 = 2" by simp
  then show "(push_bit 3 n OR 2) AND 7 = 2" by (simp only: bit.conj_disj_distrib2 z7 or.left_neutral)
qed

lemma varint_nonempty: "varint v \<noteq> []"
  by (subst varint_step) simp

lemma walk_loop_field:
  assumes d: "drop i buf = field_bytes fv @ rest" and n: "fst fv < 2 ^ 61"
    and len: "length buf < vec_limit"
  shows "walk_loop buf f i st = walk_loop buf f (i + length (field_bytes fv)) (f (fst fv) (snd fv) st)"
proof (cases "snd fv")
  case (Varint v)
  obtain n where fv: "fv = (n, Varint v)" using Varint by (cases fv) simp
  note k = key_field [OF assms(2)]
  let ?k = "varint (push_bit 3 n)"
  have fb: "field_bytes fv = ?k @ varint v"
    by (simp add: fv put_varint_field_def put_varint_acc [of "varint _"])
  have r1: "read_varint buf i = Some (push_bit 3 n, i + length ?k)"
    by (rule read_varint_varint [of _ _ _ "varint v @ rest"]) (simp add: d fb)
  have d2: "drop (i + length ?k) buf = varint v @ rest"
    by (rule drop_append_eq) (simp add: d fb)
  have i: "i < length buf"
    by (rule drop_nonempty [OF d]) (simp add: fb varint_nonempty)
  show ?thesis
    using k by (simp add: walk_loop.simps [of buf f i] i r1 read_varint_varint [OF d2] fv Let_def
        fb [unfolded fv] add.assoc del: field_bytes.simps)
next
  case (Bytes b)
  obtain n where fv: "fv = (n, Bytes b)" using Bytes by (cases fv) simp
  note k = key_field [OF assms(2)]
  let ?k = "varint (push_bit 3 n OR 2)" and ?l = "varint (of_nat (length b))"
  have fb: "field_bytes fv = ?k @ ?l @ b"
    by (simp add: fv put_len_field_def put_varint_acc [of "varint _"])
  have r1: "read_varint buf i = Some (push_bit 3 n OR 2, i + length ?k)"
    by (rule read_varint_varint [of _ _ _ "?l @ b @ rest"]) (simp add: d fb)
  have d2: "drop (i + length ?k) buf = ?l @ b @ rest"
    by (rule drop_append_eq) (simp add: d fb)
  have d3: "drop (i + length ?k + length ?l) buf = b @ rest"
    by (rule drop_append_eq) (rule d2)
  have e: "i + length ?k + length ?l + length b \<le> length buf"
    using drop_length_le [of i buf "field_bytes fv" rest] d fb varint_nonempty by simp
  have ul: "unat (of_nat (length b) :: u64) = length b"
    using e len by (simp add: unat_of_nat vec_limit_def)
  have "i < length buf"
    by (rule drop_nonempty [OF d]) (simp add: fb varint_nonempty)
  then show ?thesis
    using k e len by (simp add: walk_loop.simps [of buf f i] r1 read_varint_varint [OF d2] fv Let_def
        fb [unfolded fv] ul d3 [unfolded add.assoc] add.assoc vec_limit_def usize_limit_def del: field_bytes.simps)
qed


abbreviation run_fields :: "(u64 \<Rightarrow> field_val \<Rightarrow> 's \<Rightarrow> 's) \<Rightarrow> wire_field list \<Rightarrow> 's \<Rightarrow> 's" where
  "run_fields f fs st \<equiv> fold (\<lambda>fv. f (fst fv) (snd fv)) fs st"

definition fields_bytes :: "wire_field list \<Rightarrow> bytes" where
  "fields_bytes fs = concat (map field_bytes fs)"

lemma fields_bytes_simps [simp]:
  "fields_bytes [] = []" "fields_bytes (fv # fs) = field_bytes fv @ fields_bytes fs"
  "fields_bytes (fs @ gs) = fields_bytes fs @ fields_bytes gs"
  by (simp_all add: fields_bytes_def)

lemma walk_loop_fields:
  "drop i buf = fields_bytes fs @ rest \<Longrightarrow> list_all field_ok fs \<Longrightarrow> length buf < vec_limit \<Longrightarrow>
     walk_loop buf f i st
       = walk_loop buf f (i + length (fields_bytes fs)) (run_fields f fs st)"
proof (induction fs arbitrary: i st)
  case Nil
  then show ?case by simp
next
  case (Cons fv fs)
  have d: "drop i buf = field_bytes fv @ (fields_bytes fs @ rest)"
    using Cons.prems(1) by simp
  have "walk_loop buf f i st
      = walk_loop buf f (i + length (field_bytes fv)) (f (fst fv) (snd fv) st)"
    using Cons.prems by (intro walk_loop_field [OF d]) (simp_all add: field_ok_def)
  also have "\<dots> = walk_loop buf f (i + length (field_bytes fv) + length (fields_bytes fs))
      (run_fields f fs (f (fst fv) (snd fv) st))"
    using Cons.prems by (intro Cons.IH drop_append_eq [OF d]) simp_all
  finally show ?case by (simp add: add.assoc)
qed

lemma walk_fields_append:
  "list_all field_ok fs \<Longrightarrow> length (fields_bytes fs @ rest) < vec_limit \<Longrightarrow>
     walk_fields (fields_bytes fs @ rest) f st
       = walk_loop (fields_bytes fs @ rest) f (length (fields_bytes fs)) (run_fields f fs st)"
  using walk_loop_fields [of 0 "fields_bytes fs @ rest" fs rest f st] by (simp add: walk_fields_def)

lemma walk_fields_bytes:
  "list_all field_ok fs \<Longrightarrow> length (fields_bytes fs) < vec_limit \<Longrightarrow>
     walk_fields (fields_bytes fs) f st = Inr (run_fields f fs st)"
  using walk_fields_append [of fs "[]" f st] by (simp add: walk_loop.simps [of _ _ "length _"])

text \<open>
  A parse of the buffer into its fields, and the walker as a fold over that parse: what a decoder
  returns depends on the buffer only through its field list.
\<close>

definition wire_fields :: "bytes \<Rightarrow> string + wire_field list" where
  "wire_fields buf = walk_fields buf (\<lambda>n v acc. acc @ [(n, v)]) []"

lemma walk_loop_fusion:
  "walk_loop buf f i (run_fields f acc st)
     = map_sum id (\<lambda>fs. run_fields f fs st) (walk_loop buf (\<lambda>n v acc. acc @ [(n, v)]) i acc)"
proof (induction buf "\<lambda>n v (acc :: wire_field list). acc @ [(n, v)]" i acc rule: walk_loop.induct)
  case (1 buf i acc)
  show ?case
    apply (subst (1 2) walk_loop.simps)
    using "1"
    by (simp split: option.split prod.split add: Let_def)
qed

lemma walk_fields_eq:
  "walk_fields buf f st = map_sum id (\<lambda>fs. run_fields f fs st) (wire_fields buf)"
  using walk_loop_fusion [of buf f 0 "[]" st] by (simp add: walk_fields_def wire_fields_def)

end
