(* ===== verification/Wire_Correct.thy ===== *)
theory Wire_Correct
  imports Wire
begin

text \<open>
  Correctness of the gifter messages: every message type meets the interface of a self-inverse
  codec (\<open>proto_message\<close>), and the decoders are characterised by the field list of the buffer:
  the last occurrence of a field wins, unknown fields are skipped, the required ones must occur.
\<close>

section \<open>The interface of a message codec\<close>

text \<open>
  \<open>wf\<close> is the Rust type invariant of the message (its strings are UTF-8); \<open>known\<close> are the field
  numbers its decoder looks at.
\<close>

locale proto_message =
  fixes encode :: "'m \<Rightarrow> bytes"
    and decode :: "bytes \<Rightarrow> string + 'm"
    and wf :: "'m \<Rightarrow> bool"
    and known :: "u64 set"
  assumes decode_encode_unknown:
    "wf m \<Longrightarrow> list_all field_ok fs \<Longrightarrow> fst ` set fs \<inter> known = {} \<Longrightarrow>
       length (encode m @ fields_bytes fs) < vec_limit \<Longrightarrow>
       decode (encode m @ fields_bytes fs) = Inr m"
begin

lemma decode_encode: "wf m \<Longrightarrow> length (encode m) < vec_limit \<Longrightarrow> decode (encode m) = Inr m"
  using decode_encode_unknown [of m "[]"] by simp

lemma encode_inject:
  "wf m \<Longrightarrow> wf m' \<Longrightarrow> length (encode m) < vec_limit \<Longrightarrow> encode m = encode m' \<Longrightarrow> m = m'"
  using decode_encode by (metis sum.inject(2))

end

section \<open>Messages as field lists\<close>

definition request_fields :: "rln_gifter_request \<Rightarrow> wire_field list" where
  "request_fields m =
     [(1, Bytes (as_bytes (request_id m))), (2, Bytes (authentication_type m)),
      (3, Bytes (authentication_payload m)), (4, Bytes (identity_commitment m))]
     @ (case rate_limit m of Some r \<Rightarrow> [(5, Varint r)] | None \<Rightarrow> [])"

definition success_fields :: "membership_allocation_success \<Rightarrow> wire_field list" where
  "success_fields m =
     [(1, Varint (leaf_index m)), (2, Bytes (merkle_root m)), (3, Varint (block_number m)),
      (4, Bytes (transaction_hash m))]
     @ (case config_account_id m of Some c \<Rightarrow> [(100, Bytes (as_bytes c))] | None \<Rightarrow> [])"

definition failure_fields :: "membership_allocation_failure \<Rightarrow> wire_field list" where
  "failure_fields m = [(1, Bytes (as_bytes (error_message m)))]"

definition response_fields :: "rln_gifter_response \<Rightarrow> wire_field list" where
  "response_fields m =
     [(1, Bytes (as_bytes (resp_request_id m))), (2, Varint (if auth_success m then 1 else 0))]
     @ (case resp_error m of Some e \<Rightarrow> [(3, Bytes (as_bytes e))] | None \<Rightarrow> [])
     @ (case success m of Some s \<Rightarrow> [(4, Bytes (success_encode s))] | None \<Rightarrow> [])
     @ (case failure m of Some f \<Rightarrow> [(5, Bytes (failure_encode f))] | None \<Rightarrow> [])"

named_theorems message_fields \<open>each message is the encoding of its field list\<close>

lemmas put_field_acc = put_len_field_acc put_varint_field_acc

lemma request_encode_fields [message_fields]: "request_encode m = fields_bytes (request_fields m)"
  by (simp add: request_encode_def request_fields_def put_field_acc [of "_ @ _"]
      put_field_acc [of "put_len_field _ _ _"] Let_def split: option.split)

lemma success_encode_fields [message_fields]: "success_encode m = fields_bytes (success_fields m)"
  by (simp add: success_encode_def success_fields_def put_field_acc [of "_ @ _"]
      put_field_acc [of "put_len_field _ _ _"] put_field_acc [of "put_varint_field _ _ _"]
      Let_def split: option.split)

lemma failure_encode_fields [message_fields]: "failure_encode m = fields_bytes (failure_fields m)"
  by (simp add: failure_encode_def failure_fields_def)

lemma response_encode_fields [message_fields]: "response_encode m = fields_bytes (response_fields m)"
  by (simp add: response_encode_def response_fields_def put_field_acc [of "_ @ _"]
      put_field_acc [of "put_len_field _ _ _"] put_field_acc [of "put_varint_field _ _ _"]
      Let_def split: option.split)

lemma fields_ok:
  "list_all field_ok (request_fields q)" "list_all field_ok (success_fields s)"
  "list_all field_ok (failure_fields f)" "list_all field_ok (response_fields r)"
  by (simp_all add: request_fields_def success_fields_def failure_fields_def response_fields_def
      field_ok_def split: option.split)

section \<open>The interface holds for every message\<close>

lemma run_fields_unknown:
  assumes "\<And>n v st. n \<notin> known \<Longrightarrow> f n v st = st" and "fst ` set fs \<inter> known = {}"
  shows "run_fields f fs st = st"
  using assms(2) by (induction fs) (auto simp: assms(1))

lemma walk_message:
  assumes "list_all field_ok ms" "list_all field_ok fs" "length (fields_bytes (ms @ fs)) < vec_limit"
    and "\<And>n v st. n \<notin> known \<Longrightarrow> f n v st = st" and "fst ` set fs \<inter> known = {}"
  shows "walk_fields (fields_bytes ms @ fields_bytes fs) f st = Inr (run_fields f ms st)"
  using walk_fields_bytes [of "ms @ fs" f st] assms(1-3) run_fields_unknown [OF assms(4,5)]
  by simp

definition request_wf :: "rln_gifter_request \<Rightarrow> bool" where
  "request_wf m \<longleftrightarrow> valid_str (request_id m)"

definition success_wf :: "membership_allocation_success \<Rightarrow> bool" where
  "success_wf m \<longleftrightarrow> (case config_account_id m of Some c \<Rightarrow> valid_str c | None \<Rightarrow> True)"

definition failure_wf :: "membership_allocation_failure \<Rightarrow> bool" where
  "failure_wf m \<longleftrightarrow> valid_str (error_message m)"

definition response_wf :: "rln_gifter_response \<Rightarrow> bool" where
  "response_wf m \<longleftrightarrow> valid_str (resp_request_id m)
     \<and> (case resp_error m of Some e \<Rightarrow> valid_str e | None \<Rightarrow> True)
     \<and> (case success m of Some s \<Rightarrow> success_wf s | None \<Rightarrow> True)
     \<and> (case failure m of Some f \<Rightarrow> failure_wf f | None \<Rightarrow> True)"

lemma request_field_unknown: "n \<notin> {1, 2, 3, 4, 5} \<Longrightarrow> request_field n v st = st"
  by (cases st) (simp add: request_field_def)

lemma success_field_unknown: "n \<notin> {1, 2, 3, 4, 100} \<Longrightarrow> success_field n v m = m"
  by (simp add: success_field_def)

lemma failure_field_unknown: "n \<notin> {1} \<Longrightarrow> failure_field n v m = m"
  by (simp add: failure_field_def)

lemma response_field_unknown: "n \<notin> {1, 2, 3, 4, 5} \<Longrightarrow> response_field n v st = st"
  by (cases st) (simp add: response_field_def)

interpretation request_msg: proto_message request_encode request_decode request_wf "{1, 2, 3, 4, 5}"
proof unfold_locales
  fix m fs
  assume a: "request_wf m" "list_all field_ok fs" "fst ` set fs \<inter> {1, 2, 3, 4, 5} = {}"
    "length (request_encode m @ fields_bytes fs) < vec_limit"
  have "walk_fields (request_encode m @ fields_bytes fs) request_field (request_default, False, False)
      = Inr (run_fields request_field (request_fields m) (request_default, False, False))"
    using a request_field_unknown unfolding message_fields
    by (intro walk_message [where known = "{1, 2, 3, 4, 5}"]) (simp_all add: fields_ok)
  also have "run_fields request_field (request_fields m) (request_default, False, False) = (m, True, True)"
    using a(1) by (simp add: request_fields_def request_field_def request_default_def request_wf_def
        split: option.split)
  finally show "request_decode (request_encode m @ fields_bytes fs) = Inr m"
    by (simp add: request_decode_def)
qed

interpretation success_msg: proto_message success_encode success_decode success_wf "{1, 2, 3, 4, 100}"
proof unfold_locales
  fix m fs
  assume a: "success_wf m" "list_all field_ok fs" "fst ` set fs \<inter> {1, 2, 3, 4, 100} = {}"
    "length (success_encode m @ fields_bytes fs) < vec_limit"
  have "walk_fields (success_encode m @ fields_bytes fs) success_field success_default
      = Inr (run_fields success_field (success_fields m) success_default)"
    using a success_field_unknown unfolding message_fields
    by (intro walk_message [where known = "{1, 2, 3, 4, 100}"]) (simp_all add: fields_ok)
  also have "run_fields success_field (success_fields m) success_default = m"
    using a(1) by (simp add: success_fields_def success_field_def success_default_def success_wf_def
        split: option.split_asm option.split)
  finally show "success_decode (success_encode m @ fields_bytes fs) = Inr m"
    by (simp add: success_decode_def)
qed

interpretation failure_msg: proto_message failure_encode failure_decode failure_wf "{1}"
proof unfold_locales
  fix m fs
  assume a: "failure_wf m" "list_all field_ok fs" "fst ` set fs \<inter> {1} = {}"
    "length (failure_encode m @ fields_bytes fs) < vec_limit"
  have "walk_fields (failure_encode m @ fields_bytes fs) failure_field failure_default
      = Inr (run_fields failure_field (failure_fields m) failure_default)"
    using a failure_field_unknown unfolding message_fields
    by (intro walk_message [where known = "{1}"]) (simp_all add: fields_ok)
  also have "run_fields failure_field (failure_fields m) failure_default = m"
    using a(1) by (simp add: failure_fields_def failure_field_def failure_default_def failure_wf_def)
  finally show "failure_decode (failure_encode m @ fields_bytes fs) = Inr m"
    by (simp add: failure_decode_def)
qed

text \<open>The submessages of a response are shorter than the response.\<close>

lemma length_field_bytes: "length b < length (field_bytes (n, Bytes b))"
  using varint_nonempty [of "push_bit 3 n OR 2"]
  by (simp add: put_len_field_def put_varint_acc [of "varint _"])

lemma length_member_field:
  "(n, Bytes b) \<in> set fs \<Longrightarrow> length b < length (fields_bytes fs)"
  using length_field_bytes [of b n] by (induction fs) (auto simp del: field_bytes.simps)

interpretation response_msg: proto_message response_encode response_decode response_wf "{1, 2, 3, 4, 5}"
proof unfold_locales
  fix m fs
  assume a: "response_wf m" "list_all field_ok fs" "fst ` set fs \<inter> {1, 2, 3, 4, 5} = {}"
    "length (response_encode m @ fields_bytes fs) < vec_limit"
  let ?st = "(response_default, None, False, False)"
  have "walk_fields (response_encode m @ fields_bytes fs) response_field ?st
      = Inr (run_fields response_field (response_fields m) ?st)"
    using a response_field_unknown unfolding message_fields
    by (intro walk_message [where known = "{1, 2, 3, 4, 5}"]) (simp_all add: fields_ok)
  also have "run_fields response_field (response_fields m) ?st = (m, None, True, True)"
  proof -
    have "success_decode (success_encode s) = Inr s" if "success m = Some s" for s
    proof (rule success_msg.decode_encode)
      have "(4, Bytes (success_encode s)) \<in> set (response_fields m)"
        by (simp add: response_fields_def that)
      from length_member_field [OF this] a(4) show "length (success_encode s) < vec_limit"
        by (simp add: response_encode_fields)
    qed (use a(1) that in \<open>simp add: response_wf_def\<close>)
    moreover have "failure_decode (failure_encode f) = Inr f" if "failure m = Some f" for f
    proof (rule failure_msg.decode_encode)
      have "(5, Bytes (failure_encode f)) \<in> set (response_fields m)"
        by (simp add: response_fields_def that)
      from length_member_field [OF this] a(4) show "length (failure_encode f) < vec_limit"
        by (simp add: response_encode_fields)
    qed (use a(1) that in \<open>simp add: response_wf_def\<close>)
    ultimately show ?thesis
      using a(1) by (simp add: response_fields_def response_field_def response_default_def response_wf_def
          split: option.split_asm option.split)
  qed
  finally show "response_decode (response_encode m @ fields_bytes fs) = Inr m"
    by (simp add: response_decode_def)
qed

section \<open>Properties\<close>

text \<open>
  Varints round-trip at every position of a buffer: reading back what \<open>put_varint\<close> wrote gives
  the value and the index just after it, and an encoding takes between one and ten bytes.
\<close>

lemma varint_roundtrip:
  "read_varint (pre @ put_varint [] v @ rest) (length pre)
     = Some (v, length pre + length (put_varint [] v))
   \<and> 1 \<le> length (put_varint [] v) \<and> length (put_varint [] v) \<le> 10"
proof -
  have r: "read_varint (pre @ put_varint [] v @ rest) (length pre)
      = Some (v, length pre + length (put_varint [] v))"
    by (rule read_varint_varint [of _ _ _ rest]) simp
  from read_varint_bounds [OF r] show ?thesis
    using r by (simp add: Suc_le_eq)
qed

text \<open>
  C18. A gifter request survives the wire: decoding an encoded request gives the request back, also
  when fields with numbers this version does not know follow it. The request id is a Rust \<open>String\<close>
  (UTF-8) and the buffer a Rust vector.
\<close>

theorem request_roundtrip:
  assumes "valid_str (request_id m)"
    and "list_all field_ok fs" and "fst ` set fs \<inter> {1, 2, 3, 4, 5} = {}"
    and "length (request_encode m @ fields_bytes fs) < vec_limit"
  shows "request_decode (request_encode m @ fields_bytes fs) = Inr m"
  using assms by (intro request_msg.decode_encode_unknown) (simp_all add: request_wf_def)

definition sample_request :: rln_gifter_request where
  "sample_request =
     \<lparr>request_id = ''x'', authentication_type = [], authentication_payload = [],
      identity_commitment = [0xff], rate_limit = Some 1\<rparr>"

lemma varint_small: "v < 128 \<Longrightarrow> put_varint [] v = [ucast v]"
proof -
  assume v: "v < 128"
  then have "v AND mask 7 = v" by (intro less_mask_eq) simp
  moreover from v have "drop_bit 7 v = 0"
    by (metis calculation drop_bit_mask_eq le_refl take_bit_eq_mask take_bit_eq_self_iff_drop_bit_eq_0)
  ultimately show ?thesis by (subst varint_step) (simp add: mask7)
qed

lemma sample_request_bytes:
  "request_encode sample_request
     = [0x0A, 0x01, 0x78, 0x12, 0x00, 0x1A, 0x00, 0x22, 0x01, 0xff, 0x28, 0x01]"
  by (simp add: request_encode_fields request_fields_def sample_request_def put_len_field_def
      put_varint_field_def put_varint_acc [of "[_]"] varint_small)

theorem request_roundtrip_witness:
  "request_decode ([0x0A, 0x01, 0x78, 0x12, 0x00, 0x1A, 0x00, 0x22, 0x01, 0xff, 0x28, 0x01, 0x30, 0x07])
     = Inr sample_request"
proof -
  have f: "field_bytes (6, Varint 7) = [0x30, 0x07]"
    by (simp add: put_varint_field_def put_varint_acc [of "[_]"] varint_small)
  have "request_decode (request_encode sample_request @ fields_bytes [(6, Varint 7)]) = Inr sample_request"
  proof (rule request_roundtrip)
    show "valid_str (request_id sample_request)" by (simp add: sample_request_def valid_str_ascii)
    show "length (request_encode sample_request @ fields_bytes [(6, Varint 7)]) < vec_limit"
      by (simp add: sample_request_bytes f vec_limit_def del: field_bytes.simps)
  qed (simp_all add: field_ok_def)
  then show ?thesis by (simp add: sample_request_bytes f del: field_bytes.simps)
qed

text \<open>
  C19. A gifter response, with its nested allocation success and failure, survives the wire in the
  same way.
\<close>

theorem response_roundtrip:
  assumes "response_wf m"
    and "list_all field_ok fs" and "fst ` set fs \<inter> {1, 2, 3, 4, 5} = {}"
    and "length (response_encode m @ fields_bytes fs) < vec_limit"
  shows "response_decode (response_encode m @ fields_bytes fs) = Inr m"
  using assms by (rule response_msg.decode_encode_unknown)

definition sample_response :: rln_gifter_response where
  "sample_response =
     \<lparr>resp_request_id = ''r1'', auth_success = True, resp_error = None,
      success = Some \<lparr>leaf_index = 56, merkle_root = [], block_number = 0,
        transaction_hash = [0xab, 0xcd], config_account_id = Some ''cfg''\<rparr>,
      failure = None\<rparr>"

lemma varint_1 [simp]: "put_varint [] 1 = [1]" "put_varint [] 0 = [0]"
  by (simp_all add: varint_small)

lemma length_field_bytes_le:
  "length (field_bytes (n, Bytes b)) \<le> 20 + length b" "length (field_bytes (n, Varint v)) \<le> 20"
proof -
  have l: "length (put_varint [] w) \<le> 10" for w
    using read_varint_bounds [OF read_varint_varint [of 0 "varint w" w "[]"]] by simp
  show "length (field_bytes (n, Bytes b)) \<le> 20 + length b" "length (field_bytes (n, Varint v)) \<le> 20"
    using l [of "push_bit 3 n OR 2"] l [of "push_bit 3 n"] l [of v] l [of "of_nat (length b)"]
    by (simp_all add: put_len_field_def put_varint_field_def put_varint_acc [of "varint _"])
qed

theorem response_roundtrip_witness:
  "response_decode (response_encode sample_response) = Inr sample_response"
proof -
  have "response_decode (response_encode sample_response @ fields_bytes []) = Inr sample_response"
  proof (rule response_roundtrip)
    show "response_wf sample_response"
      by (simp add: sample_response_def response_wf_def success_wf_def valid_str_ascii)
    let ?s = "\<lparr>leaf_index = 56, merkle_root = [], block_number = 0,
        transaction_hash = [0xab, 0xcd], config_account_id = Some ''cfg''\<rparr>"
    have "length (success_encode ?s) \<le> 105"
      using length_field_bytes_le(2) [of 1 56] length_field_bytes_le(2) [of 3 0]
        length_field_bytes_le(1) [of 2 "[]"] length_field_bytes_le(1) [of 4 "[0xab, 0xcd]"]
        length_field_bytes_le(1) [of 100 "as_bytes ''cfg''"]
      by (simp add: success_encode_fields success_fields_def del: field_bytes.simps)
    then show "length (response_encode sample_response @ fields_bytes []) < vec_limit"
      using length_field_bytes_le(1) [of 4 "success_encode ?s"]
        length_field_bytes_le(1) [of 1 "as_bytes ''r1''"] length_field_bytes_le(2) [of 2 1]
      by (simp add: response_encode_fields response_fields_def sample_response_def vec_limit_def
          del: field_bytes.simps)
  qed simp_all
  then show ?thesis by simp
qed

text \<open>
  C20. What \<open>RlnGifterRequest::decode\<close> accepts, by the fields of the buffer: the last occurrence of a
  field wins, a field with the wrong wire type counts as empty, unknown fields are skipped, and a
  request without an id or without an identity commitment is refused.
\<close>

definition last_val :: "u64 \<Rightarrow> wire_field list \<Rightarrow> field_val option" where
  "last_val n fs = map_of (rev fs) n"

definition request_spec :: "wire_field list \<Rightarrow> string + rln_gifter_request" where
  "request_spec fs =
     (case (last_val 1 fs, last_val 4 fs) of
        (None, _) \<Rightarrow> Inl ''missing request_id''
      | (Some _, None) \<Rightarrow> Inl ''missing identity_commitment''
      | (Some rid, Some idc) \<Rightarrow> Inr
          \<lparr>request_id = fv_string rid,
           authentication_type = (case last_val 2 fs of Some v \<Rightarrow> fv_bytes v | None \<Rightarrow> []),
           authentication_payload = (case last_val 3 fs of Some v \<Rightarrow> fv_bytes v | None \<Rightarrow> []),
           identity_commitment = fv_bytes idc,
           rate_limit = map_option fv_u64 (last_val 5 fs)\<rparr>)"

lemma last_val_simps [simp]:
  "last_val n [] = None" "last_val n (fs @ [fv]) = (if fst fv = n then Some (snd fv) else last_val n fs)"
  by (simp_all add: last_val_def)

lemma run_request_fields:
  "run_fields request_field fs (request_default, False, False)
     = (\<lparr>request_id = (case last_val 1 fs of Some v \<Rightarrow> fv_string v | None \<Rightarrow> []),
         authentication_type = (case last_val 2 fs of Some v \<Rightarrow> fv_bytes v | None \<Rightarrow> []),
         authentication_payload = (case last_val 3 fs of Some v \<Rightarrow> fv_bytes v | None \<Rightarrow> []),
         identity_commitment = (case last_val 4 fs of Some v \<Rightarrow> fv_bytes v | None \<Rightarrow> []),
         rate_limit = map_option fv_u64 (last_val 5 fs)\<rparr>,
        last_val 1 fs \<noteq> None, last_val 4 fs \<noteq> None)"
proof (induction fs rule: rev_induct)
  case Nil
  then show ?case by (simp add: request_default_def)
next
  case (snoc fv fs)
  then show ?case by (auto simp: request_field_def)
qed

theorem request_decode_spec:
  "request_decode buf = (case wire_fields buf of Inl e \<Rightarrow> Inl e | Inr fs \<Rightarrow> request_spec fs)"
  by (simp add: request_decode_def walk_fields_eq run_request_fields request_spec_def
      split: sum.split option.split)

end
