(* ===== verification/Crates.thy ===== *)
theory Crates
  imports Rust_Std
begin

text \<open>
  The third-party crates the sources call, as parameters. \<open>json\<close> is the document tree of the
  \<open>serde_json\<close> crate (its public \<open>Value\<close> enum) with the accessors the sources use on it; the text
  parser and printer of \<open>serde_json\<close>, the \<open>hex\<close> and \<open>base64\<close> codecs, the text of deserialisation
  errors and the Unicode case tables of the standard library are fields of the record \<open>crates\<close>,
  which the definitions of the components take as an argument. What a theorem needs of them is a
  named hypothesis (\<open>hex_laws\<close>, \<open>b64_laws\<close>).
\<close>

section \<open>JSON documents\<close>

datatype jnum = PosInt u64 | NegInt u64 | Float u64

datatype json =
    JNull
  | JBool bool
  | JNum jnum
  | JStr string
  | JArr "json list"
  | JObj "(string \<times> json) list"

fun jget :: "json \<Rightarrow> string \<Rightarrow> json option" where
  "jget (JObj kvs) k = map_of kvs k"
| "jget _ k = None"

fun as_str :: "json \<Rightarrow> string option" where
  "as_str (JStr s) = Some s"
| "as_str _ = None"

fun as_bool :: "json \<Rightarrow> bool option" where
  "as_bool (JBool b) = Some b"
| "as_bool _ = None"

fun as_u64 :: "json \<Rightarrow> u64 option" where
  "as_u64 (JNum (PosInt n)) = Some n"
| "as_u64 _ = None"

fun as_array :: "json \<Rightarrow> json list option" where
  "as_array (JArr xs) = Some xs"
| "as_array _ = None"

fun is_object :: "json \<Rightarrow> bool" where
  "is_object (JObj _) = True"
| "is_object _ = False"

text \<open>\<open>v.get(k).and_then(Value::as_str)\<close> and its relatives.\<close>

definition get_str :: "json \<Rightarrow> string \<Rightarrow> string option" where
  "get_str v k = Option.bind (jget v k) as_str"

definition get_u64 :: "json \<Rightarrow> string \<Rightarrow> u64 option" where
  "get_u64 v k = Option.bind (jget v k) as_u64"

definition get_bool :: "json \<Rightarrow> string \<Rightarrow> bool option" where
  "get_bool v k = Option.bind (jget v k) as_bool"

lemma get_obj [simp]:
  "get_str (JObj kvs) k = Option.bind (map_of kvs k) as_str"
  "get_u64 (JObj kvs) k = Option.bind (map_of kvs k) as_u64"
  "get_bool (JObj kvs) k = Option.bind (map_of kvs k) as_bool"
  by (simp_all add: get_str_def get_u64_def get_bool_def)

text \<open>
  A parsed text is a tree whose objects list their entries as written. A \<open>Value\<close> keeps an object
  as a sorted map (\<open>BTreeMap\<close>; the crate is built without \<open>preserve_order\<close>), so parsing into a
  \<open>Value\<close> sorts the entries, the last of several equal keys winning.
\<close>

fun obj_insert :: "string \<Rightarrow> json \<Rightarrow> (string \<times> json) list \<Rightarrow> (string \<times> json) list" where
  "obj_insert k v [] = [(k, v)]"
| "obj_insert k v ((k', v') # kvs) =
     (if k = k' then (k, v) # kvs
      else if k < k' then (k, v) # (k', v') # kvs
      else (k', v') # obj_insert k v kvs)"

primrec json_value :: "json \<Rightarrow> json"
  and json_values :: "json list \<Rightarrow> json list"
  and json_entries :: "(string \<times> json) list \<Rightarrow> (string \<times> json) list"
  and json_entry :: "string \<times> json \<Rightarrow> string \<times> json"
  where
  "json_value JNull = JNull"
| "json_value (JBool b) = JBool b"
| "json_value (JNum n) = JNum n"
| "json_value (JStr s) = JStr s"
| "json_value (JArr xs) = JArr (json_values xs)"
| "json_value (JObj kvs) = JObj (fold (\<lambda>kv. obj_insert (fst kv) (snd kv)) (json_entries kvs) [])"
| "json_values [] = []"
| "json_values (x # xs) = json_value x # json_values xs"
| "json_entries [] = []"
| "json_entries (kv # kvs) = json_entry kv # json_entries kvs"
| "json_entry (k, v) = (k, json_value v)"

lemma map_of_obj_insert: "map_of (obj_insert k v kvs) = (map_of kvs)(k \<mapsto> v)"
  by (induction kvs) (auto simp: fun_eq_iff)

lemma map_of_fold_insert:
  "map_of (fold (\<lambda>kv. obj_insert (fst kv) (snd kv)) kvs acc) = map_of acc ++ map_of (rev kvs)"
  by (induction kvs arbitrary: acc)
     (auto simp: map_of_obj_insert map_add_def fun_eq_iff split: option.splits)

lemma map_of_rev_distinct: "distinct (map fst kvs) \<Longrightarrow> map_of (rev kvs) = map_of kvs"
  by (subst map_of_inject_set) (simp_all add: rev_map [symmetric])

lemma json_entries_map: "json_entries kvs = map (\<lambda>(k, v). (k, json_value v)) kvs"
  by (induction kvs) auto

lemma jget_json_value:
  "distinct (map fst kvs) \<Longrightarrow>
     jget (json_value (JObj kvs)) k = map_option json_value (map_of kvs k)"
  by (simp add: map_of_fold_insert json_entries_map map_of_rev_distinct comp_def split_def
      map_of_map [unfolded split_def])

text \<open>Documents without floating-point numbers: the ones whose printed text denotes them exactly.\<close>

fun float_free :: "json \<Rightarrow> bool" where
  "float_free (JNum (Float _)) = False"
| "float_free (JArr xs) = list_all float_free xs"
| "float_free (JObj kvs) = list_all (\<lambda>kv. float_free (snd kv)) kvs"
| "float_free _ = True"

section \<open>The crates\<close>

text \<open>
  \<^item> \<open>js_parse\<close>: the text parser of \<open>serde_json\<close>, to a tree or to the text of its error;
  \<^item> \<open>js_print\<close>: the printer (\<open>Value::to_string\<close>);
  \<^item> \<open>js_ser\<close>: \<open>serde_json::to_string\<close> on a serialisable struct, given as its tree;
  \<^item> \<open>de_error\<close>: the text of the error of a derived deserialiser (struct name, offending tree);
  \<^item> \<open>hex_enc\<close>, \<open>hex_dec\<close>: \<open>hex::encode\<close>, \<open>hex::decode\<close>;
  \<^item> \<open>b64_enc\<close>, \<open>b64_dec\<close>: the \<open>STANDARD\<close> engine of \<open>base64\<close>;
  \<^item> \<open>ucd_lower\<close>: Unicode lowercasing of a string that is not ASCII.
\<close>

record crates =
  js_parse :: "string \<Rightarrow> string + json"
  js_print :: "json \<Rightarrow> string"
  js_ser :: "json \<Rightarrow> string + string"
  de_error :: "string \<Rightarrow> json \<Rightarrow> string"
  hex_enc :: "bytes \<Rightarrow> string"
  hex_dec :: "string \<Rightarrow> string + bytes"
  b64_enc :: "bytes \<Rightarrow> string"
  b64_dec :: "string \<Rightarrow> string + bytes"
  ucd_lower :: "string \<Rightarrow> string"

text \<open>\<open>serde_json::from_str::<Value>\<close>.\<close>

definition from_str :: "crates \<Rightarrow> string \<Rightarrow> string + json" where
  "from_str C s = map_sum id json_value (js_parse C s)"

definition lowercase :: "crates \<Rightarrow> string \<Rightarrow> string" where
  "lowercase C s = to_lowercase (ucd_lower C) s"

subsection \<open>Documented behaviour\<close>

definition hex_digit :: "char \<Rightarrow> bool" where
  "hex_digit c \<longleftrightarrow> c \<in> set ''0123456789abcdefABCDEF''"

definition lower_hex_digit :: "char \<Rightarrow> bool" where
  "lower_hex_digit c \<longleftrightarrow> c \<in> set ''0123456789abcdef''"

text \<open>
  \<open>hex::encode\<close> writes two lowercase digits per byte and \<open>hex::decode\<close> inverts it; a decodable
  string consists of hexadecimal digits, two per byte.
\<close>

definition hex_laws :: "crates \<Rightarrow> bool" where
  "hex_laws C \<longleftrightarrow>
     (\<forall>b. hex_dec C (hex_enc C b) = Inr b \<and> length (hex_enc C b) = 2 * length b
        \<and> list_all lower_hex_digit (hex_enc C b))
   \<and> (\<forall>s b. hex_dec C s = Inr b \<longrightarrow> list_all hex_digit s \<and> length s = 2 * length b)"

lemma hex_enc_read: "hex_laws C \<Longrightarrow> hex_dec C (trim_0x (hex_enc C b)) = Inr b"
proof -
  assume laws: "hex_laws C"
  have "trim_0x s = s" if "list_all lower_hex_digit s" for s
    using that by (cases s rule: trim_0x.cases) (auto simp: lower_hex_digit_def)
  with laws show ?thesis by (simp add: hex_laws_def)
qed

definition b64_laws :: "crates \<Rightarrow> bool" where
  "b64_laws C \<longleftrightarrow> (\<forall>b. b64_dec C (b64_enc C b) = Inr b)"

lemma hex_digit_ascii: "hex_digit c \<Longrightarrow> (of_char c :: nat) < 128"
  by (auto simp: hex_digit_def)

lemma lower_hex_is_hex: "lower_hex_digit c \<Longrightarrow> hex_digit c"
  by (auto simp: hex_digit_def lower_hex_digit_def)

lemma hex_string_ascii: "list_all hex_digit s \<Longrightarrow> ascii_str s"
  by (induction s) (auto simp: hex_digit_ascii)

section \<open>Derived deserialisers\<close>

text \<open>
  \<open>#[derive(Deserialize)]\<close> on a struct with named fields accepts an object (unknown keys skipped,
  a repeated known key an error) or an array of the fields in order. \<open>struct_fields\<close> gives each
  declared field its tree, \<open>None\<close> where it is absent; the result is \<open>None\<close> on a shape error.
\<close>

definition lookup_once :: "(string \<times> json) list \<Rightarrow> string \<Rightarrow> json option option" where
  "lookup_once kvs k =
     (case filter (\<lambda>kv. fst kv = k) kvs of [] \<Rightarrow> Some None | [kv] \<Rightarrow> Some (Some (snd kv)) | _ \<Rightarrow> None)"

fun all_some :: "'a option list \<Rightarrow> 'a list option" where
  "all_some [] = Some []"
| "all_some (None # xs) = None"
| "all_some (Some x # xs) = map_option ((#) x) (all_some xs)"

fun struct_fields :: "string list \<Rightarrow> json \<Rightarrow> json option list option" where
  "struct_fields names (JObj kvs) = all_some (map (lookup_once kvs) names)"
| "struct_fields names (JArr xs) =
     (if length xs \<le> length names
      then Some (map Some xs @ replicate (length names - length xs) None) else None)"
| "struct_fields names _ = None"

fun de_string :: "json option \<Rightarrow> string option" where
  "de_string (Some (JStr s)) = Some s"
| "de_string _ = None"

fun de_bool :: "json option \<Rightarrow> bool option" where
  "de_bool (Some (JBool b)) = Some b"
| "de_bool _ = None"

text \<open>Fields with \<open>#[serde(default)]\<close>.\<close>

fun de_u64_default :: "json option \<Rightarrow> u64 option" where
  "de_u64_default None = Some 0"
| "de_u64_default (Some (JNum (PosInt n))) = Some n"
| "de_u64_default _ = None"

fun de_opt_string :: "json option \<Rightarrow> string option option" where
  "de_opt_string None = Some None"
| "de_opt_string (Some JNull) = Some None"
| "de_opt_string (Some (JStr s)) = Some (Some s)"
| "de_opt_string _ = None"

definition de_opt_value :: "json option \<Rightarrow> json option option" where
  "de_opt_value v =
     (case v of None \<Rightarrow> Some None | Some JNull \<Rightarrow> Some None | Some x \<Rightarrow> Some (Some (json_value x)))"

lemma keys_obj_insert: "set (map fst (obj_insert k v kvs)) = insert k (set (map fst kvs))"
proof (induction kvs)
  case (Cons kv kvs)
  then show ?case by (cases kv) (simp add: insert_commute)
qed simp

lemma sorted_obj_insert:
  "sorted_wrt (<) (map fst kvs) \<Longrightarrow> sorted_wrt (<) (map fst (obj_insert k v kvs))"
proof (induction kvs)
  case (Cons kv kvs)
  obtain k' v' where kv: "kv = (k', v')" by (cases kv)
  have gt: "\<forall>x \<in> set (map fst (obj_insert k v kvs)). k' < x" if "k' < k"
    using Cons.prems that unfolding keys_obj_insert kv by simp
  show ?case
    using Cons.prems Cons.IH gt by (cases k k' rule: linorder_cases) (auto simp: kv)
qed simp

lemma sorted_fold_insert:
  "sorted_wrt (<) (map fst acc) \<Longrightarrow>
     sorted_wrt (<) (map fst (fold (\<lambda>kv. obj_insert (fst kv) (snd kv)) kvs acc))"
  by (induction kvs arbitrary: acc) (simp_all add: sorted_obj_insert)

lemma lookup_once_absent: "k \<notin> fst ` set kvs \<Longrightarrow> filter (\<lambda>kv. fst kv = k) kvs = []"
  by (auto simp: filter_empty_conv)

lemma lookup_once_distinct: "distinct (map fst kvs) \<Longrightarrow> lookup_once kvs k = Some (map_of kvs k)"
proof (induction kvs)
  case (Cons kv kvs)
  then show ?case
    by (cases "fst kv = k") (auto simp: lookup_once_def lookup_once_absent)
qed (simp add: lookup_once_def)

lemma lookup_once_value:
  assumes "distinct (map fst kvs)"
  shows "lookup_once (fold (\<lambda>kv. obj_insert (fst kv) (snd kv)) (json_entries kvs) []) k
     = Some (map_option json_value (map_of kvs k))"
proof -
  have "distinct (map fst (fold (\<lambda>kv. obj_insert (fst kv) (snd kv)) (json_entries kvs) []))"
    using sorted_fold_insert [of "[]" "json_entries kvs"] by (simp only: strict_sorted_iff) simp
  then show ?thesis
    using jget_json_value [OF assms, of k] by (simp add: lookup_once_distinct)
qed

lemma all_some_map [simp]: "all_some (map (\<lambda>x. Some (f x)) xs) = Some (map f xs)"
  by (induction xs) simp_all

text \<open>A struct reads the same from the text's tree and from the parsed \<open>Value\<close>, up to the
  normalisation of its fields.\<close>

lemma struct_fields_obj:
  "distinct (map fst kvs) \<Longrightarrow> struct_fields names (JObj kvs) = Some (map (map_of kvs) names)"
  by (induction names) (simp_all add: lookup_once_distinct)

lemma struct_fields_value:
  "distinct (map fst kvs) \<Longrightarrow>
     struct_fields names (json_value (JObj kvs))
       = Some (map (\<lambda>k. map_option json_value (map_of kvs k)) names)"
  by (induction names) (simp_all add: lookup_once_value)

declare struct_fields.simps(1) [simp del] json_value.simps(6) [simp del]

text \<open>The keys of every object inside a parsed \<open>Value\<close> are distinct.\<close>

lemma json_value_distinct: "json_value t = JObj kvs \<Longrightarrow> distinct (map fst kvs)"
proof (cases t)
  case (JObj m)
  moreover assume "json_value t = JObj kvs"
  ultimately have "kvs = fold (\<lambda>kv. obj_insert (fst kv) (snd kv)) (json_entries m) []"
    by (simp add: json_value.simps(6))
  with sorted_fold_insert [of "[]" "json_entries m"] show ?thesis
    by (simp only: strict_sorted_iff) simp
qed simp_all

lemma from_str_distinct:
  assumes "from_str C text = Inr v" and "jget v k = Some (JObj kvs)"
  shows "distinct (map fst kvs)"
proof -
  obtain t where t: "v = json_value t" using assms(1) by (cases "js_parse C text") (auto simp: from_str_def)
  with assms(2) obtain m where m: "t = JObj m" by (cases t) auto
  from assms(2) have "map_of (rev (json_entries m)) k = Some (JObj kvs)"
    by (simp add: t m json_value.simps(6) map_of_fold_insert)
  then have "(k, JObj kvs) \<in> set (json_entries m)" by (auto dest: map_of_SomeD)
  then obtain u where "json_value u = JObj kvs" by (auto simp: json_entries_map)
  then show ?thesis by (rule json_value_distinct)
qed

end
