(* ===== verification/Auth_Vector.thy ===== *)
theory Auth_Vector
  imports Crates
begin

text \<open>
  The auth-vector contract kit, \<open>crates/rln-auth-vector/src/lib.rs\<close>: the request and reply
  structs with their derived serialisers, the \<open>AuthVector\<close> trait, routing, the two dispatch
  functions a vector module wires its methods through, and the reply parsers the gifter uses.
  A vector may act on a state \<open>'s\<close> (a card, the outside world).
\<close>

section \<open>Shapes\<close>

definition PRODUCE_METHOD :: string where "PRODUCE_METHOD = ''produce_auth''"
definition VERIFY_METHOD :: string where "VERIFY_METHOD = ''verify_auth''"
definition KEYCARD_ATTEST_AUTH_TYPE :: string where "KEYCARD_ATTEST_AUTH_TYPE = ''keycard-attestation''"
definition ETH_ALLOWLIST_AUTH_TYPE :: string where "ETH_ALLOWLIST_AUTH_TYPE = ''eth-allowlist''"

record produce_request =
  pr_auth_type :: string
  pr_id_commitment_hex :: string
  pr_args :: "json option"

record produce_reply =
  rp_payload_hex :: string

record verify_request =
  vr_auth_type :: string
  vr_payload_hex :: string
  vr_id_commitment_hex :: string
  vr_rate :: u64
  vr_config :: "json option"

record verdict =
  v_ok :: bool
  v_reason :: "string option"
  v_nullifier :: "string option"

definition verdict_accept :: "string option \<Rightarrow> verdict" where
  "verdict_accept nullifier = \<lparr>v_ok = True, v_reason = None, v_nullifier = nullifier\<rparr>"

definition verdict_reject :: "string \<Rightarrow> verdict" where
  "verdict_reject reason = \<lparr>v_ok = False, v_reason = Some reason, v_nullifier = None\<rparr>"

subsection \<open>Serialisation: fields in declaration order, an absent optional field omitted\<close>

definition opt_field :: "string \<Rightarrow> json option \<Rightarrow> (string \<times> json) list" where
  "opt_field k v = (case v of None \<Rightarrow> [] | Some x \<Rightarrow> [(k, x)])"

definition produce_request_tree :: "produce_request \<Rightarrow> json" where
  "produce_request_tree r = JObj
     ([(''auth_type'', JStr (pr_auth_type r)), (''id_commitment_hex'', JStr (pr_id_commitment_hex r))]
      @ opt_field ''args'' (pr_args r))"

definition produce_reply_tree :: "produce_reply \<Rightarrow> json" where
  "produce_reply_tree r = JObj [(''payload_hex'', JStr (rp_payload_hex r))]"

definition verify_request_tree :: "verify_request \<Rightarrow> json" where
  "verify_request_tree r = JObj
     ([(''auth_type'', JStr (vr_auth_type r)), (''payload_hex'', JStr (vr_payload_hex r)),
       (''id_commitment_hex'', JStr (vr_id_commitment_hex r)), (''rate'', JNum (PosInt (vr_rate r)))]
      @ opt_field ''config'' (vr_config r))"

definition verdict_tree :: "verdict \<Rightarrow> json" where
  "verdict_tree v = JObj
     ([(''ok'', JBool (v_ok v))] @ opt_field ''reason'' (map_option JStr (v_reason v))
      @ opt_field ''nullifier'' (map_option JStr (v_nullifier v)))"

subsection \<open>Deserialisation\<close>

definition produce_request_of :: "json \<Rightarrow> produce_request option" where
  "produce_request_of t =
     (case struct_fields [''auth_type'', ''id_commitment_hex'', ''args''] t of
        Some [a, i, g] \<Rightarrow>
          (case (de_string a, de_string i, de_opt_value g) of
             (Some a', Some i', Some g') \<Rightarrow>
               Some \<lparr>pr_auth_type = a', pr_id_commitment_hex = i', pr_args = g'\<rparr>
           | _ \<Rightarrow> None)
      | _ \<Rightarrow> None)"

definition produce_reply_of :: "json \<Rightarrow> produce_reply option" where
  "produce_reply_of t =
     (case struct_fields [''payload_hex''] t of
        Some [p] \<Rightarrow> map_option (\<lambda>s. \<lparr>rp_payload_hex = s\<rparr>) (de_string p)
      | _ \<Rightarrow> None)"

definition verify_request_of :: "json \<Rightarrow> verify_request option" where
  "verify_request_of t =
     (case struct_fields [''auth_type'', ''payload_hex'', ''id_commitment_hex'', ''rate'', ''config''] t of
        Some [a, p, i, r, c] \<Rightarrow>
          (case (de_string a, de_string p, de_string i, de_u64_default r, de_opt_value c) of
             (Some a', Some p', Some i', Some r', Some c') \<Rightarrow>
               Some \<lparr>vr_auth_type = a', vr_payload_hex = p', vr_id_commitment_hex = i',
                     vr_rate = r', vr_config = c'\<rparr>
           | _ \<Rightarrow> None)
      | _ \<Rightarrow> None)"

definition verdict_of :: "json \<Rightarrow> verdict option" where
  "verdict_of t =
     (case struct_fields [''ok'', ''reason'', ''nullifier''] t of
        Some [k, r, n] \<Rightarrow>
          (case (de_bool k, de_opt_string r, de_opt_string n) of
             (Some k', Some r', Some n') \<Rightarrow> Some \<lparr>v_ok = k', v_reason = r', v_nullifier = n'\<rparr>
           | _ \<Rightarrow> None)
      | _ \<Rightarrow> None)"

section \<open>The trait\<close>

record 's auth_vector =
  av_auth_type :: string
  av_produce :: "produce_request \<Rightarrow> ('s, string, produce_reply) action"
  av_verify :: "verify_request \<Rightarrow> ('s, string, verdict) action"

text \<open>The default methods.\<close>

definition default_produce :: "string \<Rightarrow> produce_request \<Rightarrow> ('s, string, produce_reply) action" where
  "default_produce auth_type req =
     act_lift (Err (''auth vector '' @ quoted auth_type @ '' has no producer on this module''))"

definition default_verify :: "string \<Rightarrow> verify_request \<Rightarrow> ('s, string, verdict) action" where
  "default_verify auth_type req =
     act_lift (Err (''auth vector '' @ quoted auth_type @ '' has no verifier on this module''))"

section \<open>Dispatch\<close>

definition error_reply :: "crates \<Rightarrow> string \<Rightarrow> string" where
  "error_reply C msg = js_print C (JObj [(''error'', JStr msg)])"

definition route :: "'s auth_vector list \<Rightarrow> string \<Rightarrow> string + 's auth_vector" where
  "route vectors auth_type =
     some_or (find (\<lambda>v. av_auth_type v = auth_type) vectors)
       (''unknown auth_type '' @ quoted auth_type @ '' on this module'')"

definition dispatch_produce ::
  "crates \<Rightarrow> string \<Rightarrow> 's auth_vector list \<Rightarrow> ('s, unit, string) action" where
  "dispatch_produce C args_json vectors s =
     (case act_then
        (act_lift
          (case js_parse C args_json of
             Inl e \<Rightarrow> Err (''produce_auth args: '' @ e)
           | Inr t \<Rightarrow>
               (case produce_request_of t of
                  None \<Rightarrow> Err (''produce_auth args: '' @ de_error C ''ProduceRequest'' t)
                | Some req \<Rightarrow>
                    and_then (of_sum (route vectors (pr_auth_type req))) (\<lambda>v. Ok (v, req)))))
        (\<lambda>(v, req). av_produce v req) s of
        (Ok reply, s') \<Rightarrow>
          (Ok (case js_ser C (produce_reply_tree reply) of
                 Inr t \<Rightarrow> t | Inl e \<Rightarrow> error_reply C e), s')
      | (Err e, s') \<Rightarrow> (Ok (error_reply C e), s')
      | (Panic, s') \<Rightarrow> (Panic, s')
      | (Diverge, s') \<Rightarrow> (Diverge, s'))"

definition dispatch_verify ::
  "crates \<Rightarrow> string \<Rightarrow> 's auth_vector list \<Rightarrow> ('s, unit, string) action" where
  "dispatch_verify C args_json vectors s =
     (case act_then
        (act_lift
          (case js_parse C args_json of
             Inl e \<Rightarrow> Err (''verify_auth args: '' @ e)
           | Inr t \<Rightarrow>
               (case verify_request_of t of
                  None \<Rightarrow> Err (''verify_auth args: '' @ de_error C ''VerifyRequest'' t)
                | Some req \<Rightarrow>
                    and_then (of_sum (route vectors (vr_auth_type req))) (\<lambda>v. Ok (v, req)))))
        (\<lambda>(v, req). av_verify v req) s of
        (Ok verdict, s') \<Rightarrow>
          (Ok (case js_ser C (verdict_tree verdict) of
                 Inr t \<Rightarrow> t | Inl e \<Rightarrow> error_reply C e), s')
      | (Err e, s') \<Rightarrow> (Ok (error_reply C e), s')
      | (Panic, s') \<Rightarrow> (Panic, s')
      | (Diverge, s') \<Rightarrow> (Diverge, s'))"

section \<open>The caller's side\<close>

definition parse_produce_reply :: "crates \<Rightarrow> json \<Rightarrow> string + produce_reply" where
  "parse_produce_reply C reply =
     (case get_str reply ''error'' of
        Some e \<Rightarrow> Inl e
      | None \<Rightarrow>
          (case produce_reply_of reply of
             Some r \<Rightarrow> Inr r
           | None \<Rightarrow> Inl (''produce_auth reply: '' @ de_error C ''ProduceReply'' reply)))"

definition parse_verdict :: "crates \<Rightarrow> json \<Rightarrow> string + verdict" where
  "parse_verdict C reply =
     (case get_str reply ''error'' of
        Some e \<Rightarrow> Inl e
      | None \<Rightarrow>
          (case verdict_of reply of
             Some v \<Rightarrow> Inr v
           | None \<Rightarrow> Inl (''verify_auth reply: '' @ de_error C ''Verdict'' reply)))"

section \<open>The shapes round-trip\<close>

text \<open>
  What a deserialiser makes of an optional \<open>Value\<close> field: an explicit null reads back as absent.
\<close>

definition read_opt :: "json option \<Rightarrow> json option" where
  "read_opt v = (case v of None \<Rightarrow> None | Some JNull \<Rightarrow> None | Some x \<Rightarrow> Some (json_value x))"

lemma de_opt_value_eq [simp]: "de_opt_value v = Some (read_opt v)"
  by (simp add: de_opt_value_def read_opt_def split: option.split json.split)

lemmas struct_shapes = struct_fields_obj struct_fields_value opt_field_def

lemma produce_reply_roundtrip [simp]:
  "produce_reply_of (json_value (produce_reply_tree r)) = Some r"
  by (simp add: produce_reply_of_def produce_reply_tree_def struct_shapes)

lemma verdict_roundtrip [simp]:
  "verdict_of (json_value (verdict_tree v)) = Some v"
  by (cases "v_reason v"; cases "v_nullifier v")
     (simp_all add: verdict_of_def verdict_tree_def struct_shapes)

lemma produce_request_roundtrip [simp]:
  "produce_request_of (produce_request_tree r) = Some (r\<lparr>pr_args := read_opt (pr_args r)\<rparr>)"
  by (cases "pr_args r") (simp_all add: produce_request_of_def produce_request_tree_def struct_shapes)

lemma verify_request_roundtrip [simp]:
  "verify_request_of (verify_request_tree r) = Some (r\<lparr>vr_config := read_opt (vr_config r)\<rparr>)"
  by (cases "vr_config r") (simp_all add: verify_request_of_def verify_request_tree_def struct_shapes)

lemma no_error_envelope [simp]:
  "get_str (json_value (verdict_tree v)) ''error'' = None"
  "get_str (json_value (produce_reply_tree r)) ''error'' = None"
  by (cases "v_reason v"; cases "v_nullifier v")
     (simp_all add: get_str_def verdict_tree_def produce_reply_tree_def opt_field_def jget_json_value)

lemma error_envelope [simp]:
  "get_str (json_value (JObj [(''error'', JStr e)])) ''error'' = Some e"
  by (simp add: get_str_def jget_json_value)

lemma parse_verdict_tree: "parse_verdict C (json_value (verdict_tree v)) = Inr v"
  by (simp add: parse_verdict_def)

section \<open>The verifier contract\<close>

text \<open>
  What the gifter relies on in a vector's verifier: a refusal carries a reason and no nullifier, an
  acceptance names the spent credential, so that the shared replay protection applies to it, and an
  error is the operator's: it is decided by the configuration alone, whatever a requester sends.
  The reference vectors meet it (see the theories of their modules).
\<close>

locale verifier =
  fixes verify :: "verify_request \<Rightarrow> (string, verdict) outcome"
  assumes verdict_shape:
    "verify r = Ok v \<Longrightarrow>
       (\<exists>n. v = verdict_accept (Some n)) \<or> (\<exists>why. v = verdict_reject why)"
    and error_from_config: "verify r = Err e \<Longrightarrow> vr_config r' = vr_config r \<Longrightarrow> verify r' = Err e"
begin

lemma judged_or_misconfigured: "verify r = Ok v \<Longrightarrow> vr_config r' = vr_config r \<Longrightarrow> verify r' \<noteq> Err e"
  using error_from_config [of r' e r] by auto

lemma accepted_has_nullifier: "verify r = Ok v \<Longrightarrow> v_ok v \<Longrightarrow> \<exists>n. v_nullifier v = Some n"
  using verdict_shape [of r v] by (auto simp: verdict_accept_def verdict_reject_def)

lemma refused_has_reason:
  "verify r = Ok v \<Longrightarrow> \<not> v_ok v \<Longrightarrow> \<exists>why. v_reason v = Some why \<and> v_nullifier v = None"
  using verdict_shape [of r v] by (auto simp: verdict_accept_def verdict_reject_def)

end

lemma verdict_is_object: "is_object (json_value (verdict_tree v))"
  by (simp add: verdict_tree_def json_value.simps(6))

section \<open>Properties\<close>

lemma dispatch_verify_answers:
  assumes "js_parse C text = Inr (verify_request_tree r)"
    and "find (\<lambda>v. av_auth_type v = vr_auth_type r) vectors = Some v"
    and "av_verify v (r\<lparr>vr_config := read_opt (vr_config r)\<rparr>) s = (Ok vd, s')"
    and "js_ser C (verdict_tree vd) = Inr out" and "js_parse C out = Inr (verdict_tree vd)"
  shows "dispatch_verify C text vectors s = (Ok out, s')
    \<and> map_sum id (parse_verdict C) (from_str C out) = Inr (Inr vd)"
  using assms by (simp add: dispatch_verify_def route_def parse_verdict_tree from_str_def
      act_then_def act_lift_def)

text \<open>
  C21. The verify call is faithful end to end: when a module parses the text the gifter serialised
  for a \<open>VerifyRequest\<close>, it routes to the first vector that owns the request's type and calls its
  \<open>verify\<close> with the same request (an explicit null config read as absent); and when the gifter
  parses the text the module answers, it gets exactly the verdict of that vector.
\<close>

theorem verify_call_faithful:
  assumes "js_parse C text = Inr (verify_request_tree r)"
    and "find (\<lambda>v. av_auth_type v = vr_auth_type r) vectors = Some v"
    and "av_verify v (r\<lparr>vr_config := read_opt (vr_config r)\<rparr>) s = (Ok vd, s')"
    and "js_ser C (verdict_tree vd) = Inr out" and "js_parse C out = Inr (verdict_tree vd)"
  shows "dispatch_verify C text vectors s = (Ok out, s')
    \<and> map_sum id (parse_verdict C) (from_str C out) = Inr (Inr vd)"
  by (rule dispatch_verify_answers [OF assms])

definition demo_request :: verify_request where
  "demo_request = \<lparr>vr_auth_type = ''t'', vr_payload_hex = ''aa'', vr_id_commitment_hex = ''bb'',
     vr_rate = 7, vr_config = None\<rparr>"

text \<open>A small stand-in for the JSON text codec, for the witnesses.\<close>

definition demo_parse :: "string \<Rightarrow> string + json" where
  "demo_parse s =
     (case s of
        [] \<Rightarrow> Inl ''empty''
      | c # e \<Rightarrow>
          if c = CHR ''E'' then Inr (JObj [(''error'', JStr e)])
          else if s = ''Q'' then Inr (verify_request_tree demo_request)
          else if s = ''V'' then Inr (verdict_tree (verdict_accept (Some ''n'')))
          else Inl ''syntax'')"

definition demo_print :: "json \<Rightarrow> string" where
  "demo_print t = (case t of JObj [(_, JStr e)] \<Rightarrow> CHR ''E'' # e | _ \<Rightarrow> ''?'')"

definition demo_ser :: "json \<Rightarrow> string + string" where
  "demo_ser t = (if t = verdict_tree (verdict_accept (Some ''n'')) then Inr ''V'' else Inl ''unsupported'')"

definition demo_crates :: crates where
  "demo_crates =
     \<lparr>js_parse = demo_parse, js_print = demo_print, js_ser = demo_ser, de_error = (\<lambda>_ _. ''bad''),
      hex_enc = (\<lambda>_. []), hex_dec = (\<lambda>_. Inl ''hex''), b64_enc = (\<lambda>_. []), b64_dec = (\<lambda>_. Inl ''b64''),
      ucd_lower = id\<rparr>"

definition demo_vector :: "unit auth_vector" where
  "demo_vector =
     \<lparr>av_auth_type = ''t'', av_produce = default_produce ''t'',
      av_verify = (\<lambda>r. act_lift (Ok (verdict_accept (Some ''n''))))\<rparr>"

lemmas demo_defs = demo_crates_def demo_parse_def demo_print_def demo_ser_def demo_vector_def
  demo_request_def

theorem verify_call_faithful_witness:
  "dispatch_verify demo_crates ''Q'' [demo_vector] () = (Ok ''V'', ())
   \<and> map_sum id (parse_verdict demo_crates) (from_str demo_crates ''V'')
       = Inr (Inr (verdict_accept (Some ''n'')))"
  by (rule verify_call_faithful [where r = demo_request and v = demo_vector])
     (simp_all add: demo_defs act_lift_def)

lemma dispatch_verify_verdict:
  assumes ser: "\<And>v u. js_ser C (verdict_tree v) = Inr u \<Longrightarrow> js_parse C u = Inr (verdict_tree v)"
    and env: "\<And>e. js_parse C (error_reply C e) = Inr (JObj [(''error'', JStr e)])"
    and run: "dispatch_verify C text vectors s = (Ok out, s')"
    and parsed: "map_sum id (parse_verdict C) (from_str C out) = Inr (Inr vd)"
  shows "\<exists>t r v. js_parse C text = Inr t \<and> verify_request_of t = Some r
    \<and> v \<in> set vectors \<and> av_auth_type v = vr_auth_type r \<and> av_verify v r s = (Ok vd, s')"
proof -
  have no_err: "out \<noteq> error_reply C e" for e
    using parsed by (auto simp: from_str_def env parse_verdict_def)
  show ?thesis
  proof (cases "js_parse C text")
    case (Inl e)
    with run no_err show ?thesis by (auto simp: dispatch_verify_def act_then_def act_lift_def)
  next
    case (Inr t)
    with run no_err obtain r v where r: "verify_request_of t = Some r"
      and v: "find (\<lambda>v. av_auth_type v = vr_auth_type r) vectors = Some v"
      by (auto simp: dispatch_verify_def act_then_def act_lift_def route_def some_or_def
          split: option.splits)
    obtain res s2 where av: "av_verify v r s = (res, s2)" by fastforce
    from run Inr r v av no_err obtain vd' where res: "res = Ok vd'"
      and o: "js_ser C (verdict_tree vd') = Inr out" "s2 = s'"
      by (auto simp: dispatch_verify_def act_then_def act_lift_def route_def
          split: outcome.splits sum.splits)
    from ser [OF o(1)] parsed have "vd' = vd" by (simp add: from_str_def parse_verdict_tree)
    moreover have "v \<in> set vectors" "av_auth_type v = vr_auth_type r"
      using v by (auto simp: find_Some_iff)
    ultimately show ?thesis using Inr r av res o(2) by blast
  qed
qed

text \<open>
  C22. A verdict is never made up: if the answer of \<open>dispatch_verify\<close> reads as a verdict, then the
  arguments parsed as a \<open>VerifyRequest\<close>, a vector of the module owns its type, and that vector's
  \<open>verify\<close> returned this verdict. Malformed arguments, an unknown type and a failing vector read as
  errors. (The two hypotheses say that printed JSON text parses back.)
\<close>

theorem verify_call_sound:
  assumes ser: "\<And>v u. js_ser C (verdict_tree v) = Inr u \<Longrightarrow> js_parse C u = Inr (verdict_tree v)"
    and env: "\<And>e. js_parse C (error_reply C e) = Inr (JObj [(''error'', JStr e)])"
    and run: "dispatch_verify C text vectors s = (Ok out, s')"
    and parsed: "map_sum id (parse_verdict C) (from_str C out) = Inr (Inr vd)"
  shows "\<exists>t r v. js_parse C text = Inr t \<and> verify_request_of t = Some r
    \<and> v \<in> set vectors \<and> av_auth_type v = vr_auth_type r \<and> av_verify v r s = (Ok vd, s')"
  by (rule dispatch_verify_verdict [OF assms])

theorem verify_call_sound_witness:
  "\<exists>t r v. js_parse demo_crates ''Q'' = Inr t \<and> verify_request_of t = Some r
    \<and> v \<in> set [demo_vector] \<and> av_auth_type v = vr_auth_type r
    \<and> av_verify v r () = (Ok (verdict_accept (Some ''n'')), ())"
proof (rule verify_call_sound [where out = "''V''"])
  show "js_parse demo_crates u = Inr (verdict_tree v)" if "js_ser demo_crates (verdict_tree v) = Inr u" for v u
    using that by (simp add: demo_defs split: if_splits)
  show "js_parse demo_crates (error_reply demo_crates e) = Inr (JObj [(''error'', JStr e)])" for e
    by (simp add: demo_defs error_reply_def)
  show "dispatch_verify demo_crates ''Q'' [demo_vector] () = (Ok ''V'', ())"
    by (simp add: dispatch_verify_def route_def act_then_def act_lift_def demo_defs)
  show "map_sum id (parse_verdict demo_crates) (from_str demo_crates ''V'')
      = Inr (Inr (verdict_accept (Some ''n'')))"
    by (simp add: from_str_def demo_defs parse_verdict_tree)
qed

end
