(* ===== verification/Gifter_State.thy ===== *)
theory Gifter_State
  imports Crates
begin

text \<open>
  The state of the gifter module and what it reaches outside. The statics of \<open>server.rs\<close> and
  \<open>lp.rs\<close> and the files it writes are the record \<open>gstate\<close>; the host's C ABI (\<open>lp_client_create\<close>,
  \<open>lp_invoke\<close>, \<open>lp_invoke_async\<close>), the clock and the file system's willingness are functions of an
  abstract outside world \<open>'w\<close>, the record \<open>ffi\<close>. Diagnostic output (\<open>eprintln!\<close>) is not modelled.
\<close>

section \<open>The outside\<close>

text \<open>
  \<^item> \<open>lp_client_create\<close>: the raw pointer for a target module, 0 for null;
  \<^item> \<open>lp_invoke\<close>: the return code and the result and error strings (\<open>None\<close> is a null pointer);
  \<^item> \<open>lp_invoke_async\<close>: the return code of the dispatch, and the arguments of the callback if it
    fires before the caller's wait runs out;
  \<^item> \<open>instant_now\<close>: \<open>Instant::now()\<close> in nanoseconds; \<open>thread_sleep\<close>: \<open>thread::sleep\<close>;
  \<^item> \<open>fs_readable\<close>: whether opening and reading the file succeeds; \<open>fs_append\<close>: \<open>None\<close> when opening
    the file for appending fails, else how many bytes of the data reach it.
\<close>

record 'w ffi =
  lp_client_create :: "string \<Rightarrow> 'w \<Rightarrow> nat \<times> 'w"
  lp_invoke ::
    "nat \<Rightarrow> string \<Rightarrow> string \<Rightarrow> int \<Rightarrow> 'w \<Rightarrow> (int \<times> bytes option \<times> bytes option) \<times> 'w"
  lp_invoke_async ::
    "nat \<Rightarrow> string \<Rightarrow> string \<Rightarrow> int \<Rightarrow> 'w \<Rightarrow> (int \<times> (int \<times> bytes option) option) \<times> 'w"
  instant_now :: "'w \<Rightarrow> nat \<times> 'w"
  thread_sleep :: "nat \<Rightarrow> 'w \<Rightarrow> 'w"
  fs_readable :: "string \<Rightarrow> 'w \<Rightarrow> bool"
  fs_append :: "string \<Rightarrow> string \<Rightarrow> 'w \<Rightarrow> nat option"

section \<open>The module's state\<close>

record server_cfg =
  config :: string
  wallet :: string
  auth_verifiers :: "(string \<times> (string \<times> json option)) list"
  nullifiers_path :: string
  max_rate_limit :: u64

text \<open>
  \<open>clients\<close> and \<open>owner\<close> are the statics \<open>CLIENTS\<close> and \<open>OWNER\<close> of \<open>lp.rs\<close>; \<open>server\<close>,
  \<open>consumed_nullifiers\<close> and \<open>serving\<close> the statics of \<open>server.rs\<close>; \<open>workers\<close> counts the spawned
  serve workers. \<open>calls\<close> is a trace of the cross-module calls that were handed to the host (target,
  method, arguments, timeout), which no code reads.
\<close>

type_synonym module_call = "string \<times> string \<times> json \<times> int"

record 'w gstate =
  clients :: "(string \<rightharpoonup> nat) option"
  owner :: "nat option"
  server :: "server_cfg option"
  consumed_nullifiers :: "string set option"
  serving :: bool
  files :: "string \<rightharpoonup> bytes"
  workers :: nat
  calls :: "module_call list"
  outside :: 'w

text \<open>The parts that a cross-module call leaves alone.\<close>

definition core :: "'w gstate \<Rightarrow> nat option \<times> server_cfg option \<times> string set option \<times> bool
    \<times> (string \<rightharpoonup> bytes) \<times> nat" where
  "core s = (owner s, server s, consumed_nullifiers s, serving s, files s, workers s)"

lemma core_update [simp]:
  "core (s\<lparr>clients := c\<rparr>) = core s" "core (s\<lparr>calls := l\<rparr>) = core s" "core (s\<lparr>outside := w\<rparr>) = core s"
  by (simp_all add: core_def)

lemma coreD:
  assumes "core s = core t"
  shows "owner s = owner t" "server s = server t" "consumed_nullifiers s = consumed_nullifiers t"
    "serving s = serving t" "files s = files t" "workers s = workers t"
  using assms by (simp_all add: core_def)

text \<open>The set behind \<open>CONSUMED_NULLIFIERS\<close>, empty before the first use.\<close>

definition consumed :: "'w gstate \<Rightarrow> string set" where
  "consumed s = (case consumed_nullifiers s of None \<Rightarrow> {} | Some S \<Rightarrow> S)"

lemma consumed_update [simp]:
  "consumed (s\<lparr>consumed_nullifiers := Some S\<rparr>) = S" "consumed (s\<lparr>clients := c\<rparr>) = consumed s"
  "consumed (s\<lparr>calls := l\<rparr>) = consumed s" "consumed (s\<lparr>outside := w\<rparr>) = consumed s"
  "consumed (s\<lparr>files := f\<rparr>) = consumed s" "consumed (s\<lparr>server := c'\<rparr>) = consumed s"
  "consumed (s\<lparr>serving := b\<rparr>) = consumed s" "consumed (s\<lparr>workers := n\<rparr>) = consumed s"
  by (simp_all add: consumed_def)

text \<open>The statics as the process starts.\<close>

definition boot :: "(string \<rightharpoonup> bytes) \<Rightarrow> 'w \<Rightarrow> 'w gstate" where
  "boot fs w =
     \<lparr>clients = None, owner = None, server = None, consumed_nullifiers = None, serving = False,
      files = fs, workers = 0, calls = [], outside = w\<rparr>"

lemma boot_fields [simp]:
  "clients (boot fs w) = None" "owner (boot fs w) = None" "server (boot fs w) = None"
  "consumed (boot fs w) = {}" "serving (boot fs w) = False" "files (boot fs w) = fs"
  "workers (boot fs w) = 0" "calls (boot fs w) = []" "outside (boot fs w) = w"
  by (simp_all add: boot_def consumed_def)

end
