(* ===== verification/Lp.thy ===== *)
theory Lp
  imports Gifter_State
begin

text \<open>
  The cross-module client of \<open>rust/rln-gifter-module/rust-lib/src/lp.rs\<close>: the client table with
  its owner thread, one cross-module call, and the two reply conventions (\<open>call_libp2p\<close>,
  \<open>call_module_json\<close>). \<open>tid\<close> is the id of the calling thread.
\<close>

definition RLN_MODULE :: string where "RLN_MODULE = ''liblogos_lez_rln_module''"
definition LIBP2P_MODULE :: string where "LIBP2P_MODULE = ''libp2p_module''"

definition b64 :: "crates \<Rightarrow> bytes \<Rightarrow> string" where
  "b64 C bytes = b64_enc C bytes"

definition b64_decode :: "crates \<Rightarrow> string \<Rightarrow> string + bytes" where
  "b64_decode C s = (case b64_dec C s of Inr b \<Rightarrow> Inr b | Inl e \<Rightarrow> Inl (''base64 decode: '' @ e))"

section \<open>Clients\<close>

text \<open>\<open>CString::new\<close> succeeds on a string without a NUL byte.\<close>

definition cstring_ok :: "string \<Rightarrow> bool" where
  "cstring_ok s \<longleftrightarrow> CHR 0x00 \<notin> set s"

definition client_table :: "'w gstate \<Rightarrow> (string \<rightharpoonup> nat)" where
  "client_table s = (case clients s of None \<Rightarrow> Map.empty | Some m \<Rightarrow> m)"

definition create_client :: "'w ffi \<Rightarrow> string \<Rightarrow> 'w gstate \<Rightarrow> bool \<times> 'w gstate" where
  "create_client F target s =
     (if \<not> cstring_ok target then (False, s)
      else case lp_client_create F target (outside s) of (raw, w) \<Rightarrow>
        let s1 = s\<lparr>outside := w\<rparr> in
        if raw = 0 then (False, s1)
        else (True, s1\<lparr>clients := Some ((client_table s1)(target \<mapsto> raw))\<rparr>))"

definition lp_init :: "'w ffi \<Rightarrow> nat \<Rightarrow> string list \<Rightarrow> 'w gstate \<Rightarrow> 'w gstate" where
  "lp_init F tid targets s =
     fold (\<lambda>t s. snd (create_client F t s)) targets (s\<lparr>owner := Some tid\<rparr>)"

definition on_owner_thread :: "nat \<Rightarrow> 'w gstate \<Rightarrow> bool" where
  "on_owner_thread tid s = (case owner s of Some t \<Rightarrow> t = tid | None \<Rightarrow> False)"

definition ensure_client ::
  "'w ffi \<Rightarrow> nat \<Rightarrow> string \<Rightarrow> ('w gstate, unit) call" where
  "ensure_client F tid target s =
     (let have_it = (case clients s of Some m \<Rightarrow> m target \<noteq> None | None \<Rightarrow> False) in
      if have_it then (Inr (), s)
      else if \<not> on_owner_thread tid s then
        (Inl (''cannot open lp client for '' @ target @ '' off the owner thread''), s)
      else case create_client F target s of
        (True, s') \<Rightarrow> (Inr (), s')
      | (False, s') \<Rightarrow>
          (Inl (''lp_client_create failed for '' @ target @ '' (is the module loaded?)''), s'))"

definition client_ptr :: "'w ffi \<Rightarrow> nat \<Rightarrow> string \<Rightarrow> 'w gstate \<Rightarrow> nat option \<times> 'w gstate" where
  "client_ptr F tid target s =
     (let have_it = (case clients s of Some m \<Rightarrow> m target \<noteq> None | None \<Rightarrow> False);
          s1 = (if \<not> have_it \<and> on_owner_thread tid s then snd (create_client F target s) else s)
      in (Option.bind (clients s1) (\<lambda>m. m target), s1))"

section \<open>One call\<close>

definition c_str :: "bytes option \<Rightarrow> string" where
  "c_str p = (case p of None \<Rightarrow> '''' | Some b \<Rightarrow> from_utf8_lossy b)"

definition reply_trampoline :: "int \<Rightarrow> bytes option \<Rightarrow> bool \<times> string" where
  "reply_trampoline ok p = (ok \<noteq> 0, c_str p)"

definition err_message :: "crates \<Rightarrow> string \<Rightarrow> string" where
  "err_message C raw =
     (case from_str C raw of
        Inl _ \<Rightarrow> raw
      | Inr v \<Rightarrow> (case get_str v ''message'' of Some m \<Rightarrow> m | None \<Rightarrow> raw))"

definition parse_ok :: "crates \<Rightarrow> string \<Rightarrow> json" where
  "parse_ok C raw =
     (if raw = [] then JNull
      else case from_str C raw of Inr v \<Rightarrow> v | Inl _ \<Rightarrow> JStr raw)"

text \<open>\<open>{rc}\<close> on a C \<open>int\<close>.\<close>

definition dec_int :: "int \<Rightarrow> string" where
  "dec_int k = (if k < 0 then CHR ''-'' # dec (nat (- k)) else dec (nat k))"

definition call_json ::
  "'w ffi \<Rightarrow> crates \<Rightarrow> nat \<Rightarrow> string \<Rightarrow> string \<Rightarrow> json \<Rightarrow> int \<Rightarrow> ('w gstate, json) call" where
  "call_json F C tid target method args timeout_ms s =
     (case client_ptr F tid target s of
        (None, s1) \<Rightarrow> (Inl (''no lp client for '' @ target), s1)
      | (Some client, s1) \<Rightarrow>
          let args_text = js_print C args in
          if \<not> (cstring_ok method \<and> cstring_ok args_text) then
            (Inl (method @ '': args not CString-safe''), s1)
          else
            let s2 = s1\<lparr>calls := calls s1 @ [(target, method, args, timeout_ms)]\<rparr> in
            if on_owner_thread tid s2 then
              (case lp_invoke F client method args_text timeout_ms (outside s2) of
                 ((rc, result_json, error_json), w) \<Rightarrow>
                   let s3 = s2\<lparr>outside := w\<rparr> in
                   if rc \<noteq> 0 then
                     (Inl (case error_json of
                             None \<Rightarrow> method @ '': lp error '' @ dec_int rc
                           | Some _ \<Rightarrow> c_str error_json), s3)
                   else (Inr (parse_ok C (c_str result_json)), s3))
            else
              (case lp_invoke_async F client method args_text timeout_ms (outside s2) of
                 ((rc, reply), w) \<Rightarrow>
                   let s3 = s2\<lparr>outside := w\<rparr> in
                   if rc \<noteq> 0 then
                     (Inl (method @ '': lp_invoke_async dispatch failed rc='' @ dec_int rc), s3)
                   else (case reply of
                       None \<Rightarrow> (Inl (method @ '': reply channel timed out''), s3)
                     | Some (ok, p) \<Rightarrow>
                         (case reply_trampoline ok p of (ok', raw) \<Rightarrow>
                            if \<not> ok' then (Inl (method @ '': '' @ err_message C raw), s3)
                            else (Inr (parse_ok C raw), s3)))))"

section \<open>Reply conventions\<close>

definition unwrap_libp2p :: "crates \<Rightarrow> string \<Rightarrow> json \<Rightarrow> string + json" where
  "unwrap_libp2p C method v =
     try_then
       (case v of
          JStr s \<Rightarrow>
            if s \<noteq> [] then
              (case from_str C s of Inr e \<Rightarrow> Inr e | Inl e \<Rightarrow> Inl (method @ '': reply parse: '' @ e))
            else Inr (JStr s)
        | other \<Rightarrow> Inr other)
       (\<lambda>env.
          if is_object env \<and> jget env ''success'' \<noteq> None then
            (if (case get_bool env ''success'' of Some b \<Rightarrow> b | None \<Rightarrow> True)
             then Inr (case jget env ''value'' of Some x \<Rightarrow> x | None \<Rightarrow> JNull)
             else Inl (method @ '': '' @
                    (case get_str env ''error'' of
                       Some e \<Rightarrow> if e \<noteq> [] then e else ''libp2p call failed''
                     | None \<Rightarrow> ''libp2p call failed'')))
          else Inr env)"

definition call_libp2p ::
  "'w ffi \<Rightarrow> crates \<Rightarrow> nat \<Rightarrow> string \<Rightarrow> json \<Rightarrow> int \<Rightarrow> ('w gstate, json) call" where
  "call_libp2p F C tid method args timeout_ms =
     call_then (call_json F C tid LIBP2P_MODULE method args timeout_ms)
       (\<lambda>v. call_lift (unwrap_libp2p C method v))"

definition unwrap_module :: "crates \<Rightarrow> string \<Rightarrow> json \<Rightarrow> string + json" where
  "unwrap_module C method v =
     (case v of
        JStr s \<Rightarrow>
          if s \<noteq> [] then
            (case from_str C s of Inr e \<Rightarrow> Inr e | Inl e \<Rightarrow> Inl (method @ '': reply parse: '' @ e))
          else Inl (method @ '': empty reply'')
      | other \<Rightarrow> Inr other)"

definition call_module_json ::
  "'w ffi \<Rightarrow> crates \<Rightarrow> nat \<Rightarrow> string \<Rightarrow> string \<Rightarrow> json \<Rightarrow> int \<Rightarrow> ('w gstate, json) call" where
  "call_module_json F C tid target method args timeout_ms =
     call_then (call_json F C tid target method args timeout_ms)
       (\<lambda>v. call_lift (unwrap_module C method v))"

lemma unwrap_object: "is_object v \<Longrightarrow> unwrap_module C m v = Inr v"
  by (cases v) (simp_all add: unwrap_module_def)

section \<open>What a call leaves alone\<close>

named_theorems lp_frame \<open>effects of the cross-module client on the state\<close>

lemma create_client_frame [lp_frame]:
  "core (snd (create_client F t s)) = core s" "calls (snd (create_client F t s)) = calls s"
  by (simp_all add: create_client_def Let_def split: prod.split)

lemma create_client_keeps: "client_table s k = Some p \<Longrightarrow> client_table (snd (create_client F t s)) k \<noteq> None"
  by (auto simp: create_client_def client_table_def Let_def split: prod.split option.split)

lemma create_client_adds: "create_client F t s = (True, s') \<Longrightarrow> client_table s' t \<noteq> None"
  by (auto simp: create_client_def client_table_def Let_def split: prod.splits if_splits)

lemma have_client:
  "(case clients s of Some m \<Rightarrow> m t \<noteq> None | None \<Rightarrow> False) \<longleftrightarrow> client_table s t \<noteq> None"
  by (simp add: client_table_def split: option.split)

lemma bind_client: "Option.bind (clients s) (\<lambda>m. m t) = client_table s t"
  by (simp add: client_table_def split: option.split)

lemma client_ptr_frame [lp_frame]:
  "core (snd (client_ptr F tid t s)) = core s" "calls (snd (client_ptr F tid t s)) = calls s"
  by (simp_all add: client_ptr_def Let_def lp_frame)

lemma client_ptr_off_owner:
  "\<not> on_owner_thread tid s \<Longrightarrow> client_ptr F tid t s = (client_table s t, s)"
  by (simp add: client_ptr_def Let_def bind_client)

lemma ensure_client_frame [lp_frame]:
  "core (snd (ensure_client F tid t s)) = core s" "calls (snd (ensure_client F tid t s)) = calls s"
  using create_client_frame [of F t s]
  by (auto simp: ensure_client_def Let_def split: prod.split bool.split)

lemma ensure_client_adds:
  "ensure_client F tid t s = (Inr (), s') \<Longrightarrow> client_table s' t \<noteq> None"
  unfolding ensure_client_def Let_def have_client
  by (auto split: if_splits prod.splits bool.splits dest: create_client_adds)

text \<open>The relation between the states around one call.\<close>

definition call_frame :: "module_call \<Rightarrow> 'w gstate \<Rightarrow> 'w gstate \<Rightarrow> bool" where
  "call_frame c s s' \<longleftrightarrow> core s' = core s \<and> (calls s' = calls s \<or> calls s' = calls s @ [c])"

lemma call_json_frame: "call_frame (target, method, args, t) s (snd (call_json F C tid target method args t s))"
proof -
  obtain p s1 where cp: "client_ptr F tid target s = (p, s1)" by fastforce
  have "core s1 = core s" "calls s1 = calls s"
    using client_ptr_frame [of F tid target s] by (simp_all add: cp)
  then show ?thesis
    by (auto simp: call_json_def cp call_frame_def Let_def split: option.split prod.split)
qed

lemma call_json_Ok_calls:
  "call_json F C tid target method args t s = (Inr v, s') \<Longrightarrow> calls s' = calls s @ [(target, method, args, t)]"
  using client_ptr_frame(2) [of F tid target s]
  by (auto simp: call_json_def Let_def split: option.splits prod.splits if_splits)

lemma call_module_json_frame:
  "call_frame (target, method, args, t) s (snd (call_module_json F C tid target method args t s))"
  by (simp add: call_module_json_def snd_call_then_lift call_json_frame)

lemma call_libp2p_frame:
  "call_frame (LIBP2P_MODULE, method, args, t) s (snd (call_libp2p F C tid method args t s))"
  by (simp add: call_libp2p_def snd_call_then_lift call_json_frame)

lemma call_module_json_Ok_calls:
  assumes "call_module_json F C tid target method args t s = (Inr v, s')"
  shows "calls s' = calls s @ [(target, method, args, t)]"
proof -
  obtain x s1 where c: "call_json F C tid target method args t s = (Inr x, s1)"
    using assms by (auto simp: call_module_json_def call_then_def split: prod.splits sum.splits)
  with assms have "s' = s1" by (simp add: call_module_json_def call_lift_def)
  with call_json_Ok_calls [OF c] show ?thesis by simp
qed

text \<open>Off the owner thread no client is ever created.\<close>

lemma call_json_off_owner:
  "\<not> on_owner_thread tid s \<Longrightarrow> clients (snd (call_json F C tid target method args t s)) = clients s"
  by (simp add: call_json_def client_ptr_off_owner Let_def split: option.split prod.split)

lemma client_ptr_keeps:
  "client_table s k \<noteq> None \<Longrightarrow> client_table (snd (client_ptr F tid t s)) k \<noteq> None"
  using create_client_keeps [of s k _ F t] by (auto simp: client_ptr_def Let_def)

lemma call_json_keeps_clients:
  assumes "client_table s k \<noteq> None"
  shows "client_table (snd (call_json F C tid target method args t s)) k \<noteq> None"
proof -
  obtain p s1 where cp: "client_ptr F tid target s = (p, s1)" by fastforce
  have s1: "client_table s1 k \<noteq> None"
    using client_ptr_keeps [OF assms, of F tid target] cp by simp
  have u: "client_table (s1\<lparr>calls := l\<rparr>) = client_table s1"
    "client_table (s1\<lparr>calls := l, outside := w\<rparr>) = client_table s1" for l w
    by (simp_all add: client_table_def)
  show ?thesis
    using s1 by (auto simp: call_json_def cp u Let_def split: option.split prod.split)
qed

lemma call_libp2p_keeps_clients:
  "client_table s k \<noteq> None \<Longrightarrow> client_table (snd (call_libp2p F C tid method args t s)) k \<noteq> None"
  by (simp add: call_libp2p_def snd_call_then_lift call_json_keeps_clients)

lemma call_module_json_keeps_clients:
  "client_table s k \<noteq> None \<Longrightarrow> client_table (snd (call_module_json F C tid target method args t s)) k \<noteq> None"
  by (simp add: call_module_json_def snd_call_then_lift call_json_keeps_clients)

end
