(* ===== verification/Sample_Codec.thy ===== *)
theory Sample_Codec
  imports Crates
begin

text \<open>
  A hexadecimal codec, to show that the laws assumed of the \<open>hex\<close> and \<open>base64\<close> crates can hold.
\<close>

definition hex_digits :: string where
  "hex_digits = ''0123456789abcdef''"

definition digit_value :: "char \<Rightarrow> nat option" where
  "digit_value c = map_of (zip (hex_digits @ ''ABCDEF'') [0,1,2,3,4,5,6,7,8,9,10,11,12,13,14,15,10,11,12,13,14,15]) c"

fun sample_hex_enc :: "bytes \<Rightarrow> string" where
  "sample_hex_enc [] = []"
| "sample_hex_enc (b # bs) = hex_digits ! (unat b div 16) # hex_digits ! (unat b mod 16) # sample_hex_enc bs"

fun sample_hex_dec :: "string \<Rightarrow> string + bytes" where
  "sample_hex_dec [] = Inr []"
| "sample_hex_dec [c] = Inl ''Odd number of digits''"
| "sample_hex_dec (c # d # s) =
     (case (digit_value c, digit_value d, sample_hex_dec s) of
        (Some h, Some l, Inr bs) \<Rightarrow> Inr (of_nat (16 * h + l) # bs)
      | (_, _, Inl e) \<Rightarrow> Inl e
      | _ \<Rightarrow> Inl ''Invalid character'')"

lemma digits_checked:
  "list_all (\<lambda>n. digit_value (hex_digits ! n) = Some n \<and> lower_hex_digit (hex_digits ! n)) [0..<16]"
  by code_simp

lemma digit_value_digit: "n < 16 \<Longrightarrow> digit_value (hex_digits ! n) = Some n"
  and digit_is_lower: "n < 16 \<Longrightarrow> lower_hex_digit (hex_digits ! n)"
  using digits_checked by (simp_all add: list_all_iff del: upt_Suc)

lemma digit_value_hex: "digit_value c = Some v \<Longrightarrow> hex_digit c"
  unfolding digit_value_def by (drule map_of_SomeD) (auto simp: hex_digit_def hex_digits_def)

lemma sample_hex_roundtrip: "sample_hex_dec (sample_hex_enc b) = Inr b"
proof (induction b)
  case (Cons x b)
  have "unat x < 256" using unsigned_less [of x, where 'a = nat] by simp
  then have "unat x div 16 < 16" "unat x mod 16 < 16" by simp_all
  with Cons show ?case by (simp add: digit_value_digit)
qed simp

lemma sample_hex_laws_enc: "length (sample_hex_enc b) = 2 * length b" "list_all lower_hex_digit (sample_hex_enc b)"
proof -
  show "length (sample_hex_enc b) = 2 * length b" by (induction b) simp_all
  show "list_all lower_hex_digit (sample_hex_enc b)"
  proof (induction b)
    case (Cons x b)
    have "unat x < 256" using unsigned_less [of x, where 'a = nat] by simp
    then have "unat x div 16 < 16" "unat x mod 16 < 16" by simp_all
    with Cons show ?case by (simp add: digit_is_lower)
  qed simp
qed

lemma sample_hex_laws_dec: "sample_hex_dec s = Inr b \<Longrightarrow> list_all hex_digit s \<and> length s = 2 * length b"
  by (induction s arbitrary: b rule: sample_hex_dec.induct)
     (auto split: option.splits sum.splits dest: digit_value_hex)

lemma sample_codec_laws:
  "hex_laws (C\<lparr>hex_enc := sample_hex_enc, hex_dec := sample_hex_dec\<rparr>)"
  "b64_laws (C\<lparr>b64_enc := sample_hex_enc, b64_dec := sample_hex_dec\<rparr>)"
  using sample_hex_laws_dec
  by (auto simp: hex_laws_def b64_laws_def sample_hex_roundtrip sample_hex_laws_enc)

end
