(* ===== verification/Client.thy ===== *)
theory Client
  imports Wire_Correct Auth_Vector Lp Sample_Codec
begin

text \<open>
  The gifter client of \<open>rust/rln-gifter-module/rust-lib/src/client.rs\<close>: one function, \<open>request\<close>,
  here in the parts its code has (arguments, authentication payload, the exchange, the reading of
  the response). It slices a string, so its result has the third case \<open>Panic\<close>.
\<close>

definition REQUEST_TIMEOUT_MS :: int where "REQUEST_TIMEOUT_MS = 190000"
definition REQUEST_CALL_TIMEOUT_MS :: int where "REQUEST_CALL_TIMEOUT_MS = 205000"
definition PRODUCE_TIMEOUT_MS :: int where "PRODUCE_TIMEOUT_MS = 120000"

definition str_or :: "json \<Rightarrow> string \<Rightarrow> string \<Rightarrow> string" where
  "str_or a k d = (case get_str a k of Some s \<Rightarrow> s | None \<Rightarrow> d)"

text \<open>Lines 28-46: the arguments and the commitment.\<close>

record client_args =
  gifter_peer_id :: string
  gifter_multiaddr :: string
  id_commitment_hex :: string
  id_commitment :: bytes
  req_rate :: u64

definition parse_client_args :: "crates \<Rightarrow> json \<Rightarrow> string + client_args" where
  "parse_client_args C a =
     try_then (some_or (get_str a ''gifterPeerId'') ''missing gifterPeerId'') (\<lambda>peer.
     try_then (some_or (get_str a ''gifterMultiaddr'') ''missing gifterMultiaddr'') (\<lambda>maddr.
       let provided = str_or a ''identityCommitment'' [];
           r = (case get_u64 a ''rate'' of Some n \<Rightarrow> n | None \<Rightarrow> 0) in
       if provided = [] then Inl ''request needs identityCommitment''
       else
         let idc_hex = lowercase C (trim_0x provided) in
         (case hex_dec C idc_hex of
            Inl e \<Rightarrow> Inl (''id_commitment hex: '' @ e)
          | Inr idc \<Rightarrow>
              Inr \<lparr>gifter_peer_id = peer, gifter_multiaddr = maddr, id_commitment_hex = idc_hex,
                   id_commitment = idc, req_rate = r\<rparr>)))"

text \<open>Lines 58-92: the payload, given raw or produced by a provider module.\<close>

definition auth_payload_of ::
  "'w ffi \<Rightarrow> crates \<Rightarrow> nat \<Rightarrow> json \<Rightarrow> string \<Rightarrow> ('w gstate, bytes) call" where
  "auth_payload_of F C tid a idc_hex =
     (let auth_type_req = str_or a ''authType'' [];
          auth_payload_hex = str_or a ''authPayload'' [];
          auth_provider = str_or a ''authProvider'' [] in
      if auth_payload_hex \<noteq> [] \<and> auth_provider \<noteq> [] then
        call_lift (Inl ''authPayload and authProvider are mutually exclusive'')
      else if auth_type_req = [] then
        (if auth_payload_hex \<noteq> [] \<or> auth_provider \<noteq> [] then
           call_lift (Inl ''authPayload/authProvider need an explicit authType'')
         else call_lift (Inr []))
      else if auth_payload_hex \<noteq> [] then
        call_lift (case hex_dec C (trim_0x auth_payload_hex) of
                     Inr b \<Rightarrow> Inr b | Inl e \<Rightarrow> Inl (''authPayload hex: '' @ e))
      else if auth_provider \<noteq> [] then
        call_then
          (call_lift (case js_ser C (produce_request_tree
                        \<lparr>pr_auth_type = auth_type_req, pr_id_commitment_hex = idc_hex,
                         pr_args = jget a ''authArgs''\<rparr>) of
                        Inr t \<Rightarrow> Inr t | Inl e \<Rightarrow> Inl (''produce request: '' @ e)))
          (\<lambda>prod_json.
             call_then (call_module_json F C tid auth_provider PRODUCE_METHOD (JArr [JStr prod_json])
                          PRODUCE_TIMEOUT_MS)
               (\<lambda>reply. call_lift
                  (case parse_produce_reply C reply of
                     Inl e \<Rightarrow> Inl (''auth provider '' @ auth_provider @ '': '' @ e)
                   | Inr r \<Rightarrow>
                       (case hex_dec C (trim_0x (rp_payload_hex r)) of
                          Inr b \<Rightarrow> Inr b | Inl e \<Rightarrow> Inl (''auth provider payload hex: '' @ e)))))
      else
        call_lift (Inl (''authType '' @ quoted auth_type_req @ '' needs authPayload or authProvider'')))"

text \<open>Lines 95-109: the wire request.\<close>

definition request_id_of :: "string \<Rightarrow> (string, string) outcome" where
  "request_id_of idc_hex =
     and_then (str_prefix idc_hex (min (length idc_hex) 16)) (\<lambda>p. Ok (''gift-'' @ p))"

definition build_request :: "json \<Rightarrow> client_args \<Rightarrow> bytes \<Rightarrow> (string, rln_gifter_request) outcome" where
  "build_request a ca payload =
     and_then (request_id_of (id_commitment_hex ca)) (\<lambda>rid.
       Ok \<lparr>request_id = rid, authentication_type = as_bytes (str_or a ''authType'' []),
           authentication_payload = payload, identity_commitment = id_commitment ca,
           rate_limit = (if req_rate ca > 0 then Some (req_rate ca) else None)\<rparr>)"

definition protocol_request_args :: "crates \<Rightarrow> client_args \<Rightarrow> rln_gifter_request \<Rightarrow> json" where
  "protocol_request_args C ca req =
     JArr [JStr (js_print C (JObj
       [(''multiaddrs'', JArr [JStr (gifter_multiaddr ca)]), (''peerId'', JStr (gifter_peer_id ca)),
        (''proto'', JStr RLN_GIFTER_CODEC), (''requestB64'', JStr (b64 C (request_encode req))),
        (''timeoutMs'', JNum (PosInt (word_of_int REQUEST_TIMEOUT_MS)))]))]"

text \<open>Lines 111-155: the response, checked and turned into the reply document.\<close>

definition check_response :: "string \<Rightarrow> rln_gifter_response \<Rightarrow> string + membership_allocation_success" where
  "check_response rid resp =
     (if resp_request_id resp \<noteq> rid then Inl ''gifter response requestId mismatch''
      else if \<not> auth_success resp then
        Inl (case resp_error resp of
               Some e \<Rightarrow> e
             | None \<Rightarrow> (case failure resp of
                          Some f \<Rightarrow> error_message f | None \<Rightarrow> ''gifter authentication failed''))
      else case success resp of
        Some g \<Rightarrow> Inr g
      | None \<Rightarrow>
          Inl (case failure resp of
                 Some f \<Rightarrow> error_message f
               | None \<Rightarrow> (case resp_error resp of
                            Some e \<Rightarrow> e | None \<Rightarrow> ''gifter returned no membership'')))"

definition reply_document :: "crates \<Rightarrow> string \<Rightarrow> membership_allocation_success \<Rightarrow> json" where
  "reply_document C idc_hex g =
     (let tx_hash = hex_enc C (transaction_hash g);
          out = [(''auth_success'', JBool True), (''id_commitment'', JStr idc_hex),
                 (''identity_adopted'', JBool False), (''leaf_index'', JNum (PosInt (leaf_index g)))];
          out1 = (if tx_hash \<noteq> [] then obj_insert ''tx_hash'' (JStr tx_hash) out else out);
          out2 = (case config_account_id g of
                    Some cfg \<Rightarrow> obj_insert ''config_account'' (JStr cfg) out1 | None \<Rightarrow> out1)
      in JObj out2)"

definition read_response :: "crates \<Rightarrow> string \<Rightarrow> string \<Rightarrow> json \<Rightarrow> string + json" where
  "read_response C rid idc_hex pr =
     try_then (some_or (get_str pr ''responseB64'') (''protocolRequest: no responseB64 in '' @ js_print C pr))
       (\<lambda>resp_b64.
     try_then (b64_decode C resp_b64) (\<lambda>bs.
     try_then (response_decode bs) (\<lambda>resp.
     try_then (check_response rid resp) (\<lambda>g.
       Inr (reply_document C idc_hex g)))))"

definition request :: "'w ffi \<Rightarrow> crates \<Rightarrow> nat \<Rightarrow> string \<Rightarrow> ('w gstate, string, json) action" where
  "request F C tid args_json =
     act_then
       (act_lift (of_sum (case from_str C args_json of
          Inl e \<Rightarrow> Inl (''request args: '' @ e)
        | Inr a \<Rightarrow> try_then (parse_client_args C a) (\<lambda>ca. Inr (a, ca)))))
       (\<lambda>(a, ca).
     act_then (act_call (auth_payload_of F C tid a (id_commitment_hex ca))) (\<lambda>payload.
     act_then (act_lift (build_request a ca payload)) (\<lambda>req.
     act_then (act_call (call_libp2p F C tid ''protocolRequest'' (protocol_request_args C ca req)
                 REQUEST_CALL_TIMEOUT_MS)) (\<lambda>pr.
       act_lift (of_sum (read_response C (request_id req) (id_commitment_hex ca) pr))))))"

section \<open>Correctness\<close>

lemma parse_client_args_Inr:
  assumes "parse_client_args C a = Inr ca"
  shows "get_str a ''gifterPeerId'' = Some (gifter_peer_id ca)"
    "get_str a ''gifterMultiaddr'' = Some (gifter_multiaddr ca)"
    "id_commitment_hex ca = lowercase C (trim_0x (str_or a ''identityCommitment'' []))"
    "hex_dec C (id_commitment_hex ca) = Inr (id_commitment ca)"
    "req_rate ca = (case get_u64 a ''rate'' of Some n \<Rightarrow> n | None \<Rightarrow> 0)"
  using assms
  by (auto simp: parse_client_args_def try_then_eq_Inr Let_def split: if_splits sum.splits)

lemma commitment_ascii:
  "hex_laws C \<Longrightarrow> parse_client_args C a = Inr ca \<Longrightarrow> ascii_str (id_commitment_hex ca)"
  by (drule parse_client_args_Inr(4)) (simp add: hex_laws_def hex_string_ascii)

lemma build_request_Ok:
  assumes "hex_laws C" "parse_client_args C a = Inr ca"
  shows "build_request a ca payload
    = Ok \<lparr>request_id = ''gift-'' @ take 16 (id_commitment_hex ca),
          authentication_type = as_bytes (str_or a ''authType'' []),
          authentication_payload = payload, identity_commitment = id_commitment ca,
          rate_limit = (if req_rate ca > 0 then Some (req_rate ca) else None)\<rparr>"
  using commitment_ascii [OF assms]
  by (simp add: build_request_def request_id_of_def str_prefix_ascii min_def)

text \<open>The ways a client request can end.\<close>

lemma request_cases:
  assumes "request F C tid args s = (r, s')"
  obtains (bad_args) e where "r = Err e" "s' = s"
      "(\<exists>e. from_str C args = Inl e) \<or> (\<exists>a e. from_str C args = Inr a \<and> parse_client_args C a = Inl e)"
  | (bad_auth) a ca e where "from_str C args = Inr a" "parse_client_args C a = Inr ca"
      "auth_payload_of F C tid a (id_commitment_hex ca) s = (Inl e, s')" "r = Err e"
  | (bad_id) a ca payload s1 where "from_str C args = Inr a" "parse_client_args C a = Inr ca"
      "auth_payload_of F C tid a (id_commitment_hex ca) s = (Inr payload, s1)"
      "\<And>req. build_request a ca payload \<noteq> Ok req" "s' = s1" "\<nexists>v. r = Ok v"
  | (no_reply) a ca payload s1 req e where "from_str C args = Inr a" "parse_client_args C a = Inr ca"
      "auth_payload_of F C tid a (id_commitment_hex ca) s = (Inr payload, s1)"
      "build_request a ca payload = Ok req"
      "call_libp2p F C tid ''protocolRequest'' (protocol_request_args C ca req)
         REQUEST_CALL_TIMEOUT_MS s1 = (Inl e, s')" "r = Err e"
  | (reply) a ca payload s1 req pr where "from_str C args = Inr a" "parse_client_args C a = Inr ca"
      "auth_payload_of F C tid a (id_commitment_hex ca) s = (Inr payload, s1)"
      "build_request a ca payload = Ok req"
      "call_libp2p F C tid ''protocolRequest'' (protocol_request_args C ca req)
         REQUEST_CALL_TIMEOUT_MS s1 = (Inr pr, s')"
      "r = of_sum (read_response C (request_id req) (id_commitment_hex ca) pr)"
proof (cases "\<exists>a ca. from_str C args = Inr a \<and> parse_client_args C a = Inr ca")
  case False
  then have "(\<exists>e. from_str C args = Inl e) \<or> (\<exists>a e. from_str C args = Inr a \<and> parse_client_args C a = Inl e)"
    by (metis obj_sumE)
  with assms bad_args show thesis by (auto simp: request_def)
next
  case True
  then obtain a ca where a: "from_str C args = Inr a" "parse_client_args C a = Inr ca" by blast
  obtain p s1 where p: "auth_payload_of F C tid a (id_commitment_hex ca) s = (p, s1)" by fastforce
  show thesis
  proof (cases p)
    case (Inl e)
    with assms a p bad_auth show thesis by (simp add: request_def act_then_def act_call_def act_lift_def)
  next
    case (Inr payload)
    note pi = p [unfolded Inr]
    show thesis
    proof (cases "build_request a ca payload")
      case (Ok req)
      obtain c s2 where c: "call_libp2p F C tid ''protocolRequest'' (protocol_request_args C ca req)
          REQUEST_CALL_TIMEOUT_MS s1 = (c, s2)" by fastforce
      show thesis
        using assms a pi Ok c no_reply [OF a pi Ok] reply [OF a pi Ok]
        by (cases c) (simp_all add: request_def act_then_def act_call_def act_lift_def)
    qed (use assms a pi bad_id [OF a pi] in
        \<open>auto simp: request_def act_then_def act_call_def act_lift_def\<close>)
  qed
qed

text \<open>
  The client never panics: its only slice is of a decodable hexadecimal string, so the cut at
  sixteen bytes is on a character boundary whatever the caller passes.
\<close>

lemma client_no_panic:
  assumes "hex_laws C"
  shows "fst (request F C tid args s) \<noteq> Panic"
proof -
  obtain r s' where r: "request F C tid args s = (r, s')" by fastforce
  then show ?thesis
  proof (cases rule: request_cases)
    case (bad_id a ca payload s1)
    from bad_id(4) build_request_Ok [OF assms bad_id(2)] show ?thesis by blast
  qed (use r in simp_all)
qed

definition bad_auth_args :: "crates \<Rightarrow> json \<Rightarrow> bool" where
  "bad_auth_args C a \<longleftrightarrow>
     (let t = str_or a ''authType'' []; p = str_or a ''authPayload'' []; v = str_or a ''authProvider'' [] in
      (p \<noteq> [] \<and> v \<noteq> []) \<or> (t = [] \<and> (p \<noteq> [] \<or> v \<noteq> [])) \<or> (t \<noteq> [] \<and> p = [] \<and> v = [])
      \<or> (t \<noteq> [] \<and> p \<noteq> [] \<and> (\<exists>e. hex_dec C (trim_0x p) = Inl e)))"

lemma auth_payload_bad:
  "bad_auth_args C a \<Longrightarrow> \<exists>e. auth_payload_of F C tid a h s = (Inl e, s)"
  by (auto simp: bad_auth_args_def auth_payload_of_def Let_def call_lift_def split: sum.split)

text \<open>
  Malformed requests are refused before any I/O: missing or undecodable arguments, a payload
  next to a provider, payload material without a type, a type without payload material, and an
  undecodable payload all give an error and leave the state, and so every peer, untouched.
\<close>

lemma client_refuses_early:
  assumes "case from_str C args of Inl _ \<Rightarrow> True
    | Inr a \<Rightarrow> (\<exists>e. parse_client_args C a = Inl e) \<or> bad_auth_args C a"
  shows "\<exists>e. request F C tid args s = (Err e, s)"
proof -
  obtain r s' where r: "request F C tid args s = (r, s')" by fastforce
  then show ?thesis
  proof (cases rule: request_cases)
    case (bad_auth a ca e)
    with assms auth_payload_bad [of C a F tid "id_commitment_hex ca" s] r show ?thesis by auto
  next
    case (bad_id a ca payload s1)
    with assms auth_payload_bad [of C a F tid "id_commitment_hex ca" s] show ?thesis by auto
  next
    case (no_reply a ca payload s1 req e)
    with assms auth_payload_bad [of C a F tid "id_commitment_hex ca" s] show ?thesis by auto
  next
    case (reply a ca payload s1 req pr)
    with assms auth_payload_bad [of C a F tid "id_commitment_hex ca" s] show ?thesis by auto
  qed (use r in simp)
qed

text \<open>
  The client reports only a membership the gifter granted to this request: a success means that
  the arguments were well-formed, the request sent carries the caller's commitment, type and rate,
  the gifter's response decodes, answers this request id, says it is authenticated and carries a
  grant; the document returned is the one of that grant.
\<close>

lemma client_reports_grant:
  assumes "request F C tid args s = (Ok out, s')"
  shows "\<exists>a ca payload s1 req pr b64text bs resp g. from_str C args = Inr a \<and> parse_client_args C a = Inr ca
    \<and> auth_payload_of F C tid a (id_commitment_hex ca) s = (Inr payload, s1)
    \<and> identity_commitment req = id_commitment ca \<and> authentication_payload req = payload
    \<and> authentication_type req = as_bytes (str_or a ''authType'' [])
    \<and> call_libp2p F C tid ''protocolRequest'' (protocol_request_args C ca req) REQUEST_CALL_TIMEOUT_MS s1
        = (Inr pr, s')
    \<and> get_str pr ''responseB64'' = Some b64text \<and> b64_decode C b64text = Inr bs
    \<and> response_decode bs = Inr resp \<and> resp_request_id resp = request_id req
    \<and> auth_success resp \<and> success resp = Some g
    \<and> out = reply_document C (id_commitment_hex ca) g"
  using assms
proof (cases rule: request_cases)
  case (reply a ca payload s1 req pr)
  from reply(4) have req: "identity_commitment req = id_commitment ca" "authentication_payload req = payload"
    "authentication_type req = as_bytes (str_or a ''authType'' [])"
    by (auto simp: build_request_def outcome_simps)
  from reply(6) obtain b64text bs resp g where "get_str pr ''responseB64'' = Some b64text"
    "b64_decode C b64text = Inr bs" "response_decode bs = Inr resp"
    and c: "check_response (request_id req) resp = Inr g" "out = reply_document C (id_commitment_hex ca) g"
    by (auto simp: read_response_def try_then_eq_Inr dest!: sym [of "Ok out"])
  moreover from c(1) have "resp_request_id resp = request_id req" "auth_success resp" "success resp = Some g"
    by (auto simp: check_response_def split: if_splits option.splits)
  ultimately show ?thesis using reply(1-3,5) req by blast
qed simp_all

end
