(* ===== verification/Nullifiers.thy ===== *)
theory Nullifiers
  imports Gifter_State
begin

text \<open>
  The append-only consumed-nullifier file of \<open>rust/rln-gifter-module/rust-lib/src/auth.rs\<close>.
\<close>

text \<open>\<open>std::fs::read_to_string\<close>: the file must exist, be readable and hold UTF-8.\<close>

definition read_to_string :: "'w ffi \<Rightarrow> string \<Rightarrow> 'w gstate \<Rightarrow> string option" where
  "read_to_string F path s =
     (case files s path of
        None \<Rightarrow> None
      | Some b \<Rightarrow> if fs_readable F path (outside s) \<and> utf8_valid b then Some (str_of_bytes b) else None)"

definition nullifier_lines :: "crates \<Rightarrow> string \<Rightarrow> string list" where
  "nullifier_lines C contents = filter (\<lambda>n. n \<noteq> []) (map (\<lambda>l. lowercase C (trim l)) (lines contents))"

definition load_nullifiers :: "'w ffi \<Rightarrow> crates \<Rightarrow> string \<Rightarrow> 'w gstate \<Rightarrow> string set" where
  "load_nullifiers F C path s =
     (if path = [] then {}
      else case read_to_string F path s of
        None \<Rightarrow> {}
      | Some contents \<Rightarrow> set (nullifier_lines C contents))"

text \<open>\<open>append_nullifier\<close>: the file is created if missing; a failed open or write is only logged.\<close>

definition append_nullifier :: "'w ffi \<Rightarrow> string \<Rightarrow> string \<Rightarrow> 'w gstate \<Rightarrow> 'w gstate" where
  "append_nullifier F path nullifier_hex s =
     (if path = [] then s
      else
        let line = nullifier_hex @ [CHR 0x0A] in
        case fs_append F path line (outside s) of
          None \<Rightarrow> s
        | Some n \<Rightarrow>
            let old = (case files s path of None \<Rightarrow> [] | Some b \<Rightarrow> b) in
            s\<lparr>files := (files s)(path \<mapsto> old @ take n (as_bytes line))\<rparr>)"

section \<open>Append, then load\<close>

abbreviation LF :: char where "LF \<equiv> CHR 0x0A"

lemma lines_step:
  assumes "LF \<in> set s"
  shows "lines s = strip_cr (takeWhile (\<lambda>c. c \<noteq> LF) s) # lines (tl (dropWhile (\<lambda>c. c \<noteq> LF) s))"
proof -
  have "s \<noteq> []" "dropWhile (\<lambda>c. c \<noteq> LF) s \<noteq> []" using assms by (auto simp: dropWhile_eq_Nil_conv)
  then show ?thesis unfolding lines.simps [of s] Let_def by (simp only: if_False)
qed

lemma lines_append: "s = [] \<or> last s = LF \<Longrightarrow> lines (s @ t) = lines s @ lines t"
proof (induction s rule: lines.induct)
  case (1 s)
  show ?case
  proof (cases "s = []")
    case False
    with "1.prems" have l: "last s = LF" by simp
    let ?P = "\<lambda>c. c \<noteq> LF"
    have mem: "LF \<in> set s" using False l last_in_set by metis
    then have tw: "takeWhile ?P (s @ t) = takeWhile ?P s" and dw: "dropWhile ?P (s @ t) = dropWhile ?P s @ t"
      by (auto simp: takeWhile_append1 dropWhile_append1)
    have r: "dropWhile ?P s \<noteq> []" using mem by (auto simp: dropWhile_eq_Nil_conv)
    have "tl (dropWhile ?P s) = [] \<or> last (tl (dropWhile ?P s)) = LF"
    proof (cases "tl (dropWhile ?P s) = []")
      case False
      then show ?thesis using l r by (metis last_tl last_appendR takeWhile_dropWhile_id)
    qed simp
    with "1.IH" [OF False refl refl r] have
      "lines (tl (dropWhile ?P s) @ t) = lines (tl (dropWhile ?P s)) @ lines t" by simp
    moreover have "lines (s @ t) = strip_cr (takeWhile ?P s) # lines (tl (dropWhile ?P s) @ t)"
      using lines_step [of "s @ t"] mem r by (simp only: tw dw) simp
    moreover have "lines s = strip_cr (takeWhile ?P s) # lines (tl (dropWhile ?P s))"
      using mem by (rule lines_step)
    ultimately show ?thesis by simp
  qed (simp add: lines.simps)
qed

lemma lines_line: "LF \<notin> set n \<Longrightarrow> lines (n @ [LF]) = [strip_cr n]"
proof -
  assume n: "LF \<notin> set n"
  then have "takeWhile (\<lambda>c. c \<noteq> LF) (n @ [LF]) = n" "dropWhile (\<lambda>c. c \<noteq> LF) (n @ [LF]) = [LF]"
    by (subst takeWhile_append2, auto) (subst dropWhile_append2, auto)
  then show ?thesis by (subst lines.simps) (simp add: Let_def lines.simps [of "[]"])
qed

text \<open>
  A store file as the module itself writes it: absent, or UTF-8 and ending in a line feed.
\<close>

definition store_ok :: "'w gstate \<Rightarrow> string \<Rightarrow> bool" where
  "store_ok s path \<longleftrightarrow>
     (case files s path of None \<Rightarrow> True | Some b \<Rightarrow> utf8_valid b \<and> (b = [] \<or> last b = 0x0A))"

definition writable :: "'w ffi \<Rightarrow> string \<Rightarrow> 'w gstate \<Rightarrow> bool" where
  "writable F path s \<longleftrightarrow> fs_readable F path (outside s)
     \<and> (\<forall>d. fs_append F path d (outside s) = Some (length d))"

lemma chr_of_LF: "chr_of 10 = LF"
  by code_simp

lemma utf8_valid_LF: "utf8_valid [0x0A]"
  using valid_str_ascii [of "[LF]"] by (simp add: valid_str_def)

lemma append_nullifier_store:
  assumes "path \<noteq> []" "store_ok s path" "writable F path s" "valid_str n"
  shows "files (append_nullifier F path n s) path
      = Some ((case files s path of None \<Rightarrow> [] | Some b \<Rightarrow> b) @ as_bytes (n @ [LF]))
    \<and> store_ok (append_nullifier F path n s) path
    \<and> writable F path (append_nullifier F path n s)"
  using assms utf8_valid_append [of "as_bytes n" "[0x0A]"]
  by (auto simp: append_nullifier_def Let_def writable_def store_ok_def valid_str_def utf8_valid_LF
      utf8_valid_append split: option.splits)

lemma load_after_append:
  assumes "path \<noteq> []" "store_ok s path" "writable F path s"
    and "valid_str n" "LF \<notin> set n" "strip_cr n = n" "lowercase C (trim n) \<noteq> []"
  shows "load_nullifiers F C path (append_nullifier F path n s)
    = insert (lowercase C (trim n)) (load_nullifiers F C path s)"
proof -
  let ?old = "case files s path of None \<Rightarrow> [] | Some b \<Rightarrow> b"
  let ?s' = "append_nullifier F path n s"
  note st = append_nullifier_store [OF assms(1-4)]
  have old: "load_nullifiers F C path s = set (nullifier_lines C (str_of_bytes ?old))"
    using assms(1-3) by (auto simp: load_nullifiers_def read_to_string_def store_ok_def writable_def
        nullifier_lines_def lines.simps split: option.splits)
  have "read_to_string F path ?s' = Some (str_of_bytes (?old @ as_bytes (n @ [LF])))"
    using st unfolding read_to_string_def store_ok_def writable_def by (auto simp del: as_bytes_append)
  moreover have "str_of_bytes (?old @ as_bytes (n @ [LF])) = str_of_bytes ?old @ n @ [LF]"
    by (simp add: chr_of_LF)
  moreover have "str_of_bytes ?old = [] \<or> last (str_of_bytes ?old) = LF"
    using assms(2) chr_of_LF by (auto simp: store_ok_def str_of_bytes_def split: option.splits) (metis last_map)
  ultimately show ?thesis
    using assms(1,5-7) old
    by (simp add: load_nullifiers_def nullifier_lines_def lines_append lines_line)
qed

section \<open>The interface of the store\<close>

text \<open>
  What the gifter relies on: an appended entry is found by every later load, in the form \<open>norm\<close>
  gives it, and none is lost. \<open>ready\<close> is the condition on a path under which the store is in use,
  \<open>fits\<close> holds of the entries that fit on a line.
\<close>

locale append_only_store =
  fixes append_entry :: "string \<Rightarrow> string \<Rightarrow> 's \<Rightarrow> 's"
    and load :: "string \<Rightarrow> 's \<Rightarrow> string set"
    and ready :: "string \<Rightarrow> 's \<Rightarrow> bool"
    and fits :: "string \<Rightarrow> bool"
    and norm :: "string \<Rightarrow> string"
  assumes ready_append: "ready p s \<Longrightarrow> fits n \<Longrightarrow> ready p (append_entry p n s)"
    and load_append: "ready p s \<Longrightarrow> fits n \<Longrightarrow> load p (append_entry p n s) = insert (norm n) (load p s)"
begin

lemma ready_append_all:
  "ready p s \<Longrightarrow> list_all fits ns \<Longrightarrow> ready p (fold (append_entry p) ns s)"
  by (induction ns arbitrary: s) (simp_all add: ready_append)

lemma load_append_all:
  "ready p s \<Longrightarrow> list_all fits ns \<Longrightarrow>
     load p (fold (append_entry p) ns s) = norm ` set ns \<union> load p s"
  by (induction ns arbitrary: s) (simp_all add: ready_append load_append)

end

definition store_ready :: "'w ffi \<Rightarrow> string \<Rightarrow> 'w gstate \<Rightarrow> bool" where
  "store_ready F path s \<longleftrightarrow> path \<noteq> [] \<and> store_ok s path \<and> writable F path s"

definition storable :: "crates \<Rightarrow> string \<Rightarrow> bool" where
  "storable C n \<longleftrightarrow> valid_str n \<and> LF \<notin> set n \<and> strip_cr n = n \<and> lowercase C (trim n) \<noteq> []"

interpretation nullifier_store: append_only_store
  "append_nullifier F" "load_nullifiers F C" "store_ready F" "storable C" "\<lambda>n. lowercase C (trim n)"
  for F C
  by unfold_locales
     (simp_all add: store_ready_def storable_def append_nullifier_store load_after_append)

text \<open>Entries in the form the loader gives them: printable ASCII without blanks and capitals.\<close>

definition plain :: "string \<Rightarrow> bool" where
  "plain s \<longleftrightarrow> list_all (\<lambda>c. 32 < (of_char c :: nat) \<and> (of_char c :: nat) < 127 \<and> ascii_lower c = c) s"

lemma plain_simps [simp]:
  "plain []" "plain (s @ t) \<longleftrightarrow> plain s \<and> plain t"
  "plain (c # s) \<longleftrightarrow> 32 < (of_char c :: nat) \<and> (of_char c :: nat) < 127 \<and> ascii_lower c = c \<and> plain s"
  by (auto simp: plain_def)

lemma plain_ascii: "plain s \<Longrightarrow> ascii_str s"
  by (induction s) auto

lemma plain_no_blank: "plain s \<Longrightarrow> c \<in> set s \<Longrightarrow> \<not> is_whitespace (of_char c)"
  by (auto simp: plain_def list_all_iff is_whitespace_def)

lemma plain_trim: "plain s \<Longrightarrow> trim s = s"
proof -
  assume s: "plain s"
  let ?w = "\<lambda>c. is_whitespace (of_char c)"
  have "dropWhile ?w t = t" if "set t = set s" for t
    using that plain_no_blank [OF s] by (cases t) auto
  then have "dropWhile ?w s = s" "dropWhile ?w (rev s) = rev s" by simp_all
  then show ?thesis by (simp add: trim_ascii plain_ascii [OF s] trim_by_def)
qed

lemma plain_lowercase: "plain s \<Longrightarrow> lowercase C s = s"
  by (simp add: lowercase_def to_lowercase_def plain_ascii) (induction s, auto)

lemma plain_storable: "plain s \<Longrightarrow> s \<noteq> [] \<Longrightarrow> storable C s"
proof -
  assume s: "plain s" "s \<noteq> []"
  have "LF \<notin> set s" using plain_no_blank [OF s(1), of LF] by (auto simp: is_whitespace_def)
  moreover have "last s \<noteq> CHR 0x0D"
    using plain_no_blank [OF s(1), of "last s"] s(2) by (auto simp: is_whitespace_def)
  ultimately show ?thesis
    using s by (simp add: storable_def valid_str_ascii plain_ascii plain_trim plain_lowercase strip_cr_def)
qed

text \<open>
  C15. The store survives the file: whatever plain entries the gifter appends to a store that is
  ready, a later load from that file yields exactly these entries and the ones it held before. A
  fresh process that loads the file has them all.
\<close>

theorem nullifiers_roundtrip:
  assumes "store_ready F path s" and "list_all (\<lambda>n. plain n \<and> n \<noteq> []) ns"
  shows "load_nullifiers F C path (fold (append_nullifier F path) ns s)
    = set ns \<union> load_nullifiers F C path s"
proof -
  have "list_all (storable C) ns" using assms(2) by (simp add: list_all_iff plain_storable)
  moreover have "(\<lambda>n. lowercase C (trim n)) ` set ns = set ns"
    using assms(2) by (auto simp: list_all_iff plain_trim plain_lowercase image_iff) 
  ultimately show ?thesis
    using nullifier_store.load_append_all [OF assms(1)] by simp
qed

end
