(* ===== verification/Server.thy ===== *)
theory Server
  imports Wire_Correct Auth_Vector Lp Nullifiers "HOL-Library.AList"
begin

text \<open>
  The gifter node of \<open>rust/rln-gifter-module/rust-lib/src/server.rs\<close>: \<open>serve\<close>, the serialized
  worker, the handling of one stream and of one request, and the on-chain registration with its
  confirmation loop. \<open>tid\<close> is the calling thread. A function whose loop may not return yields an
  \<open>option\<close>, \<open>None\<close> meaning that it does not return.
\<close>

section \<open>Constants\<close>

definition ACCEPT_TIMEOUT_MS :: int where "ACCEPT_TIMEOUT_MS = 3600000"
definition READ_TIMEOUT_MS :: int where "READ_TIMEOUT_MS = 60000"
definition WRITE_TIMEOUT_MS :: int where "WRITE_TIMEOUT_MS = 30000"
definition REGISTER_TIMEOUT_MS :: int where "REGISTER_TIMEOUT_MS = 190000"
definition GET_MEMBERSHIP_TIMEOUT_MS :: int where "GET_MEMBERSHIP_TIMEOUT_MS = 30000"
definition MOUNT_TIMEOUT_MS :: int where "MOUNT_TIMEOUT_MS = 30000"
definition AUTH_VERIFY_TIMEOUT_MS :: int where "AUTH_VERIFY_TIMEOUT_MS = 30000"
definition DEFAULT_MAX_RATE :: u64 where "DEFAULT_MAX_RATE = 100"
definition MAX_RPC_SIZE :: u64 where "MAX_RPC_SIZE = 4096"

text \<open>Durations in nanoseconds.\<close>

definition CONFIRM_BUDGET :: nat where "CONFIRM_BUDGET = 150 * 10 ^ 9"
definition CONFIRM_POLL :: nat where "CONFIRM_POLL = 2 * 10 ^ 9"

definition blob :: "crates \<Rightarrow> json \<Rightarrow> json" where
  "blob C v = JArr [JStr (js_print C v)]"

text \<open>\<open>json!(n)\<close> on an unsigned and on a signed constant.\<close>

definition jint :: "int \<Rightarrow> json" where
  "jint k = JNum (if 0 \<le> k then PosInt (word_of_int k) else NegInt (word_of_int k))"

section \<open>serve\<close>

text \<open>
  The loop over the entries of \<open>authVerifiers\<close>, in the order of the map; \<open>acc\<close> is the map being
  built.
\<close>

fun collect_verifiers ::
  "'w ffi \<Rightarrow> nat \<Rightarrow> (string \<times> json) list \<Rightarrow> (string \<times> (string \<times> json option)) list
     \<Rightarrow> ('w gstate, (string \<times> (string \<times> json option)) list) call" where
  "collect_verifiers F tid [] acc s = (Inr acc, s)"
| "collect_verifiers F tid ((atype, v) # rest) acc s =
     (let module = (case get_str v ''module'' of Some m \<Rightarrow> m | None \<Rightarrow> '''') in
      if module = [] then
        (Inl (''authVerifiers['' @ quoted atype @ ''] needs a module''), s)
      else case ensure_client F tid module s of
        (Inr _, s1) \<Rightarrow> collect_verifiers F tid rest (AList.update atype (module, jget v ''config'') acc) s1
      | (Inl e, s1) \<Rightarrow> (Inl (''authVerifiers['' @ quoted atype @ '']: '' @ e), s1))"

definition parse_verifiers ::
  "'w ffi \<Rightarrow> nat \<Rightarrow> json option
     \<Rightarrow> ('w gstate, (string \<times> (string \<times> json option)) list) call" where
  "parse_verifiers F tid v s =
     (case v of
        None \<Rightarrow> (Inr [], s)
      | Some JNull \<Rightarrow> (Inr [], s)
      | Some (JObj m) \<Rightarrow> collect_verifiers F tid m [] s
      | Some _ \<Rightarrow> (Inl ''authVerifiers must be an object of {type: {module, config?}}'', s))"

text \<open>Lines 110-119: merge the persisted nullifiers, then replace the configuration.\<close>

definition merge_nullifiers :: "'w ffi \<Rightarrow> crates \<Rightarrow> string \<Rightarrow> 'w gstate \<Rightarrow> 'w gstate" where
  "merge_nullifiers F C path s =
     s\<lparr>consumed_nullifiers := Some (consumed s \<union> load_nullifiers F C path s)\<rparr>"

definition install_cfg :: "'w ffi \<Rightarrow> crates \<Rightarrow> server_cfg \<Rightarrow> 'w gstate \<Rightarrow> 'w gstate" where
  "install_cfg F C cfg s = (merge_nullifiers F C (nullifiers_path cfg) s)\<lparr>server := Some cfg\<rparr>"

text \<open>Lines 123-129: mount and spawn the worker once.\<close>

definition mount_once :: "'w ffi \<Rightarrow> crates \<Rightarrow> nat \<Rightarrow> ('w gstate, unit) call" where
  "mount_once F C tid s =
     (if serving s then (Inr (), s)
      else
        case call_libp2p F C tid ''mountProtocol'' (JArr [JStr RLN_GIFTER_CODEC]) MOUNT_TIMEOUT_MS
               (s\<lparr>serving := True\<rparr>) of
          (Inr _, s1) \<Rightarrow> (Inr (), s1\<lparr>workers := Suc (workers s1)\<rparr>)
        | (Inl e, s1) \<Rightarrow> (Inl (''mountProtocol: '' @ e), s1\<lparr>serving := False\<rparr>))"

definition serve :: "'w ffi \<Rightarrow> crates \<Rightarrow> nat \<Rightarrow> string \<Rightarrow> ('w gstate, json) call" where
  "serve F C tid args_json =
     call_then
       (call_lift
         (case from_str C args_json of
            Inl e \<Rightarrow> Inl (''serve args: '' @ e)
          | Inr a \<Rightarrow>
              try_then (some_or (get_str a ''config'') ''missing config'') (\<lambda>config.
              try_then (some_or (get_str a ''wallet'') ''missing wallet'') (\<lambda>wallet.
                Inr (a, config, wallet)))))
       (\<lambda>(a, config, wallet).
          let max_rate = (case get_u64 a ''maxRateLimit'' of Some n \<Rightarrow> n | None \<Rightarrow> DEFAULT_MAX_RATE);
              path = (case get_str a ''consumedNullifiersPath'' of Some p \<Rightarrow> p | None \<Rightarrow> '''') in
          call_then (parse_verifiers F tid (jget a ''authVerifiers''))
            (\<lambda>verifiers s.
               call_then (mount_once F C tid)
                 (\<lambda>_. call_lift (Inr (JObj [(''mounted'', JBool True)])))
                 (install_cfg F C
                    \<lparr>config = config, wallet = wallet, auth_verifiers = verifiers,
                     nullifiers_path = path, max_rate_limit = max_rate\<rparr> s)))"

section \<open>Registration\<close>

datatype register_error = NotSubmitted string | Unconfirmed string

fun register_error_message :: "register_error \<Rightarrow> string" where
  "register_error_message (NotSubmitted m) = m"
| "register_error_message (Unconfirmed m) = m"

definition confirmed_leaf :: "json \<Rightarrow> u64 option" where
  "confirmed_leaf reply =
     (if get_bool reply ''registered'' \<noteq> Some True then None else get_u64 reply ''leaf_index'')"

text \<open>The transaction hash nested in the reply of \<open>register_member\<close>; empty where it is missing.\<close>

definition tx_hash_of :: "crates \<Rightarrow> json \<Rightarrow> bytes" where
  "tx_hash_of C reply =
     (case get_str reply ''tx_result'' of
        None \<Rightarrow> []
      | Some tx_result \<Rightarrow>
          (case from_str C tx_result of
             Inl _ \<Rightarrow> []
           | Inr inner \<Rightarrow>
               (case get_str inner ''tx_hash'' of
                  None \<Rightarrow> []
                | Some txh \<Rightarrow> (case hex_dec C (trim_0x txh) of Inr b \<Rightarrow> b | Inl _ \<Rightarrow> []))))"

definition unconfirmed_message :: "crates \<Rightarrow> bytes \<Rightarrow> string" where
  "unconfirmed_message C tx =
     ''registration submitted (tx '' @ hex_enc C tx @ '') but not on chain within ''
     @ dec (CONFIRM_BUDGET div 10 ^ 9) @ ''s; it may still land''"

definition get_membership_args :: "server_cfg \<Rightarrow> string \<Rightarrow> json" where
  "get_membership_args cfg idc_hex = JArr [JStr (config cfg), JStr idc_hex]"

definition granted :: "server_cfg \<Rightarrow> u64 \<Rightarrow> bytes \<Rightarrow> membership_allocation_success" where
  "granted cfg leaf tx =
     \<lparr>leaf_index = leaf, merkle_root = [], block_number = 0, transaction_hash = tx,
      config_account_id = Some (config cfg)\<rparr>"

partial_function (option) confirm_loop ::
  "'w ffi \<Rightarrow> crates \<Rightarrow> nat \<Rightarrow> server_cfg \<Rightarrow> string \<Rightarrow> bytes \<Rightarrow> nat \<Rightarrow> 'w gstate
     \<Rightarrow> ((register_error + membership_allocation_success) \<times> 'w gstate) option" where
  "confirm_loop F C tid cfg idc_hex tx deadline s =
     (case call_module_json F C tid RLN_MODULE ''get_membership'' (get_membership_args cfg idc_hex)
             GET_MEMBERSHIP_TIMEOUT_MS s of
        (m, s1) \<Rightarrow>
          (case (case m of Inr v \<Rightarrow> confirmed_leaf v | _ \<Rightarrow> None) of
             Some leaf \<Rightarrow> Some (Inr (granted cfg leaf tx), s1)
           | None \<Rightarrow>
               (case instant_now F (outside s1) of (now, w) \<Rightarrow>
                  if deadline \<le> now
                  then Some (Inl (Unconfirmed (unconfirmed_message C tx)), s1\<lparr>outside := w\<rparr>)
                  else confirm_loop F C tid cfg idc_hex tx deadline
                         (s1\<lparr>outside := thread_sleep F CONFIRM_POLL w\<rparr>))))"

definition register_args :: "crates \<Rightarrow> server_cfg \<Rightarrow> bytes \<Rightarrow> u64 \<Rightarrow> json" where
  "register_args C cfg id_commitment rate =
     JArr [JStr (config cfg), JStr (wallet cfg), JStr (hex_enc C id_commitment), JNum (PosInt rate)]"

definition register ::
  "'w ffi \<Rightarrow> crates \<Rightarrow> nat \<Rightarrow> server_cfg \<Rightarrow> bytes \<Rightarrow> u64 \<Rightarrow> 'w gstate
     \<Rightarrow> ((register_error + membership_allocation_success) \<times> 'w gstate) option" where
  "register F C tid cfg id_commitment rate s =
     (case call_module_json F C tid RLN_MODULE ''register_member''
             (register_args C cfg id_commitment rate) REGISTER_TIMEOUT_MS s of
        (Inl e, s1) \<Rightarrow> Some (Inl (NotSubmitted e), s1)
      | (Inr reply, s1) \<Rightarrow>
          (case instant_now F (outside s1) of (now, w) \<Rightarrow>
             confirm_loop F C tid cfg (hex_enc C id_commitment) (tx_hash_of C reply)
               (now + CONFIRM_BUDGET) (s1\<lparr>outside := w\<rparr>)))"

section \<open>Handling one request\<close>

definition failure_response :: "string \<Rightarrow> bool \<Rightarrow> string \<Rightarrow> rln_gifter_response" where
  "failure_response rid auth_ok message =
     \<lparr>resp_request_id = rid, auth_success = auth_ok, resp_error = Some message, success = None,
      failure = Some \<lparr>error_message = message\<rparr>\<rparr>"

definition effective_rate :: "server_cfg \<Rightarrow> rln_gifter_request \<Rightarrow> u64" where
  "effective_rate cfg req =
     (let rate = (case rate_limit req of Some r \<Rightarrow> r | None \<Rightarrow> DEFAULT_MAX_RATE) in
      if max_rate_limit cfg < rate then max_rate_limit cfg else rate)"

definition auth_type_of :: "rln_gifter_request \<Rightarrow> string" where
  "auth_type_of req = from_utf8_lossy (authentication_type req)"

definition verify_request_for ::
  "crates \<Rightarrow> rln_gifter_request \<Rightarrow> u64 \<Rightarrow> json option \<Rightarrow> verify_request" where
  "verify_request_for C req rate verifier_config =
     \<lparr>vr_auth_type = auth_type_of req, vr_payload_hex = hex_enc C (authentication_payload req),
      vr_id_commitment_hex = hex_enc C (identity_commitment req), vr_rate = rate,
      vr_config = verifier_config\<rparr>"

text \<open>
  Lines 229-275: the verifier module of the request's type is called and its verdict parsed. An
  early return of the handler is \<open>Inl\<close> of the response.
\<close>

definition ask_verifier ::
  "'w ffi \<Rightarrow> crates \<Rightarrow> nat \<Rightarrow> server_cfg \<Rightarrow> rln_gifter_request \<Rightarrow> u64 \<Rightarrow> 'w gstate
     \<Rightarrow> (rln_gifter_response + string \<times> verdict) \<times> 'w gstate" where
  "ask_verifier F C tid cfg req rate s =
     (case map_of (auth_verifiers cfg) (auth_type_of req) of
        None \<Rightarrow>
          (Inl (failure_response (request_id req) False
             (''unsupported authentication_type: '' @ quoted (auth_type_of req))), s)
      | Some (module, verifier_config) \<Rightarrow>
          (case js_ser C (verify_request_tree (verify_request_for C req rate verifier_config)) of
             Inl e \<Rightarrow> (Inl (failure_response (request_id req) False (''verify request: '' @ e)), s)
           | Inr verify_json \<Rightarrow>
               (case call_module_json F C tid module VERIFY_METHOD (JArr [JStr verify_json])
                       AUTH_VERIFY_TIMEOUT_MS s of
                  (r, s1) \<Rightarrow>
                    (case try_then r (parse_verdict C) of
                       Inr verdict \<Rightarrow>
                         if \<not> v_ok verdict then
                           (Inl (failure_response (request_id req) False
                              (case v_reason verdict of
                                 Some why \<Rightarrow> why | None \<Rightarrow> ''verifier rejected the request'')), s1)
                         else (Inr (module, verdict), s1)
                     | Inl e \<Rightarrow>
                         (Inl (failure_response (request_id req) False
                            (''auth verifier '' @ module @ '': '' @ e)), s1)))))"

text \<open>Lines 283-304: the verdict's nullifier, normalised and namespaced, is reserved.\<close>

definition normalize_nullifier :: "crates \<Rightarrow> string \<Rightarrow> string option" where
  "normalize_nullifier C nul =
     (let n = lowercase C (trim nul) in
      if n = [] \<or> list_ex (\<lambda>c. is_whitespace c \<or> is_control c) (chars n) then None else Some n)"

definition reserve ::
  "crates \<Rightarrow> rln_gifter_request \<Rightarrow> string \<Rightarrow> string option \<Rightarrow> 'w gstate
     \<Rightarrow> (rln_gifter_response + string option) \<times> 'w gstate" where
  "reserve C req module nullifier s =
     (case nullifier of
        None \<Rightarrow> (Inr None, s)
      | Some raw \<Rightarrow>
          (case normalize_nullifier C raw of
             None \<Rightarrow>
               (Inl (failure_response (request_id req) False
                  (''auth verifier '' @ module @ '': malformed nullifier'')), s)
           | Some n \<Rightarrow>
               let nul = auth_type_of req @ '':'' @ n;
                   S = consumed s in
               if nul \<in> S then
                 (Inl (failure_response (request_id req) False (''credential already used: '' @ nul)),
                  s\<lparr>consumed_nullifiers := Some S\<rparr>)
               else (Inr (Some nul), s\<lparr>consumed_nullifiers := Some (insert nul S)\<rparr>)))"

definition authenticate ::
  "'w ffi \<Rightarrow> crates \<Rightarrow> nat \<Rightarrow> server_cfg \<Rightarrow> rln_gifter_request \<Rightarrow> u64 \<Rightarrow> 'w gstate
     \<Rightarrow> (rln_gifter_response + string option) \<times> 'w gstate" where
  "authenticate F C tid cfg req rate s =
     (if auth_verifiers cfg = [] then (Inr None, s)
      else case ask_verifier F C tid cfg req rate s of
        (Inl resp, s1) \<Rightarrow> (Inl resp, s1)
      | (Inr (module, verdict), s1) \<Rightarrow> reserve C req module (v_nullifier verdict) s1)"

text \<open>Lines 307-342: the outcome of the registration settles the reservation and the answer.\<close>

definition settle ::
  "'w ffi \<Rightarrow> server_cfg \<Rightarrow> string option
     \<Rightarrow> (register_error + membership_allocation_success) \<Rightarrow> 'w gstate \<Rightarrow> 'w gstate" where
  "settle F cfg authorized result s =
     (case authorized of
        None \<Rightarrow> s
      | Some nul \<Rightarrow>
          (case result of
             Inr _ \<Rightarrow> append_nullifier F (nullifiers_path cfg) nul s
           | Inl (NotSubmitted _) \<Rightarrow>
               (case consumed_nullifiers s of
                  None \<Rightarrow> s
                | Some S \<Rightarrow> s\<lparr>consumed_nullifiers := Some (S - {nul})\<rparr>)
           | Inl (Unconfirmed _) \<Rightarrow> append_nullifier F (nullifiers_path cfg) nul s))"

definition answer ::
  "string \<Rightarrow> (register_error + membership_allocation_success)
     \<Rightarrow> rln_gifter_response" where
  "answer rid result =
     (case result of
        Inr g \<Rightarrow>
          \<lparr>resp_request_id = rid, auth_success = True, resp_error = None, success = Some g,
           failure = None\<rparr>
      | Inl e \<Rightarrow>
          \<lparr>resp_request_id = rid, auth_success = True, resp_error = None, success = None,
           failure = Some \<lparr>error_message = register_error_message e\<rparr>\<rparr>)"

definition handle_request ::
  "'w ffi \<Rightarrow> crates \<Rightarrow> nat \<Rightarrow> bytes \<Rightarrow> 'w gstate
     \<Rightarrow> (rln_gifter_response \<times> 'w gstate) option" where
  "handle_request F C tid buf s =
     (case request_decode buf of
        Inl e \<Rightarrow> Some (failure_response ''N/A'' False (''decode error: '' @ e), s)
      | Inr req \<Rightarrow>
          if length (identity_commitment req) \<noteq> 32 then
            Some (failure_response (request_id req) True ''identity_commitment must be 32 bytes'', s)
          else
            (case server s of
               None \<Rightarrow> Some (failure_response (request_id req) True ''gifter not configured'', s)
             | Some cfg \<Rightarrow>
                 let rate = effective_rate cfg req in
                 (case authenticate F C tid cfg req rate s of
                    (Inl resp, s1) \<Rightarrow> Some (resp, s1)
                  | (Inr authorized, s1) \<Rightarrow>
                      map_option
                        (\<lambda>(result, s2). (answer (request_id req) result, settle F cfg authorized result s2))
                        (register F C tid cfg (identity_commitment req) rate s1))))"

section \<open>The stream and the worker\<close>

definition handle_stream ::
  "'w ffi \<Rightarrow> crates \<Rightarrow> nat \<Rightarrow> u64 \<Rightarrow> 'w gstate \<Rightarrow> ((string + unit) \<times> 'w gstate) option" where
  "handle_stream F C tid stream_id s =
     (case call_libp2p F C tid ''streamReadLpJson''
             (blob C (JObj [(''maxSize'', JNum (PosInt MAX_RPC_SIZE)),
                            (''streamId'', JNum (PosInt stream_id)),
                            (''timeoutMs'', jint READ_TIMEOUT_MS)]))
             (READ_TIMEOUT_MS + 10000) s of
        (Inl e, s1) \<Rightarrow> Some (Inl e, s1)
      | (Inr read, s1) \<Rightarrow>
          (case try_then (some_or (get_str read ''dataB64'') ''streamReadLpJson: no dataB64'') (b64_decode C) of
             Inl e \<Rightarrow> Some (Inl e, s1)
           | Inr req_bytes \<Rightarrow>
               Option.bind (handle_request F C tid req_bytes s1) (\<lambda>(resp, s2).
                 let s3 = snd (call_libp2p F C tid ''streamWriteLpJson''
                            (blob C (JObj [(''dataB64'', JStr (b64 C (response_encode resp))),
                                           (''streamId'', JNum (PosInt stream_id))]))
                            (WRITE_TIMEOUT_MS + 10000) s2);
                     s4 = snd (call_libp2p F C tid ''streamReleaseJson''
                            (blob C (JObj [(''streamId'', JNum (PosInt stream_id))])) 10000 s3)
                 in Some (Inr (), s4))))"

text \<open>One turn of \<open>worker_loop\<close>; an accept that times out or carries no stream id only polls again.\<close>

definition worker_turn :: "'w ffi \<Rightarrow> crates \<Rightarrow> nat \<Rightarrow> 'w gstate \<Rightarrow> 'w gstate option" where
  "worker_turn F C tid s =
     (case call_libp2p F C tid ''protocolAcceptStream''
             (blob C (JObj [(''proto'', JStr RLN_GIFTER_CODEC), (''timeoutMs'', jint ACCEPT_TIMEOUT_MS)]))
             ACCEPT_TIMEOUT_MS s of
        (accept, s1) \<Rightarrow>
          (case (case accept of Inr v \<Rightarrow> get_u64 v ''streamId'' | _ \<Rightarrow> None) of
             None \<Rightarrow> Some s1
           | Some stream_id \<Rightarrow> map_option snd (handle_stream F C tid stream_id s1)))"

text \<open>The first \<open>n\<close> turns of the loop.\<close>

fun worker_loop :: "'w ffi \<Rightarrow> crates \<Rightarrow> nat \<Rightarrow> nat \<Rightarrow> 'w gstate \<Rightarrow> 'w gstate option" where
  "worker_loop F C tid 0 s = Some s"
| "worker_loop F C tid (Suc n) s = Option.bind (worker_turn F C tid s) (worker_loop F C tid n)"

end
