(* ===== verification/Sample_World.thy ===== *)
theory Sample_World
  imports Server Sample_Codec
begin

text \<open>
  A small concrete world for the witnesses of the gifter's theorems: a clock that counts
  nanoseconds, a host that answers every call by its method, and codecs that know the few texts
  that are exchanged.
\<close>

definition sample_parse :: "string \<Rightarrow> string + json" where
  "sample_parse s =
     (if s = ''V'' then Inr (verdict_tree (verdict_accept (Some ''Ab'')))
      else if s = ''R'' then Inr (JObj [(''tx_result'', JStr ''T'')])
      else if s = ''T'' then Inr (JObj [(''tx_hash'', JStr ''0x'')])
      else if s = ''M'' then Inr (JObj [(''leaf_index'', JNum (PosInt 7)), (''registered'', JBool True)])
      else if s = ''S'' then Inr (JObj [(''config'', JStr ''cfg''), (''wallet'', JStr ''w''),
        (''authVerifiers'', JObj [(''t'', JObj [(''module'', JStr ''v'')])]),
        (''consumedNullifiersPath'', JStr ''p''), (''maxRateLimit'', JNum (PosInt 50))])
      else Inl ''syntax'')"

definition sample_crates :: crates where
  "sample_crates =
     \<lparr>js_parse = sample_parse, js_print = (\<lambda>_. ''J''), js_ser = (\<lambda>_. Inr ''Q''),
      de_error = (\<lambda>_ _. ''bad''), hex_enc = sample_hex_enc, hex_dec = sample_hex_dec,
      b64_enc = sample_hex_enc, b64_dec = sample_hex_dec, ucd_lower = id\<rparr>"

definition sample_reply :: "string \<Rightarrow> string" where
  "sample_reply m =
     (if m = VERIFY_METHOD then ''V'' else if m = ''register_member'' then ''R''
      else if m = ''get_membership'' then ''M'' else [])"

definition sample_ffi :: "nat ffi" where
  "sample_ffi =
     \<lparr>lp_client_create = (\<lambda>_ w. (9, w)),
      lp_invoke = (\<lambda>_ m _ _ w. ((0, Some (as_bytes (sample_reply m)), None), w + 1)),
      lp_invoke_async = (\<lambda>_ m _ _ w. ((0, Some (1, Some (as_bytes (sample_reply m)))), w + 1)),
      instant_now = (\<lambda>w. (w, w)),
      thread_sleep = (\<lambda>d w. w + d),
      fs_readable = (\<lambda>_ _. True),
      fs_append = (\<lambda>_ d _. Some (length (as_bytes d)))\<rparr>"

definition sample_cfg :: server_cfg where
  "sample_cfg =
     \<lparr>config = ''cfg'', wallet = ''w'', auth_verifiers = [(''t'', ''v'', None)], nullifiers_path = ''p'',
      max_rate_limit = 50\<rparr>"

definition sample_state :: "nat gstate" where
  "sample_state =
     \<lparr>clients = Some [RLN_MODULE \<mapsto> 1, LIBP2P_MODULE \<mapsto> 2, ''v'' \<mapsto> 3], owner = Some 0,
      server = Some sample_cfg, consumed_nullifiers = None, serving = True, files = Map.empty,
      workers = 1, calls = [], outside = 0\<rparr>"

definition world_request :: rln_gifter_request where
  "world_request =
     \<lparr>request_id = ''gift-0101010101010101'', authentication_type = as_bytes ''t'', authentication_payload = [],
      identity_commitment = replicate 32 1, rate_limit = Some 60\<rparr>"

lemmas sample_defs = sample_crates_def sample_parse_def sample_ffi_def sample_reply_def
  sample_cfg_def sample_state_def world_request_def

section \<open>Its codecs and calls\<close>

lemma sample_crates_laws: "hex_laws sample_crates" "b64_laws sample_crates"
  using sample_codec_laws(1) [of sample_crates] sample_codec_laws(2) [of sample_crates]
  by (simp_all add: sample_crates_def hex_laws_def b64_laws_def)

lemma world_request_short: "length (request_encode world_request) < vec_limit"
  using length_field_bytes_le(1) [of 1 "as_bytes ''gift-0101010101010101''"]
    length_field_bytes_le(1) [of 2 "as_bytes ''t''"] length_field_bytes_le(1) [of 3 "[]"]
    length_field_bytes_le(1) [of 4 "replicate 32 1"] length_field_bytes_le(2) [of 5 60]
  by (simp add: request_encode_fields request_fields_def world_request_def vec_limit_def
      del: field_bytes.simps)

lemma world_request_decodes: "request_decode (request_encode world_request) = Inr world_request"
  by (rule request_msg.decode_encode [OF _ world_request_short])
     (simp add: world_request_def request_wf_def valid_str_ascii)

lemma sample_text: "c_str (Some (as_bytes (sample_reply m))) = sample_reply m"
proof -
  have "valid_str (sample_reply m)" by (simp add: sample_reply_def valid_str_ascii)
  then show ?thesis by (simp add: c_str_def)
qed

lemma sample_call:
  assumes "on_owner_thread tid s = False" and "clients s = clients sample_state"
    and "target \<in> {RLN_MODULE, LIBP2P_MODULE, ''v''}" and "cstring_ok method"
  shows "call_json sample_ffi sample_crates tid target method a t s
     = (Inr (parse_ok sample_crates (sample_reply method)),
        s\<lparr>calls := calls s @ [(target, method, a, t)], outside := outside s + 1\<rparr>)"
proof -
  from assms(3) obtain p where "client_table s target = Some p"
    by (auto simp: client_table_def assms(2) sample_state_def RLN_MODULE_def LIBP2P_MODULE_def)
  moreover have "on_owner_thread tid (s\<lparr>calls := x\<rparr>) = False" for x
    using assms(1) by (simp add: on_owner_thread_def)
  moreover have "cstring_ok (js_print sample_crates a)" by (simp add: sample_crates_def cstring_ok_def)
  ultimately show ?thesis
    using assms(1,4) by (simp add: call_json_def client_ptr_off_owner Let_def sample_ffi_def
        reply_trampoline_def sample_text)
qed

section \<open>The sample request, evaluated\<close>

lemma auth_type_world: "auth_type_of world_request = ''t''"
  by (simp add: auth_type_of_def world_request_def valid_str_ascii del: as_bytes_simps)

lemma char_of_97: "char_of (97::nat) = CHR ''a''"
  by code_simp

lemma sample_norm: "normalize_nullifier sample_crates ''Ab'' = Some ''ab''"
  by (simp add: normalize_nullifier_def Let_def trim_ascii trim_by_def lowercase_def to_lowercase_def chars_ascii is_whitespace_def is_control_def ascii_lower_def char_of_97)

abbreviation sample_log :: "module_call list" where
  "sample_log \<equiv> [(''v'', VERIFY_METHOD, JArr [JStr ''Q''], AUTH_VERIFY_TIMEOUT_MS),
     (RLN_MODULE, ''register_member'', register_args sample_crates sample_cfg (replicate 32 1) 50,
       REGISTER_TIMEOUT_MS),
     (RLN_MODULE, ''get_membership'', get_membership_args sample_cfg (hex_enc sample_crates (replicate 32 1)), GET_MEMBERSHIP_TIMEOUT_MS)]"

definition sample_after :: "nat gstate" where
  "sample_after = sample_state\<lparr>consumed_nullifiers := Some {''t:ab''},
     files := [''p'' \<mapsto> as_bytes (''t:ab'' @ [CHR 0x0A])], calls := sample_log, outside := 3\<rparr>"

lemma sample_off [simp]: "on_owner_thread 5 sample_state = False"
  by (simp add: on_owner_thread_def sample_state_def)

lemma sample_verify_call:
  assumes "clients s = clients sample_state" "on_owner_thread 5 s = False"
  shows "call_module_json sample_ffi sample_crates 5 ''v'' VERIFY_METHOD a t s
     = (Inr (json_value (verdict_tree (verdict_accept (Some ''Ab'')))),
        s\<lparr>calls := calls s @ [(''v'', VERIFY_METHOD, a, t)], outside := outside s + 1\<rparr>)"
  by (simp add: call_module_json_def call_then_def call_lift_def sample_call assms VERIFY_METHOD_def cstring_ok_def)
     (simp add: sample_reply_def VERIFY_METHOD_def parse_ok_def from_str_def sample_crates_def
       sample_parse_def unwrap_object verdict_is_object)

lemma sample_authenticate:
  "authenticate sample_ffi sample_crates 5 sample_cfg world_request 50 sample_state
     = (Inr (Some ''t:ab''), sample_state\<lparr>consumed_nullifiers := Some {''t:ab''},
         calls := [hd sample_log], outside := 1\<rparr>)"
  using sample_verify_call [of sample_state]
  by (simp add: authenticate_def ask_verifier_def auth_type_world sample_cfg_def sample_crates_def
      parse_verdict_tree reserve_def sample_norm [unfolded sample_crates_def] Let_def
      verdict_accept_def consumed_def sample_state_def on_owner_thread_def)

lemma sample_register:
  assumes "clients s = clients sample_state" "on_owner_thread 5 s = False"
  shows "register sample_ffi sample_crates 5 sample_cfg (replicate 32 1) 50 s
     = Some (Inr (granted sample_cfg 7 []),
         s\<lparr>calls := calls s @ tl sample_log, outside := outside s + 2\<rparr>)"
proof -
  have o: "on_owner_thread 5 (s\<lparr>calls := x, outside := w\<rparr>) = False" for x w
    using assms by (simp add: on_owner_thread_def)
  have r: "call_module_json sample_ffi sample_crates 5 RLN_MODULE ''register_member'' a t s
     = (Inr (JObj [(''tx_result'', JStr ''T'')]),
        s\<lparr>calls := calls s @ [(RLN_MODULE, ''register_member'', a, t)], outside := outside s + 1\<rparr>)" for a t
    by (simp add: call_module_json_def call_then_def call_lift_def sample_call assms cstring_ok_def)
       (simp add: sample_reply_def VERIFY_METHOD_def parse_ok_def from_str_def sample_crates_def
         sample_parse_def unwrap_object json_value.simps(6))
  have g: "call_module_json sample_ffi sample_crates 5 RLN_MODULE ''get_membership'' a t s'
     = (Inr (JObj [(''leaf_index'', JNum (PosInt 7)), (''registered'', JBool True)]),
        s'\<lparr>calls := calls s' @ [(RLN_MODULE, ''get_membership'', a, t)], outside := outside s' + 1\<rparr>)"
    if "clients s' = clients sample_state" "on_owner_thread 5 s' = False" for a t s'
    by (simp add: call_module_json_def call_then_def call_lift_def sample_call that cstring_ok_def)
       (simp add: sample_reply_def VERIFY_METHOD_def parse_ok_def from_str_def sample_crates_def
         sample_parse_def unwrap_object json_value.simps(6))
  have i: "instant_now sample_ffi w = (w, w)" for w by (simp add: sample_ffi_def)
  have x: "tx_hash_of sample_crates (JObj [(''tx_result'', JStr ''T'')]) = []"
    by (simp add: sample_crates_def tx_hash_of_def from_str_def sample_parse_def json_value.simps(6))
  show ?thesis
    by (simp add: register_def r i x, subst confirm_loop.simps) (simp add: g assms o confirmed_leaf_def)
qed

lemma sample_run:
  "handle_request sample_ffi sample_crates 5 (request_encode world_request) sample_state
     = Some (answer (request_id world_request) (Inr (granted sample_cfg 7 [])), sample_after)"
proof -
  have "effective_rate sample_cfg world_request = 50"
    by (simp add: effective_rate_def sample_cfg_def world_request_def)
  moreover have "identity_commitment world_request = replicate 32 1"
    "server sample_state = Some sample_cfg"
    by (simp_all add: world_request_def sample_state_def)
  moreover have "on_owner_thread 5 (sample_state\<lparr>consumed_nullifiers := c, calls := x, outside := w\<rparr>) = False" for c x w
    by (simp add: on_owner_thread_def sample_state_def)
  ultimately show ?thesis
    by (simp add: handle_request_def world_request_decodes sample_authenticate sample_register)
       (simp add: settle_def append_nullifier_def sample_after_def sample_ffi_def Let_def
         sample_state_def sample_cfg_def)
qed

end
