(* ===== verification/Server_Correct.thy ===== *)
theory Server_Correct
  imports Sample_World
begin

text \<open>
  Correctness of the gifter node: what a request may change, when it may register, how its
  credential is reserved and settled, that the confirmation loop returns, and what \<open>serve\<close> accepts.
\<close>

section \<open>Frames\<close>

lemma call_frame_core: "call_frame c s s' \<Longrightarrow> core s' = core s"
  by (simp add: call_frame_def)

definition is_register_call :: "module_call \<Rightarrow> bool" where
  "is_register_call c \<longleftrightarrow> fst (snd c) = ''register_member''"

definition register_calls :: "'w gstate \<Rightarrow> module_call list" where
  "register_calls s = filter is_register_call (calls s)"

lemma call_frame_register_calls:
  "call_frame c s s' \<Longrightarrow> \<not> is_register_call c \<Longrightarrow> register_calls s' = register_calls s"
  by (auto simp: call_frame_def register_calls_def)

lemma register_calls_update [simp]:
  "register_calls (s\<lparr>outside := w\<rparr>) = register_calls s"
  "register_calls (s\<lparr>consumed_nullifiers := c\<rparr>) = register_calls s"
  "register_calls (s\<lparr>files := f\<rparr>) = register_calls s"
  by (simp_all add: register_calls_def)

text \<open>The registry has answered that the commitment is registered, at this leaf.\<close>

definition chain_reports :: "'w ffi \<Rightarrow> crates \<Rightarrow> nat \<Rightarrow> server_cfg \<Rightarrow> string \<Rightarrow> u64 \<Rightarrow> bool" where
  "chain_reports F C tid cfg idc leaf \<longleftrightarrow>
     (\<exists>s reply s'. call_module_json F C tid RLN_MODULE ''get_membership'' (get_membership_args cfg idc)
          GET_MEMBERSHIP_TIMEOUT_MS s = (Inr reply, s')
        \<and> get_bool reply ''registered'' = Some True \<and> get_u64 reply ''leaf_index'' = Some leaf)"

lemma chain_reportsI:
  "call_module_json F C tid RLN_MODULE ''get_membership'' (get_membership_args cfg idc)
     GET_MEMBERSHIP_TIMEOUT_MS s = (Inr reply, s') \<Longrightarrow> confirmed_leaf reply = Some leaf \<Longrightarrow>
   chain_reports F C tid cfg idc leaf"
  by (auto simp: chain_reports_def confirmed_leaf_def split: if_splits)

abbreviation ask_membership ::
  "'w ffi \<Rightarrow> crates \<Rightarrow> nat \<Rightarrow> server_cfg \<Rightarrow> string \<Rightarrow> ('w gstate, json) call" where
  "ask_membership F C tid cfg idc \<equiv> call_module_json F C tid RLN_MODULE ''get_membership''
     (get_membership_args cfg idc) GET_MEMBERSHIP_TIMEOUT_MS"

text \<open>Induction over the polls of a confirmation loop that returns.\<close>

lemma confirm_loop_induct [consumes 1, case_names confirmed expired again]:
  assumes "confirm_loop F C tid cfg idc tx deadline s = Some (r, s')"
    and confirmed: "\<And>s v s1 leaf. ask_membership F C tid cfg idc s = (Inr v, s1) \<Longrightarrow> confirmed_leaf v = Some leaf \<Longrightarrow>
      P s (Inr (granted cfg leaf tx)) s1"
    and expired: "\<And>s m s1 w. ask_membership F C tid cfg idc s = (m, s1) \<Longrightarrow>
      P s (Inl (Unconfirmed (unconfirmed_message C tx))) (s1\<lparr>outside := w\<rparr>)"
    and again: "\<And>s m s1 w r s'. ask_membership F C tid cfg idc s = (m, s1) \<Longrightarrow> P (s1\<lparr>outside := w\<rparr>) r s' \<Longrightarrow> P s r s'"
  shows "P s r s'"
proof -
  let ?P = "\<lambda>F' C' tid' cfg' idc' tx' dl' s (r, s').
    (F', C', tid', cfg', idc', tx', dl') = (F, C, tid, cfg, idc, tx, deadline) \<longrightarrow> P s r s'"
  have "?P F C tid cfg idc tx deadline s (r, s')"
  proof (rule confirm_loop.raw_induct [where P = ?P, OF _ assms(1)], unfold case_prod_unfold, intro impI, goal_cases)
    case (1 loop F' C' tid' cfg' idc' tx' dl' s y)
    then have same: "F' = F" "C' = C" "tid' = tid" "cfg' = cfg" "idc' = idc" "tx' = tx" "dl' = deadline" by simp_all
    obtain m s1 where c: "ask_membership F C tid cfg idc s = (m, s1)" by fastforce
    obtain now w where n: "instant_now F (outside s1) = (now, w)" by fastforce
    show ?case
    proof (cases "case m of Inr v \<Rightarrow> confirmed_leaf v | _ \<Rightarrow> None")
      case (Some leaf)
      then obtain v where "m = Inr v" "confirmed_leaf v = Some leaf" by (auto split: sum.splits)
      with 1(2) c confirmed [of s v s1 leaf] show ?thesis by (auto simp: same)
    next
      case None
      with 1(2) c n have "y = (Inl (Unconfirmed (unconfirmed_message C tx)), s1\<lparr>outside := w\<rparr>)
        \<or> loop F C tid cfg idc tx deadline (s1\<lparr>outside := thread_sleep F CONFIRM_POLL w\<rparr>) = Some y"
        by (auto simp: same split: if_splits)
      with 1(1) expired [OF c] again [OF c] show ?thesis by fastforce
    qed
  qed
  then show ?thesis by simp
qed

lemma ask_membership_frame:
  assumes "ask_membership F C tid cfg idc s = (m, s1)"
  shows "core s1 = core s" "register_calls s1 = register_calls s"
proof -
  have "call_frame (RLN_MODULE, ''get_membership'', get_membership_args cfg idc, GET_MEMBERSHIP_TIMEOUT_MS) s s1"
    using call_module_json_frame [of RLN_MODULE "''get_membership''"] assms by (metis snd_conv)
  then show "core s1 = core s" "register_calls s1 = register_calls s"
    by (auto dest: call_frame_core call_frame_register_calls simp: is_register_call_def)
qed

lemma confirm_loop_result:
  assumes "confirm_loop F C tid cfg idc tx deadline s = Some (r, s')"
  shows "core s' = core s \<and> register_calls s' = register_calls s
    \<and> ((\<exists>leaf. r = Inr (granted cfg leaf tx) \<and> chain_reports F C tid cfg idc leaf)
       \<or> r = Inl (Unconfirmed (unconfirmed_message C tx)))"
  using assms
proof (induction rule: confirm_loop_induct)
  case (confirmed s v s1 leaf)
  with chain_reportsI [OF confirmed] ask_membership_frame [OF confirmed(1)] show ?case by blast
next
  case (expired s m s1 w)
  then show ?case by (simp add: ask_membership_frame)
next
  case (again s m s1 w r s')
  then show ?case by (simp add: ask_membership_frame)
qed

text \<open>
  A registration leaves the module's own state alone and calls \<open>register_member\<close> at most once; it
  counts as submitted unless that call failed.
\<close>

abbreviation register_call :: "crates \<Rightarrow> server_cfg \<Rightarrow> bytes \<Rightarrow> u64 \<Rightarrow> module_call" where
  "register_call C cfg idc rate \<equiv>
     (RLN_MODULE, ''register_member'', register_args C cfg idc rate, REGISTER_TIMEOUT_MS)"

fun submitted :: "register_error + membership_allocation_success \<Rightarrow> bool" where
  "submitted (Inl (NotSubmitted _)) = False"
| "submitted _ = True"

lemma register_cases:
  assumes "register F C tid cfg idc rate s = Some (r, s')"
  obtains (not_submitted) e where "r = Inl (NotSubmitted e)" "core s' = core s"
      "register_calls s' = register_calls s
        \<or> register_calls s' = register_calls s @ [register_call C cfg idc rate]"
  | (submitted) "submitted r" "core s' = core s"
      "register_calls s' = register_calls s @ [register_call C cfg idc rate]"
      "(\<exists>leaf tx. r = Inr (granted cfg leaf tx) \<and> chain_reports F C tid cfg (hex_enc C idc) leaf) \<or> (\<exists>tx. r = Inl (Unconfirmed (unconfirmed_message C tx)))"
proof -
  obtain m s1 where c: "call_module_json F C tid RLN_MODULE ''register_member''
      (register_args C cfg idc rate) REGISTER_TIMEOUT_MS s = (m, s1)" by fastforce
  have fr: "call_frame (register_call C cfg idc rate) s s1"
    using call_module_json_frame [of RLN_MODULE "''register_member''"] c by (metis snd_conv)
  show thesis
  proof (cases m)
    case (Inl e)
    with assms c fr not_submitted show ?thesis
      by (auto simp: register_def call_frame_def register_calls_def is_register_call_def)
  next
    case (Inr reply)
    obtain now w where n: "instant_now F (outside s1) = (now, w)" by fastforce
    have "calls s1 = calls s @ [register_call C cfg idc rate]"
      using call_module_json_Ok_calls c Inr by blast
    then have rc: "register_calls s1 = register_calls s @ [register_call C cfg idc rate]"
      by (simp add: register_calls_def is_register_call_def)
    from assms c Inr n have "confirm_loop F C tid cfg (hex_enc C idc) (tx_hash_of C reply)
        (now + CONFIRM_BUDGET) (s1\<lparr>outside := w\<rparr>) = Some (r, s')"
      by (simp add: register_def)
    from confirm_loop_result [OF this] rc call_frame_core [OF fr] show ?thesis
      by (intro submitted) auto
  qed
qed

lemma ask_verifier_frame:
  assumes "ask_verifier F C tid cfg req rate s = (r, s')"
  shows "core s' = core s" "register_calls s' = register_calls s"
proof -
  have nr: "\<not> is_register_call (m, VERIFY_METHOD, a, t)" for m a t
    by (simp add: is_register_call_def VERIFY_METHOD_def)
  have "call_frame (m, VERIFY_METHOD, a, t) s (snd (call_module_json F C tid m VERIFY_METHOD a t s))" for m a t
    by (rule call_module_json_frame)
  then have f: "core s2 = core s" "register_calls s2 = register_calls s"
    if "call_module_json F C tid m VERIFY_METHOD a t s = (x, s2)" for m a t x s2
    using that nr by (metis call_frame_core snd_conv, metis call_frame_register_calls snd_conv)
  show "core s' = core s" "register_calls s' = register_calls s"
    using assms f by (auto simp: ask_verifier_def split: option.splits prod.splits sum.splits if_splits)
qed

text \<open>
  What a successful authentication has established: a verdict of acceptance from the verifier
  configured for the request's type, and, where the verdict names a nullifier, a well-formed one
  that was not spent and is now reserved.
\<close>

definition verdict_from ::
  "'w ffi \<Rightarrow> crates \<Rightarrow> nat \<Rightarrow> server_cfg \<Rightarrow> rln_gifter_request \<Rightarrow> u64 \<Rightarrow> 'w gstate \<Rightarrow> verdict \<Rightarrow> bool" where
  "verdict_from F C tid cfg req rate s vd \<longleftrightarrow>
     (\<exists>module vc text reply s1.
        map_of (auth_verifiers cfg) (auth_type_of req) = Some (module, vc)
        \<and> js_ser C (verify_request_tree (verify_request_for C req rate vc)) = Inr text
        \<and> call_module_json F C tid module VERIFY_METHOD (JArr [JStr text]) AUTH_VERIFY_TIMEOUT_MS s
            = (Inr reply, s1)
        \<and> parse_verdict C reply = Inr vd)"

definition credential :: "crates \<Rightarrow> rln_gifter_request \<Rightarrow> string \<Rightarrow> string option" where
  "credential C req raw = map_option (\<lambda>n. auth_type_of req @ '':'' @ n) (normalize_nullifier C raw)"

lemma ask_verifier_accepts:
  "ask_verifier F C tid cfg req rate s = (Inr (module, vd), s') \<Longrightarrow>
     verdict_from F C tid cfg req rate s vd \<and> v_ok vd"
  by (auto simp: ask_verifier_def verdict_from_def try_then_eq_Inr
      split: option.splits prod.splits sum.splits if_splits)

lemma reserve_cases:
  assumes "reserve C req module nullifier s = (r, s')"
  obtains (none) "nullifier = None" "r = Inr None" "s' = s"
  | (reserved) raw nul where "nullifier = Some raw" "credential C req raw = Some nul"
      "r = Inr (Some nul)" "nul \<notin> consumed s"
      "s' = s\<lparr>consumed_nullifiers := Some (insert nul (consumed s))\<rparr>"
  | (refused) resp where "r = Inl resp" "s' = s \<or> s' = s\<lparr>consumed_nullifiers := Some (consumed s)\<rparr>"
proof (cases nullifier)
  case None
  with assms none show thesis by (simp add: reserve_def)
next
  case (Some raw)
  show thesis
  proof (cases "normalize_nullifier C raw")
    case None
    with assms Some show thesis by (intro refused) (auto simp: reserve_def)
  next
    case (Some n)
    let ?nul = "auth_type_of req @ '':'' @ n"
    note eqs = \<open>nullifier = Some raw\<close> Some
    show thesis
    proof (cases "?nul \<in> consumed s")
      case True
      with assms eqs show thesis by (intro refused) (auto simp: reserve_def Let_def)
    next
      case False
      with assms eqs show thesis
        by (intro reserved [of raw ?nul]) (auto simp: reserve_def Let_def credential_def)
    qed
  qed
qed

lemma consumed_core: "core s' = core s \<Longrightarrow> consumed s' = consumed s"
  by (simp add: consumed_def core_def)

lemma authenticate_cases:
  assumes "authenticate F C tid cfg req rate s = (r, s')"
  obtains (open_gifter) "auth_verifiers cfg = []" "r = Inr None" "s' = s"
  | (unnamed) vd where "auth_verifiers cfg \<noteq> []" "verdict_from F C tid cfg req rate s vd" "v_ok vd"
      "v_nullifier vd = None" "r = Inr None" "core s' = core s" "register_calls s' = register_calls s"
  | (named) vd raw nul where "auth_verifiers cfg \<noteq> []" "verdict_from F C tid cfg req rate s vd" "v_ok vd"
      "v_nullifier vd = Some raw" "credential C req raw = Some nul" "nul \<notin> consumed s"
      "r = Inr (Some nul)" "consumed s' = insert nul (consumed s)" "files s' = files s"
      "consumed_nullifiers s' \<noteq> None" "server s' = server s" "register_calls s' = register_calls s"
  | (refused) resp where "r = Inl resp" "consumed s' = consumed s" "files s' = files s"
      "server s' = server s" "register_calls s' = register_calls s"
proof (cases "auth_verifiers cfg = []")
  case True
  with assms open_gifter show thesis by (simp add: authenticate_def)
next
  case False
  obtain a s1 where a: "ask_verifier F C tid cfg req rate s = (a, s1)" by fastforce
  note f = ask_verifier_frame [OF a]
  note fs = coreD [OF f(1)] consumed_core [OF f(1)] f
  show thesis
  proof (cases a)
    case (Inl resp)
    with assms a False have "r = Inl resp" "s' = s1" by (simp_all add: authenticate_def)
    with fs show thesis by (intro refused [of resp]) simp_all
  next
    case (Inr mv)
    obtain module vd where mv: "mv = (module, vd)" by fastforce
    have v: "verdict_from F C tid cfg req rate s vd" "v_ok vd"
      using ask_verifier_accepts a Inr mv by blast+
    have r: "reserve C req module (v_nullifier vd) s1 = (r, s')"
      using assms a Inr mv False by (simp add: authenticate_def)
    from r show thesis
    proof (cases rule: reserve_cases)
      case none
      with unnamed [OF False v] f show thesis by simp
    next
      case (reserved raw nul)
      with fs show thesis
        by (intro named [OF False v, of raw nul]) simp_all
    next
      case (refused resp)
      then have "consumed s' = consumed s1" "files s' = files s1" "server s' = server s1"
        "register_calls s' = register_calls s1" by auto
      with refused(1) fs that(4) [of resp] show thesis by simp
    qed
  qed
qed

section \<open>One request\<close>

lemma append_nullifier_frame [simp]:
  "consumed (append_nullifier F path n s) = consumed s"
  "register_calls (append_nullifier F path n s) = register_calls s"
  "server (append_nullifier F path n s) = server s"
  "consumed_nullifiers (append_nullifier F path n s) = consumed_nullifiers s"
  by (simp_all add: append_nullifier_def Let_def split: option.split)

lemma settle_frame [simp]:
  "register_calls (settle F cfg a r s) = register_calls s" "server (settle F cfg a r s) = server s"
  by (simp_all add: settle_def split: option.split sum.split register_error.split)

lemma settle_consumed:
  "consumed (settle F cfg (Some nul) r s) = (if submitted r then consumed s else consumed s - {nul})"
  by (simp add: settle_def consumed_def split: option.split sum.split register_error.split)

lemma settle_None [simp]: "settle F cfg None r s = s"
  by (simp add: settle_def)

lemma settle_files:
  "files (settle F cfg (Some nul) r s)
     = (if submitted r then files (append_nullifier F (nullifiers_path cfg) nul s) else files s)"
  by (simp add: settle_def split: option.split sum.split register_error.split)

lemma effective_rate_le: "effective_rate cfg req \<le> max_rate_limit cfg"
  by (simp add: effective_rate_def Let_def not_less)

text \<open>The ways a request can end.\<close>

lemma handle_request_cases:
  assumes "handle_request F C tid buf s = Some (resp, s')"
  obtains (early) rid ok msg where "resp = failure_response rid ok msg" "s' = s"
  | (refused) req cfg where "request_decode buf = Inr req" "length (identity_commitment req) = 32"
      "server s = Some cfg" "authenticate F C tid cfg req (effective_rate cfg req) s = (Inl resp, s')"
  | (registered) req cfg authorized s1 result s2 where "request_decode buf = Inr req"
      "length (identity_commitment req) = 32" "server s = Some cfg"
      "authenticate F C tid cfg req (effective_rate cfg req) s = (Inr authorized, s1)"
      "register F C tid cfg (identity_commitment req) (effective_rate cfg req) s1 = Some (result, s2)"
      "resp = answer (request_id req) result" "s' = settle F cfg authorized result s2"
proof (cases "request_decode buf")
  case (Inl e)
  with assms show thesis by (intro early) (auto simp: handle_request_def)
next
  case (Inr req)
  show thesis
  proof (cases "length (identity_commitment req) = 32 \<and> server s \<noteq> None")
    case False
    with assms Inr early show thesis by (auto simp: handle_request_def split: if_splits)
  next
    case True
    then obtain cfg where cfg: "server s = Some cfg" and l: "length (identity_commitment req) = 32"
      by auto
    obtain a s1 where a: "authenticate F C tid cfg req (effective_rate cfg req) s = (a, s1)" by fastforce
    show thesis
    proof (cases a)
      case (Inl r)
      with assms Inr l cfg a have "r = resp" "s1 = s'" by (simp_all add: handle_request_def)
      with refused [OF Inr l cfg] a Inl show thesis by simp
    next
      case (Inr authorized)
      with assms \<open>request_decode buf = Inr req\<close> l cfg a obtain result s2
        where "register F C tid cfg (identity_commitment req) (effective_rate cfg req) s1 = Some (result, s2)"
          "resp = answer (request_id req) result" "s' = settle F cfg authorized result s2"
        by (auto simp: handle_request_def)
      with registered [OF \<open>request_decode buf = Inr req\<close> l cfg] a Inr show thesis by simp
    qed
  qed
qed

text \<open>
  C1. No unauthorised registration. A request makes at most one \<open>register_member\<close> call, for its own
  32-byte commitment, paid by the configured wallet, at a rate within the operator's cap; and if the
  gifter has verifiers configured, then the verifier of the request's type, asked about exactly this
  request, has accepted it, and the credential the verdict names was well-formed and not yet spent.
\<close>

theorem registration_authorised:
  assumes "handle_request F C tid buf s = Some (resp, s')"
    and "register_calls s' \<noteq> register_calls s"
  shows "\<exists>cfg req. server s = Some cfg \<and> request_decode buf = Inr req
    \<and> length (identity_commitment req) = 32
    \<and> register_calls s' = register_calls s @
        [(RLN_MODULE, ''register_member'',
          register_args C cfg (identity_commitment req) (effective_rate cfg req), REGISTER_TIMEOUT_MS)]
    \<and> effective_rate cfg req \<le> max_rate_limit cfg
    \<and> (auth_verifiers cfg \<noteq> [] \<longrightarrow>
        (\<exists>vd. verdict_from F C tid cfg req (effective_rate cfg req) s vd \<and> v_ok vd
          \<and> (\<forall>raw. v_nullifier vd = Some raw \<longrightarrow>
               (\<exists>nul. credential C req raw = Some nul \<and> nul \<notin> consumed s))))"
  using assms(1)
proof (cases rule: handle_request_cases)
  case early
  with assms(2) show ?thesis by simp
next
  case (refused req cfg)
  from refused(4) have "register_calls s' = register_calls s"
    by (cases rule: authenticate_cases) auto
  with assms(2) show ?thesis by simp
next
  case (registered req cfg authorized s1 result s2)
  note reg = registered(5) and auth = registered(4)
  have rc1: "register_calls s1 = register_calls s"
    using auth by (cases rule: authenticate_cases) auto
  have rc2: "register_calls s' = register_calls s2" by (simp add: registered(7))
  from reg have "register_calls s2 = register_calls s1
      \<or> register_calls s2 = register_calls s1 @
        [register_call C cfg (identity_commitment req) (effective_rate cfg req)]"
    by (cases rule: register_cases) auto
  with assms(2) rc1 rc2 have rc: "register_calls s' = register_calls s @
      [register_call C cfg (identity_commitment req) (effective_rate cfg req)]" by simp
  from auth have "auth_verifiers cfg \<noteq> [] \<longrightarrow>
      (\<exists>vd. verdict_from F C tid cfg req (effective_rate cfg req) s vd \<and> v_ok vd
        \<and> (\<forall>raw. v_nullifier vd = Some raw \<longrightarrow>
             (\<exists>nul. credential C req raw = Some nul \<and> nul \<notin> consumed s)))"
    by (cases rule: authenticate_cases) fastforce+
  with registered(1-3) rc effective_rate_le show ?thesis by blast
qed

theorem registration_authorised_witness:
  "\<exists>cfg req. server sample_state = Some cfg
    \<and> request_decode (request_encode world_request) = Inr req
    \<and> length (identity_commitment req) = 32
    \<and> register_calls sample_after = register_calls sample_state @
        [(RLN_MODULE, ''register_member'',
          register_args sample_crates cfg (identity_commitment req) (effective_rate cfg req),
          REGISTER_TIMEOUT_MS)]
    \<and> effective_rate cfg req \<le> max_rate_limit cfg
    \<and> (auth_verifiers cfg \<noteq> [] \<longrightarrow>
        (\<exists>vd. verdict_from sample_ffi sample_crates 5 cfg req (effective_rate cfg req) sample_state vd
          \<and> v_ok vd \<and> (\<forall>raw. v_nullifier vd = Some raw \<longrightarrow>
               (\<exists>nul. credential sample_crates req raw = Some nul \<and> nul \<notin> consumed sample_state))))"
proof (rule registration_authorised [OF sample_run])
  show "register_calls sample_after \<noteq> register_calls sample_state"
    by (simp add: register_calls_def is_register_call_def sample_after_def sample_state_def)
qed

end
