(* ===== verification/Serve_Correct.thy ===== *)
theory Serve_Correct
  imports Server_Correct
begin

text \<open>
  Correctness of \<open>serve\<close> (\<open>server.rs\<close>): which configuration it installs, that a malformed verifier
  table never yields an open gifter, what a failed call leaves behind, and that the protocol is
  mounted and its worker spawned once.
\<close>

section \<open>The verifier table\<close>

lemma ensure_client_keeps:
  "client_table s k \<noteq> None \<Longrightarrow> client_table (snd (ensure_client F tid t s)) k \<noteq> None"
  using create_client_keeps [of s k _ F t]
  by (auto simp: ensure_client_def Let_def split: prod.split bool.split)

definition entry_of :: "json \<Rightarrow> string \<times> json option" where
  "entry_of v = (case get_str v ''module'' of Some m \<Rightarrow> m | None \<Rightarrow> '''', jget v ''config'')"

lemma collect_verifiers_Ok:
  assumes "collect_verifiers F tid m acc s = (Inr vs, s')"
  shows "vs = fold (\<lambda>(t, v). AList.update t (entry_of v)) m acc
    \<and> (\<forall>(t, v) \<in> set m. fst (entry_of v) \<noteq> [] \<and> client_table s' (fst (entry_of v)) \<noteq> None)
    \<and> (\<forall>k. client_table s k \<noteq> None \<longrightarrow> client_table s' k \<noteq> None)
    \<and> core s' = core s \<and> calls s' = calls s"
  using assms
proof (induction F tid m acc s rule: collect_verifiers.induct)
  case (2 F tid atype v rest acc s)
  let ?m = "fst (entry_of v)"
  obtain r s1 where e: "ensure_client F tid ?m s = (r, s1)" by fastforce
  from 2(2) e obtain u where r: "?m \<noteq> []" "r = Inr u"
    and rec: "collect_verifiers F tid rest (AList.update atype (entry_of v) acc) s1 = (Inr vs, s')"
    by (auto simp: Let_def entry_of_def split: if_splits sum.splits)
  have c: "client_table s1 ?m \<noteq> None" using ensure_client_adds e r by simp
  have k: "client_table s k \<noteq> None \<Longrightarrow> client_table s1 k \<noteq> None" for k
    using ensure_client_keeps [of s k F tid ?m] e by simp
  have f: "core s1 = core s" "calls s1 = calls s"
    using ensure_client_frame [of F tid ?m s] e by simp_all
  have IH: "vs = fold (\<lambda>(t, v). AList.update t (entry_of v)) rest (AList.update atype (entry_of v) acc)
    \<and> (\<forall>(t, v) \<in> set rest. fst (entry_of v) \<noteq> [] \<and> client_table s' (fst (entry_of v)) \<noteq> None)
    \<and> (\<forall>k. client_table s1 k \<noteq> None \<longrightarrow> client_table s' k \<noteq> None)
    \<and> core s' = core s1 \<and> calls s' = calls s1"
    using 2(1) [of ?m r s1 u] r e rec by (simp add: entry_of_def)
  with c k f r show ?case by auto
qed auto

lemma collect_verifiers_frame:
  "core (snd (collect_verifiers F tid m acc s)) = core s
   \<and> (client_table s k \<noteq> None \<longrightarrow> client_table (snd (collect_verifiers F tid m acc s)) k \<noteq> None)"
proof (induction F tid m acc s rule: collect_verifiers.induct)
  case (2 F tid atype v rest acc s)
  then show ?case
    using ensure_client_frame(1) [of F tid "fst (entry_of v)" s]
      ensure_client_keeps [of s k F tid "fst (entry_of v)"]
    by (auto simp: Let_def entry_of_def split: prod.split sum.split)
qed simp

lemma map_of_update_fold:
  "map_of (fold (\<lambda>(t, v). AList.update t (f v)) m acc) = map_of acc ++ map_of (rev (map (\<lambda>(t, v). (t, f v)) m))"
  by (induction m arbitrary: acc) (auto simp: update_conv' fun_eq_iff map_add_def split: option.splits)

lemma update_fold_Nil: "fold (\<lambda>(t, v). AList.update t (f v)) m acc = [] \<longleftrightarrow> m = [] \<and> acc = []"
proof (induction m arbitrary: acc)
  case (Cons a m)
  obtain t v where "a = (t, v)" by fastforce
  with Cons show ?case by simp
qed simp

lemma parse_verifiers_Ok:
  assumes "parse_verifiers F tid av s = (Inr vs, s')"
    and "\<And>m. av = Some (JObj m) \<Longrightarrow> distinct (map fst m)"
  shows "(vs = [] \<longleftrightarrow> av \<in> {None, Some JNull, Some (JObj [])})
    \<and> (\<forall>t. map_of vs t = map_option entry_of (Option.bind av (\<lambda>j. jget j t)))
    \<and> (\<forall>t m c. map_of vs t = Some (m, c) \<longrightarrow> m \<noteq> [] \<and> client_table s' m \<noteq> None)
    \<and> core s' = core s \<and> calls s' = calls s"
proof (cases av)
  case (Some a)
  show ?thesis
  proof (cases a)
    case (JObj m)
    with Some assms(1) have c: "collect_verifiers F tid m [] s = (Inr vs, s')"
      by (simp add: parse_verifiers_def)
    note ok = collect_verifiers_Ok [OF c]
    have d: "distinct (map fst m)" using assms(2) Some JObj by blast
    then have "distinct (map fst (map (\<lambda>(t, v). (t, entry_of v)) m))"
      by (simp add: comp_def split_def)
    with ok have mo: "map_of vs t = map_option entry_of (map_of m t)" for t
      by (simp add: map_of_update_fold map_of_rev_distinct map_of_map)
    moreover have "vs = [] \<longleftrightarrow> m = []" using ok by (simp add: update_fold_Nil)
    moreover have "map_of m t = Some v \<Longrightarrow> fst (entry_of v) \<noteq> [] \<and> client_table s' (fst (entry_of v)) \<noteq> None"
      for t v using ok map_of_SomeD by fastforce
    ultimately show ?thesis using ok Some JObj by auto (metis fst_conv)+
  qed (use assms Some in \<open>simp_all add: parse_verifiers_def\<close>)
qed (use assms in \<open>simp add: parse_verifiers_def\<close>)

section \<open>One call of serve\<close>

definition rate_of_args :: "json \<Rightarrow> u64" where
  "rate_of_args a = (case get_u64 a ''maxRateLimit'' of Some n \<Rightarrow> n | None \<Rightarrow> DEFAULT_MAX_RATE)"

definition path_of_args :: "json \<Rightarrow> string" where
  "path_of_args a = (case get_str a ''consumedNullifiersPath'' of Some p \<Rightarrow> p | None \<Rightarrow> '''')"

lemma serve_cases:
  assumes "serve F C tid text s = (r, s')"
  obtains (bad_args) e where "r = Inl e" "s' = s"
  | (bad_verifiers) e where "r = Inl e" "core s' = core s"
      "\<And>k. client_table s k \<noteq> None \<Longrightarrow> client_table s' k \<noteq> None"
  | (installed) a cfg s1 m where "from_str C text = Inr a"
      "get_str a ''config'' = Some (config cfg)" "get_str a ''wallet'' = Some (wallet cfg)"
      "max_rate_limit cfg = rate_of_args a" "nullifiers_path cfg = path_of_args a"
      "parse_verifiers F tid (jget a ''authVerifiers'') s = (Inr (auth_verifiers cfg), s1)"
      "mount_once F C tid (install_cfg F C cfg s1) = (m, s')"
      "r = map_sum id (\<lambda>_. JObj [(''mounted'', JBool True)]) m"
proof (cases "\<exists>a c w. from_str C text = Inr a \<and> get_str a ''config'' = Some c \<and> get_str a ''wallet'' = Some w")
  case False
  then have "\<exists>e. r = Inl e \<and> s' = s"
    using assms by (auto simp: serve_def call_then_def call_lift_def some_or_def split: sum.splits option.splits)
  then show thesis using bad_args by blast
next
  case True
  then obtain a c w where a: "from_str C text = Inr a" "get_str a ''config'' = Some c" "get_str a ''wallet'' = Some w"
    by blast
  obtain pv s1 where pv: "parse_verifiers F tid (jget a ''authVerifiers'') s = (pv, s1)" by fastforce
  show thesis
  proof (cases pv)
    case (Inl e)
    from pv consider "s1 = s" | m where "s1 = snd (collect_verifiers F tid m [] s)"
      by (auto simp: parse_verifiers_def split: option.splits json.splits) (metis snd_conv)
    then have f: "core s1 = core s" "client_table s k \<noteq> None \<Longrightarrow> client_table s1 k \<noteq> None" for k
      using collect_verifiers_frame [of F tid _ "[]" s k] by (cases, auto)+
    from assms a pv Inl have "r = Inl e" "s' = s1"
      by (auto simp: serve_def call_then_def call_lift_def some_or_def)
    with bad_verifiers f show thesis by simp
  next
    case (Inr vs)
    let ?cfg = "\<lparr>config = c, wallet = w, auth_verifiers = vs, nullifiers_path = path_of_args a,
      max_rate_limit = rate_of_args a\<rparr>"
    obtain m s2 where m: "mount_once F C tid (install_cfg F C ?cfg s1) = (m, s2)" by fastforce
    with assms a pv Inr have "r = map_sum id (\<lambda>_. JObj [(''mounted'', JBool True)]) m" "s' = s2"
      by (auto simp: serve_def call_then_def call_lift_def some_or_def rate_of_args_def path_of_args_def
          Let_def split: sum.splits)
    with installed [of a ?cfg s1 m] a pv Inr m show thesis by simp
  qed
qed

lemma mount_once_frame:
  assumes "mount_once F C tid s = (m, s')"
  shows "owner s' = owner s" "server s' = server s" "consumed s' = consumed s" "files s' = files s"
    "serving s' = (serving s \<or> (\<exists>u. m = Inr u))"
    "workers s' = workers s + (if \<not> serving s \<and> (\<exists>u. m = Inr u) then 1 else 0)"
proof -
  let ?c = "call_libp2p F C tid ''mountProtocol'' (JArr [JStr RLN_GIFTER_CODEC]) MOUNT_TIMEOUT_MS (s\<lparr>serving := True\<rparr>)"
  have "core (snd ?c) = core (s\<lparr>serving := True\<rparr>)"
    by (rule call_frame_core [OF call_libp2p_frame])
  then obtain r s1 where c: "?c = (r, s1)" and f: "core s1 = core (s\<lparr>serving := True\<rparr>)"
    by (cases ?c) auto
  note f = coreD [OF f, simplified] consumed_core [OF f, simplified]
  have e: "(m, s') = (if serving s then (Inr (), s) else case r of
      Inr _ \<Rightarrow> (Inr (), s1\<lparr>workers := Suc (workers s1)\<rparr>)
    | Inl e \<Rightarrow> (Inl (''mountProtocol: '' @ e), s1\<lparr>serving := False\<rparr>))"
    using assms [symmetric] c by (cases "serving s"; cases r) (simp_all add: mount_once_def)
  show "owner s' = owner s" "server s' = server s" "consumed s' = consumed s" "files s' = files s"
    "serving s' = (serving s \<or> (\<exists>u. m = Inr u))"
    "workers s' = workers s + (if \<not> serving s \<and> (\<exists>u. m = Inr u) then 1 else 0)"
    using e f by (cases "serving s"; cases r; simp)+
qed

lemma install_cfg_fields [simp]:
  "server (install_cfg F C cfg s) = Some cfg" "owner (install_cfg F C cfg s) = owner s"
  "consumed (install_cfg F C cfg s) = consumed s \<union> load_nullifiers F C (nullifiers_path cfg) s"
  "files (install_cfg F C cfg s) = files s" "serving (install_cfg F C cfg s) = serving s"
  "workers (install_cfg F C cfg s) = workers s"
  "client_table (install_cfg F C cfg s) = client_table s"
  by (simp_all add: install_cfg_def merge_nullifiers_def client_table_def)

lemma mount_once_keeps_clients:
  assumes "mount_once F C tid s = (m, s')" and "client_table s k \<noteq> None"
  shows "client_table s' k \<noteq> None"
proof -
  let ?s = "s\<lparr>serving := True\<rparr>"
  obtain r s1 where c: "call_libp2p F C tid ''mountProtocol'' (JArr [JStr RLN_GIFTER_CODEC]) MOUNT_TIMEOUT_MS ?s
      = (r, s1)" by fastforce
  have "client_table ?s k \<noteq> None" using assms(2) by (simp add: client_table_def)
  from call_libp2p_keeps_clients [OF this] c have k: "client_table s1 k \<noteq> None"
    by (metis snd_conv)
  have u: "client_table (s1\<lparr>serving := b\<rparr>) k = client_table s1 k"
    "client_table (s1\<lparr>workers := n\<rparr>) k = client_table s1 k" for b n
    by (simp_all add: client_table_def)
  have "s' \<in> {s, s1\<lparr>workers := Suc (workers s1)\<rparr>, s1\<lparr>serving := False\<rparr>}"
    using assms(1) c by (cases "serving s"; cases r) (simp_all add: mount_once_def)
  with assms(2) k u show ?thesis by auto
qed

text \<open>
  C12. \<open>serve\<close> fails closed. When it succeeds, the installed configuration is the one of its arguments:
  it has no verifier exactly when \<open>authVerifiers\<close> is absent, null or empty; otherwise the type table
  is the given one, entry by entry, every verifier is a named module, and the client to it is open.
  So a malformed verifier table never degrades to an open gifter.
\<close>

theorem serve_fails_closed:
  assumes "serve F C tid text s = (Inr r, s')"
  shows "\<exists>a cfg. from_str C text = Inr a \<and> server s' = Some cfg
    \<and> get_str a ''config'' = Some (config cfg) \<and> get_str a ''wallet'' = Some (wallet cfg)
    \<and> (auth_verifiers cfg = [] \<longleftrightarrow> jget a ''authVerifiers'' \<in> {None, Some JNull, Some (JObj [])})
    \<and> (\<forall>t. map_of (auth_verifiers cfg) t
         = map_option entry_of (Option.bind (jget a ''authVerifiers'') (\<lambda>j. jget j t)))
    \<and> (\<forall>t m c. map_of (auth_verifiers cfg) t = Some (m, c) \<longrightarrow> m \<noteq> [] \<and> client_table s' m \<noteq> None)"
  using assms
proof (cases rule: serve_cases)
  case (installed a cfg s1 m)
  have d: "distinct (map fst kvs)" if "jget a ''authVerifiers'' = Some (JObj kvs)" for kvs
    using from_str_distinct [OF installed(1) that] .
  note pv = parse_verifiers_Ok [OF installed(6) d]
  have "client_table s1 k \<noteq> None \<Longrightarrow> client_table s' k \<noteq> None" for k
    using mount_once_keeps_clients [OF installed(7), of k] by simp
  moreover have "server s' = Some cfg" using mount_once_frame(2) [OF installed(7)] by simp
  ultimately show ?thesis
    using installed(1-3) pv by (intro exI [of _ a] exI [of _ cfg]) blast
qed simp_all

lemma sample_serve:
  "serve sample_ffi sample_crates 0 ''S'' sample_state
     = (Inr (JObj [(''mounted'', JBool True)]), sample_state\<lparr>consumed_nullifiers := Some {}\<rparr>)"
  by (simp add: serve_def sample_crates_def sample_parse_def from_str_def json_value.simps(6)
      call_then_def call_lift_def parse_verifiers_def sample_state_def sample_cfg_def Let_def
      ensure_client_def install_cfg_def merge_nullifiers_def mount_once_def load_nullifiers_def
      read_to_string_def consumed_def some_or_def less_list_code)

theorem serve_fails_closed_witness:
  "\<exists>a cfg. from_str sample_crates ''S'' = Inr a
    \<and> server (sample_state\<lparr>consumed_nullifiers := Some {}\<rparr>) = Some cfg
    \<and> get_str a ''config'' = Some (config cfg) \<and> get_str a ''wallet'' = Some (wallet cfg)
    \<and> (auth_verifiers cfg = [] \<longleftrightarrow> jget a ''authVerifiers'' \<in> {None, Some JNull, Some (JObj [])})
    \<and> (\<forall>t. map_of (auth_verifiers cfg) t
         = map_option entry_of (Option.bind (jget a ''authVerifiers'') (\<lambda>j. jget j t)))
    \<and> (\<forall>t m c. map_of (auth_verifiers cfg) t = Some (m, c) \<longrightarrow>
         m \<noteq> [] \<and> client_table (sample_state\<lparr>consumed_nullifiers := Some {}\<rparr>) m \<noteq> None)"
  by (rule serve_fails_closed [OF sample_serve])

text \<open>
  C14. A failed \<open>serve\<close> does no harm: the workers, the mount flag and the files are as before, no
  spent credential is forgotten, and while the node is already serving, the configuration and the
  spent set are exactly the old ones.
\<close>

theorem serve_error_keeps:
  assumes "serve F C tid text s = (Inl e, s')"
  shows "workers s' = workers s \<and> serving s' = serving s \<and> files s' = files s
    \<and> consumed s \<subseteq> consumed s'
    \<and> (serving s \<longrightarrow> server s' = server s \<and> consumed s' = consumed s)"
  using assms
proof (cases rule: serve_cases)
  case (bad_verifiers e)
  then show ?thesis using coreD [OF bad_verifiers(2)] consumed_core [OF bad_verifiers(2)] by simp
next
  case (installed a cfg s1 m)
  have d: "distinct (map fst kvs)" if "jget a ''authVerifiers'' = Some (JObj kvs)" for kvs
    using from_str_distinct [OF installed(1) that] .
  from parse_verifiers_Ok [OF installed(6) d] have c: "core s1 = core s" by blast
  from installed(8) obtain e' where m: "m = Inl e'" by (cases m) auto
  have "\<not> serving s1" using installed(7) m by (auto simp: mount_once_def)
  with mount_once_frame [OF installed(7)] m coreD [OF c] consumed_core [OF c] show ?thesis by auto
qed simp_all

definition deaf_ffi :: "nat ffi" where
  "deaf_ffi = sample_ffi\<lparr>lp_invoke := (\<lambda>_ _ _ _ w. ((1, None, None), w))\<rparr>"

definition fresh_state :: "nat gstate" where
  "fresh_state = sample_state\<lparr>server := None, serving := False, workers := 0\<rparr>"

definition unmounted_state :: "nat gstate" where
  "unmounted_state = fresh_state\<lparr>server := Some sample_cfg, consumed_nullifiers := Some {},
     calls := [(LIBP2P_MODULE, ''mountProtocol'', JArr [JStr RLN_GIFTER_CODEC], MOUNT_TIMEOUT_MS)]\<rparr>"

lemma dec_1: "dec 1 = ''1''" "dec (Suc 0) = ''1''"
  by code_simp+

lemma deaf_serve:
  "serve deaf_ffi sample_crates 0 ''S'' fresh_state
     = (Inl ''mountProtocol: mountProtocol: lp error 1'', unmounted_state)"
  by (simp add: serve_def sample_crates_def sample_parse_def from_str_def json_value.simps(6)
      call_then_def call_lift_def parse_verifiers_def fresh_state_def unmounted_state_def
      sample_state_def sample_cfg_def Let_def ensure_client_def install_cfg_def merge_nullifiers_def
      mount_once_def load_nullifiers_def read_to_string_def consumed_def some_or_def less_list_code
      call_libp2p_def call_json_def client_ptr_def on_owner_thread_def deaf_ffi_def cstring_ok_def
      LIBP2P_MODULE_def RLN_MODULE_def dec_int_def dec_1)

theorem serve_error_keeps_witness:
  "workers unmounted_state = workers fresh_state \<and> serving unmounted_state = serving fresh_state
    \<and> files unmounted_state = files fresh_state \<and> consumed fresh_state \<subseteq> consumed unmounted_state"
  using serve_error_keeps [OF deaf_serve] by blast

lemma serve_workers:
  assumes "serve F C tid args s = (r, s')" and "workers s = (if serving s then 1 else 0)"
  shows "workers s' = (if serving s' then 1 else 0)
    \<and> (serving s' \<longleftrightarrow> serving s \<or> (\<exists>v. r = Inr v))"
  using assms(1)
proof (cases rule: serve_cases)
  case (bad_verifiers e)
  then show ?thesis using coreD [OF bad_verifiers(2)] assms(2) by simp
next
  case (installed a cfg s1 m)
  have d: "distinct (map fst kvs)" if "jget a ''authVerifiers'' = Some (JObj kvs)" for kvs
    using from_str_distinct [OF installed(1) that] .
  from parse_verifiers_Ok [OF installed(6) d] have "core s1 = core s" by blast
  from mount_once_frame [OF installed(7)] coreD [OF this] assms(2) show ?thesis
    using installed(8) by (cases m) auto
qed (use assms(2) in simp_all)

fun serve_all :: "'w ffi \<Rightarrow> crates \<Rightarrow> (nat \<times> string) list \<Rightarrow> 'w gstate \<Rightarrow> (string + json) list \<times> 'w gstate" where
  "serve_all F C [] s = ([], s)"
| "serve_all F C ((tid, args) # ops) s =
     (case serve F C tid args s of (r, s1) \<Rightarrow> map_prod ((#) r) id (serve_all F C ops s1))"

lemma serve_all_workers:
  "workers s = (if serving s then 1 else 0) \<Longrightarrow> serve_all F C ops s = (rs, s') \<Longrightarrow>
     workers s' = (if serving s' then 1 else 0) \<and> (serving s' \<longleftrightarrow> serving s \<or> (\<exists>v. Inr v \<in> set rs))"
proof (induction ops arbitrary: s rs)
  case (Cons op ops)
  obtain tid args where op: "op = (tid, args)" by fastforce
  obtain r s1 where s1: "serve F C tid args s = (r, s1)" by fastforce
  obtain rs' where rec: "serve_all F C ops s1 = (rs', s')" and rs: "rs = r # rs'"
    using Cons.prems(2) op s1 by (cases "serve_all F C ops s1") auto
  from serve_workers [OF s1 Cons.prems(1)] Cons.IH [OF _ rec] show ?case by (auto simp: rs)
qed simp

text \<open>
  The protocol is mounted and its worker spawned at most once: after any sequence of \<open>serve\<close>
  calls from the start of the process, with whatever arguments and on whatever threads, there is
  one worker if one of the calls has succeeded and none otherwise, and the mount flag says which.
\<close>

lemma serve_one_worker:
  "case serve_all F C ops (boot fs w) of (results, s) \<Rightarrow>
     workers s = (if serving s then 1 else 0) \<and> (serving s \<longleftrightarrow> (\<exists>v. Inr v \<in> set results))"
proof -
  obtain rs s where a: "serve_all F C ops (boot fs w) = (rs, s)" by fastforce
  with serve_all_workers [OF _ a] show ?thesis by simp
qed

end
