(* ===== verification/Server_Live.thy ===== *)
theory Server_Live
  imports Server_Correct
begin

text \<open>
  Liveness of the gifter node: the confirmation loop of \<open>server.rs\<close> stops at its deadline, so every
  request is answered and the worker always comes back for the next stream.
\<close>

section \<open>Every request is answered\<close>

text \<open>
  What the loop relies on: \<open>Instant\<close> is monotonic, \<open>thread::sleep\<close> sleeps at least as long as
  asked, and the host's calls return without turning the clock back. \<open>clk\<close> reads the clock off the
  outside world.
\<close>

definition monotone_clock :: "'w ffi \<Rightarrow> ('w \<Rightarrow> nat) \<Rightarrow> bool" where
  "monotone_clock F clk \<longleftrightarrow>
     (\<forall>w. fst (instant_now F w) = clk w \<and> clk w \<le> clk (snd (instant_now F w)))
   \<and> (\<forall>d w. clk w + d \<le> clk (thread_sleep F d w))
   \<and> (\<forall>t w. clk w \<le> clk (snd (lp_client_create F t w)))
   \<and> (\<forall>c m a t w. clk w \<le> clk (snd (lp_invoke F c m a t w)))
   \<and> (\<forall>c m a t w. clk w \<le> clk (snd (lp_invoke_async F c m a t w)))"

lemma create_client_clock:
  "monotone_clock F clk \<Longrightarrow> clk (outside s) \<le> clk (outside (snd (create_client F t s)))"
  unfolding monotone_clock_def create_client_def
  by (auto simp: Let_def split: prod.split) (metis snd_conv)+

lemma client_ptr_clock:
  "monotone_clock F clk \<Longrightarrow> clk (outside s) \<le> clk (outside (snd (client_ptr F tid t s)))"
  by (simp add: client_ptr_def Let_def create_client_clock)

lemma call_json_clock:
  assumes m: "monotone_clock F clk"
  shows "clk (outside s) \<le> clk (outside (snd (call_json F C tid target method args t s)))"
proof -
  obtain p s1 where cp: "client_ptr F tid target s = (p, s1)" by fastforce
  have s1: "clk (outside s) \<le> clk (outside s1)"
    using client_ptr_clock [OF m, of s tid target] by (simp add: cp)
  have i: "clk w \<le> clk w'" if "lp_invoke F c mm a t w = (x, w')" for c mm a t w x w'
    using m that unfolding monotone_clock_def by (metis snd_conv)
  have ia: "clk w \<le> clk w'" if "lp_invoke_async F c mm a t w = (x, w')" for c mm a t w x w'
    using m that unfolding monotone_clock_def by (metis snd_conv)
  show ?thesis
    using s1 by (auto simp: call_json_def cp Let_def split: option.split prod.split dest!: i ia)
qed

lemma call_module_json_clock:
  "monotone_clock F clk \<Longrightarrow>
     clk (outside s) \<le> clk (outside (snd (call_module_json F C tid target method args t s)))"
  by (simp add: call_module_json_def snd_call_then_lift call_json_clock)

text \<open>The number of polls for a wait of \<open>d\<close> nanoseconds.\<close>

definition polls :: "nat \<Rightarrow> nat" where
  "polls d = (d + CONFIRM_POLL - 1) div CONFIRM_POLL + 1"

lemma polls_step: "0 < d \<Longrightarrow> d' \<le> d - CONFIRM_POLL \<Longrightarrow> Suc (polls d') \<le> polls d"
proof -
  assume d: "0 < d" and d': "d' \<le> d - CONFIRM_POLL"
  have p: "0 < CONFIRM_POLL" by (simp add: CONFIRM_POLL_def)
  show "Suc (polls d') \<le> polls d"
  proof (cases "CONFIRM_POLL \<le> d")
    case True
    have "(d' + CONFIRM_POLL - 1) div CONFIRM_POLL \<le> (d - 1) div CONFIRM_POLL"
      using d' True d by (intro div_le_mono) arith
    moreover have e: "d + CONFIRM_POLL - 1 = (d - 1) + CONFIRM_POLL" using d by arith
    have "(d + CONFIRM_POLL - 1) div CONFIRM_POLL = Suc ((d - 1) div CONFIRM_POLL)"
      unfolding e using p div_add_self2 [of CONFIRM_POLL "d - 1"] by simp
    ultimately show ?thesis by (simp add: polls_def)
  next
    case False
    with d' have "d' = 0" by simp
    moreover have "1 \<le> (d + CONFIRM_POLL - 1) div CONFIRM_POLL"
      using d p by (simp add: Suc_le_eq div_greater_zero_iff)
    ultimately show ?thesis using p by (simp add: polls_def)
  qed
qed

lemma ask_membership_clock:
  assumes "monotone_clock F clk" "ask_membership F C tid cfg idc s = (r, s1)"
  shows "clk (outside s) \<le> clk (outside s1)" "length (calls s1) \<le> Suc (length (calls s))"
proof -
  show "clk (outside s) \<le> clk (outside s1)"
    using call_module_json_clock [OF assms(1), of s C tid RLN_MODULE "''get_membership''"] assms(2)
    by (metis snd_conv)
  have "call_frame (RLN_MODULE, ''get_membership'', get_membership_args cfg idc, GET_MEMBERSHIP_TIMEOUT_MS) s s1"
    using call_module_json_frame [of RLN_MODULE "''get_membership''"] assms(2) by (metis snd_conv)
  then show "length (calls s1) \<le> Suc (length (calls s))" by (auto simp: call_frame_def)
qed

lemma confirm_loop_returns:
  assumes m: "monotone_clock F clk"
  shows "\<exists>r s'. confirm_loop F C tid cfg idc tx deadline s = Some (r, s')
    \<and> length (calls s') \<le> length (calls s) + polls (deadline - clk (outside s))"
proof (induction "deadline - clk (outside s)" arbitrary: s rule: less_induct)
  case less
  obtain r s1 where c: "ask_membership F C tid cfg idc s = (r, s1)" by fastforce
  note k1 = ask_membership_clock(1) [OF m c] and l1 = ask_membership_clock(2) [OF m c]
  obtain now w where n: "instant_now F (outside s1) = (now, w)" by fastforce
  have now: "now = clk (outside s1)" "now \<le> clk w"
    using m n unfolding monotone_clock_def by (metis fst_conv, metis fst_conv snd_conv)
  have one: "1 \<le> polls d" for d by (simp add: polls_def)
  note unfold = confirm_loop.simps [of F C tid cfg idc tx deadline s]
  show ?case
  proof (cases "case r of Inr v \<Rightarrow> confirmed_leaf v | _ \<Rightarrow> None")
    case (Some leaf)
    with c l1 one [of "deadline - clk (outside s)"] show ?thesis by (simp add: unfold)
  next
    case None
    show ?thesis
    proof (cases "deadline \<le> now")
      case True
      with None c n l1 one [of "deadline - clk (outside s)"] show ?thesis by (simp add: unfold)
    next
      case False
      let ?s2 = "s1\<lparr>outside := thread_sleep F CONFIRM_POLL w\<rparr>"
      have k2: "clk (outside s) + CONFIRM_POLL \<le> clk (outside ?s2)"
        using m now k1 unfolding monotone_clock_def by (simp add: order_trans [OF add_right_mono])
      have d: "0 < deadline - clk (outside s)" using False now k1 by simp
      have p: "0 < CONFIRM_POLL" by (simp add: CONFIRM_POLL_def)
      have "deadline - clk (outside ?s2) < deadline - clk (outside s)" using k2 d p by linarith
      from less [OF this] obtain r' s' where
        rec: "confirm_loop F C tid cfg idc tx deadline ?s2 = Some (r', s')"
        and l: "length (calls s') \<le> length (calls ?s2) + polls (deadline - clk (outside ?s2))" by blast
      have "Suc (polls (deadline - clk (outside ?s2))) \<le> polls (deadline - clk (outside s))"
        using k2 by (intro polls_step d) linarith
      with l l1 rec False None c n show ?thesis by (simp add: unfold)
    qed
  qed
qed

lemma register_returns:
  assumes m: "monotone_clock F clk"
  shows "\<exists>r s'. register F C tid cfg idc rate s = Some (r, s')
    \<and> length (calls s') \<le> length (calls s) + 77"
proof -
  obtain r s1 where c: "call_module_json F C tid RLN_MODULE ''register_member''
      (register_args C cfg idc rate) REGISTER_TIMEOUT_MS s = (r, s1)" by fastforce
  have "call_frame (register_call C cfg idc rate) s s1"
    using call_module_json_frame [of RLN_MODULE "''register_member''"] c by (metis snd_conv)
  then have l1: "length (calls s1) \<le> Suc (length (calls s))"
    by (auto simp: call_frame_def)
  show ?thesis
  proof (cases r)
    case (Inl e)
    with c l1 show ?thesis by (simp add: register_def)
  next
    case (Inr reply)
    obtain now w where n: "instant_now F (outside s1) = (now, w)" by fastforce
    have "now \<le> clk w"
      using m n unfolding monotone_clock_def by (metis fst_conv snd_conv)
    then have d: "now + CONFIRM_BUDGET - clk w \<le> CONFIRM_BUDGET" by simp
    then have "polls (now + CONFIRM_BUDGET - clk w) \<le> polls CONFIRM_BUDGET"
      unfolding polls_def by (intro add_right_mono div_le_mono) simp
    also have "polls CONFIRM_BUDGET = 76"
      by (simp add: polls_def CONFIRM_BUDGET_def CONFIRM_POLL_def)
    finally have p: "polls (now + CONFIRM_BUDGET - clk w) \<le> 76" .
    obtain r' s' where "confirm_loop F C tid cfg (hex_enc C idc) (tx_hash_of C reply)
        (now + CONFIRM_BUDGET) (s1\<lparr>outside := w\<rparr>) = Some (r', s')"
      and "length (calls s') \<le> length (calls s1) + polls (now + CONFIRM_BUDGET - clk w)"
      using confirm_loop_returns [OF m, where s = "s1\<lparr>outside := w\<rparr>"] by fastforce
    with c Inr n l1 p show ?thesis by (simp add: register_def)
  qed
qed

lemma reserve_calls [simp]: "calls (snd (reserve C req module n s)) = calls s"
  by (simp add: reserve_def Let_def split: option.split)

lemma authenticate_calls:
  "length (calls (snd (authenticate F C tid cfg req rate s))) \<le> Suc (length (calls s))"
proof -
  have c: "length (calls s2) \<le> Suc (length (calls s))"
    if "call_module_json F C tid m VERIFY_METHOD a t s = (x, s2)" for m a t x s2
    using call_module_json_frame [of m VERIFY_METHOD a t s F C tid] that
    by (auto simp: call_frame_def)
  have a: "length (calls s1) \<le> Suc (length (calls s))"
    if "ask_verifier F C tid cfg req rate s = (r, s1)" for r s1
    using that c by (auto simp: ask_verifier_def split: option.splits prod.splits sum.splits if_splits)
  then show ?thesis
    by (auto simp: authenticate_def split: prod.split sum.split)
qed

lemma append_nullifier_calls [simp]: "calls (append_nullifier F path n s) = calls s"
  by (simp add: append_nullifier_def Let_def split: option.split)

lemma settle_calls [simp]: "calls (settle F cfg a r s) = calls s"
  by (simp add: settle_def split: option.split sum.split register_error.split)

lemma handle_request_total:
  assumes m: "monotone_clock F clk"
  shows "\<exists>resp s'. handle_request F C tid buf s = Some (resp, s')
    \<and> length (calls s') \<le> length (calls s) + 78"
proof (cases "request_decode buf")
  case (Inl e)
  then show ?thesis by (simp add: handle_request_def)
next
  case (Inr req)
  show ?thesis
  proof (cases "length (identity_commitment req) = 32 \<and> server s \<noteq> None")
    case False
    with Inr show ?thesis by (auto simp: handle_request_def)
  next
    case True
    then obtain cfg where cfg: "server s = Some cfg" and l: "length (identity_commitment req) = 32"
      by auto
    obtain a s1 where a: "authenticate F C tid cfg req (effective_rate cfg req) s = (a, s1)" by fastforce
    have c1: "length (calls s1) \<le> Suc (length (calls s))"
      using authenticate_calls [of F C tid cfg req "effective_rate cfg req" s] by (simp add: a)
    obtain r s2 where "register F C tid cfg (identity_commitment req) (effective_rate cfg req) s1 = Some (r, s2)"
      and "length (calls s2) \<le> length (calls s1) + 77"
      using register_returns [OF m] by blast
    with c1 Inr l cfg a show ?thesis
      by (cases a) (auto simp: handle_request_def)
  qed
qed

lemma handle_stream_total:
  assumes m: "monotone_clock F clk"
  shows "\<exists>r s'. handle_stream F C tid sid s = Some (r, s')"
proof -
  have h: "\<exists>resp s'. handle_request F C tid buf t = Some (resp, s')" for buf t
    using handle_request_total [OF m, of C tid buf t] by blast
  have b: "\<exists>r s'. Option.bind (handle_request F C tid buf t) (\<lambda>(resp, s2). Some (f resp s2, g resp s2)) = Some (r, s')"
    for buf t f g
  proof -
    obtain resp t' where "handle_request F C tid buf t = Some (resp, t')" using h by blast
    then show ?thesis by simp
  qed
  show ?thesis
    unfolding handle_stream_def Let_def
    by (auto split: prod.split sum.split intro!: b [of _ _ "\<lambda>_ _. Inr ()", simplified])
qed

text \<open>
  C8. Every request is answered: under a clock that moves forward, \<open>handle_request\<close> returns a response
  after at most 78 cross-module calls (one to the verifier, one \<open>register_member\<close>, at most 76 reads
  of the registry), and the worker completes any number of turns of its loop.
\<close>

theorem handle_request_returns:
  assumes "monotone_clock F clk"
  shows "(\<exists>resp s'. handle_request F C tid buf s = Some (resp, s')
      \<and> length (calls s') \<le> length (calls s) + 78)
    \<and> (\<exists>s'. worker_loop F C tid n s = Some s')"
proof -
  have turn: "\<exists>s'. worker_turn F C tid s = Some s'" for s
  proof -
    have "\<exists>r t'. handle_stream F C tid sid t = Some (r, t')" for sid t
      by (rule handle_stream_total [OF assms])
    then show ?thesis
      by (auto simp: worker_turn_def split: prod.split option.split) metis
  qed
  have "\<exists>s'. worker_loop F C tid n s = Some s'"
  proof (induction n arbitrary: s)
    case (Suc n)
    obtain s1 where "worker_turn F C tid s = Some s1" using turn by blast
    with Suc show ?case by simp
  qed simp
  with handle_request_total [OF assms] show ?thesis by blast
qed

theorem handle_request_returns_witness:
  "(\<exists>resp s'. handle_request sample_ffi sample_crates 5 (request_encode world_request) sample_state
        = Some (resp, s') \<and> length (calls s') \<le> length (calls sample_state) + 78)
    \<and> (\<exists>s'. worker_loop sample_ffi sample_crates 5 3 sample_state = Some s')"
  by (rule handle_request_returns [where clk = id]) (simp add: monotone_clock_def sample_ffi_def)

end
