(* ===== verification/Replay.thy ===== *)
theory Replay
  imports Serve_Correct Server_Live
begin

text \<open>
  Replay protection across requests. A credential (a verdict's nullifier under the request's type)
  is reserved before the registration, released if nothing was submitted, and otherwise spent for
  good. This theory states what one request does to the spent set, gives the protocol as a step
  relation in which the serve worker and calls of \<open>serve\<close> interleave, and proves that no credential
  is ever spent twice.
\<close>

section \<open>One request and the spent set\<close>

lemma register_core: "register F C tid cfg idc rate s = Some (r, s') \<Longrightarrow> core s' = core s"
  by (auto elim: register_cases)

lemma append_nullifier_files_cong:
  "files s = files t \<Longrightarrow> outside s = outside t \<Longrightarrow>
     files (append_nullifier F p n s) = files (append_nullifier F p n t)"
  by (simp add: append_nullifier_def Let_def split: option.split)

text \<open>
  What one request does to the replay protection: nothing, or it spends one credential that was not
  spent before. \<open>outcome\<close> is the answer's side: a credential is spent exactly when the registration
  was submitted.
\<close>

lemma handle_request_spends:
  assumes "handle_request F C tid buf s = Some (resp, s')"
  obtains (unchanged) "consumed s' = consumed s" "files s' = files s"
  | (spent) cfg req vd raw nul result s2 where "server s = Some cfg" "request_decode buf = Inr req"
      "verdict_from F C tid cfg req (effective_rate cfg req) s vd" "v_ok vd"
      "v_nullifier vd = Some raw" "credential C req raw = Some nul"
      "nul \<notin> consumed s" "consumed s' = insert nul (consumed s)"
      "resp = answer (request_id req) result" "submitted result"
      "files s2 = files s" "files s' = files (append_nullifier F (nullifiers_path cfg) nul s2)"
  using assms
proof (cases rule: handle_request_cases)
  case (refused req cfg)
  from refused(4) show thesis by (cases rule: authenticate_cases) (use unchanged in auto)
next
  case (registered req cfg authorized s1 result s2)
  note c2 = register_core [OF registered(5)]
  note c2 = coreD(5) [OF c2] consumed_core [OF c2]
  from registered(4) show thesis
  proof (cases rule: authenticate_cases)
    case open_gifter
    with registered(7) c2 unchanged show thesis by simp
  next
    case (unnamed vd)
    with registered(7) c2 unchanged coreD(5) [OF unnamed(6)] consumed_core [OF unnamed(6)]
    show thesis by simp
  next
    case (named vd raw nul)
    show thesis
    proof (cases "submitted result")
      case True
      with named registered c2 show thesis
        by (intro spent [of cfg req vd raw nul result s2]) (simp_all add: settle_consumed settle_files)
    next
      case False
      with named registered(7) c2 unchanged show thesis
        by (simp add: settle_consumed settle_files)
    qed
  qed simp
qed (use unchanged in simp)


lemma ask_verifier_of_verdict:
  assumes "verdict_from F C tid cfg req rate s vd"
  shows "\<exists>module s1 why. ask_verifier F C tid cfg req rate s
    = (if v_ok vd then Inr (module, vd) else Inl (failure_response (request_id req) False why), s1)"
  using assms by (auto simp: verdict_from_def ask_verifier_def) blast

lemma authenticate_spent:
  assumes "auth_verifiers cfg \<noteq> []" "verdict_from F C tid cfg req rate s vd"
    and "v_nullifier vd = Some raw" "credential C req raw = Some nul" "nul \<in> consumed s"
  shows "\<exists>why s'. authenticate F C tid cfg req rate s
    = (Inl (failure_response (request_id req) False why), s')"
proof -
  obtain module s1 why where a: "ask_verifier F C tid cfg req rate s
      = (if v_ok vd then Inr (module, vd) else Inl (failure_response (request_id req) False why), s1)"
    using ask_verifier_of_verdict [OF assms(2)] by blast
  have "nul \<in> consumed s1" using assms(5) consumed_core [OF ask_verifier_frame(1) [OF a]] by simp
  with a assms(1,3,4) show ?thesis
    by (cases "v_ok vd") (auto simp: authenticate_def reserve_def credential_def Let_def)
qed


text \<open>
  A spent credential is refused: if the verifier's verdict on a request names a credential
  that is already spent, the request is answered with an authentication failure, nothing is
  registered, and the spent set stays as it is.
\<close>

lemma replay_refused:
  assumes "server s = Some cfg" "request_decode buf = Inr req" "length (identity_commitment req) = 32"
    and "auth_verifiers cfg \<noteq> []"
    and "verdict_from F C tid cfg req (effective_rate cfg req) s vd"
    and "v_nullifier vd = Some raw" "credential C req raw = Some nul" "nul \<in> consumed s"
    and "handle_request F C tid buf s = Some (resp, s')"
  shows "\<not> auth_success resp \<and> success resp = None \<and> register_calls s' = register_calls s
    \<and> consumed s' = consumed s \<and> files s' = files s"
proof -
  obtain why s1 where a: "authenticate F C tid cfg req (effective_rate cfg req) s
      = (Inl (failure_response (request_id req) False why), s1)"
    using authenticate_spent assms(4-8) by blast
  then have r: "resp = failure_response (request_id req) False why" "s' = s1"
    using assms(1-3,9) by (simp_all add: handle_request_def)
  from a show ?thesis
    by (cases rule: authenticate_cases) (simp_all add: r failure_response_def)
qed

definition spent_state :: "nat gstate" where
  "spent_state = sample_state\<lparr>consumed_nullifiers := Some {''t:ab''}\<rparr>"

lemma replay_refused_example:
  "\<exists>resp s'. handle_request sample_ffi sample_crates 5 (request_encode world_request) spent_state
        = Some (resp, s')
    \<and> \<not> auth_success resp \<and> success resp = None \<and> register_calls s' = register_calls spent_state
    \<and> consumed s' = consumed spent_state \<and> files s' = files spent_state"
proof -
  have off: "on_owner_thread 5 spent_state = False" "clients spent_state = clients sample_state"
    "server spent_state = Some sample_cfg" "consumed spent_state = {''t:ab''}"
    by (simp_all add: spent_state_def sample_state_def on_owner_thread_def consumed_def)
  have vd: "verdict_from sample_ffi sample_crates 5 sample_cfg world_request
      (effective_rate sample_cfg world_request) spent_state (verdict_accept (Some ''Ab''))"
    unfolding verdict_from_def
    by (rule exI [of _ "''v''"], rule exI [of _ None], rule exI [of _ "''Q''"])
       (simp add: sample_cfg_def auth_type_world sample_verify_call off, simp add: sample_crates_def parse_verdict_tree)
  obtain resp s' where h: "handle_request sample_ffi sample_crates 5 (request_encode world_request) spent_state
      = Some (resp, s')"
    using handle_request_total [of sample_ffi id] by (fastforce simp: monotone_clock_def sample_ffi_def)
  have "\<not> auth_success resp \<and> success resp = None \<and> register_calls s' = register_calls spent_state
    \<and> consumed s' = consumed spent_state \<and> files s' = files spent_state"
  proof (rule replay_refused [OF off(3) world_request_decodes _ _ vd _ _ _ h])
    show "credential sample_crates world_request ''Ab'' = Some ''t:ab''"
      by (simp add: credential_def sample_norm auth_type_world)
  qed (simp_all add: world_request_def sample_cfg_def verdict_accept_def off)
  with h show ?thesis by blast
qed

lemma authenticate_refuses:
  "authenticate F C tid cfg req rate s = (Inl resp, s') \<Longrightarrow> success resp = None"
  by (auto simp: authenticate_def ask_verifier_def reserve_def Let_def failure_response_def
      split: if_splits option.splits sum.splits prod.splits)

lemma handle_request_success:
  assumes "handle_request F C tid buf s = Some (resp, s')" and "success resp = Some g"
  shows "\<exists>cfg req. server s = Some cfg \<and> request_decode buf = Inr req
    \<and> resp_request_id resp = request_id req \<and> auth_success resp \<and> failure resp = None
    \<and> register_calls s' = register_calls s @
        [(RLN_MODULE, ''register_member'',
          register_args C cfg (identity_commitment req) (effective_rate cfg req), REGISTER_TIMEOUT_MS)]
    \<and> chain_reports F C tid cfg (hex_enc C (identity_commitment req)) (leaf_index g)
    \<and> config_account_id g = Some (config cfg)"
  using assms(1)
proof (cases rule: handle_request_cases)
  case (refused req cfg)
  then show ?thesis using authenticate_refuses assms(2) by fastforce
next
  case (registered req cfg authorized s1 result s2)
  from assms(2) registered(6) have r: "result = Inr g"
    by (auto simp: answer_def split: sum.splits)
  have "register_calls s1 = register_calls s"
    using registered(4) by (cases rule: authenticate_cases) auto
  moreover from registered(5) r obtain leaf tx where "g = granted cfg leaf tx"
    "chain_reports F C tid cfg (hex_enc C (identity_commitment req)) leaf"
    "register_calls s2 = register_calls s1 @
       [register_call C cfg (identity_commitment req) (effective_rate cfg req)]"
    by (cases rule: register_cases) auto
  ultimately show ?thesis
    using registered(1-3,6,7) r by (auto simp: granted_def answer_def)
qed (use assms(2) in \<open>simp add: failure_response_def\<close>)

text \<open>
  C9. A membership is reported only when the chain has it: a response that carries a success is an
  authenticated answer to the request that was sent, the registration of its commitment was
  submitted once in this request, and the leaf index is one the registry itself reported for that
  commitment, under the account the gifter is configured with.
\<close>

theorem success_from_chain:
  assumes "handle_request F C tid buf s = Some (resp, s')" and "success resp = Some g"
  shows "\<exists>cfg req. server s = Some cfg \<and> request_decode buf = Inr req
    \<and> resp_request_id resp = request_id req \<and> auth_success resp \<and> failure resp = None
    \<and> register_calls s' = register_calls s @
        [(RLN_MODULE, ''register_member'',
          register_args C cfg (identity_commitment req) (effective_rate cfg req), REGISTER_TIMEOUT_MS)]
    \<and> chain_reports F C tid cfg (hex_enc C (identity_commitment req)) (leaf_index g)
    \<and> config_account_id g = Some (config cfg)"
  by (rule handle_request_success [OF assms])

theorem success_from_chain_witness:
  "\<exists>cfg req. server sample_state = Some cfg \<and> request_decode (request_encode world_request) = Inr req
    \<and> resp_request_id (answer (request_id world_request) (Inr (granted sample_cfg 7 []))) = request_id req
    \<and> auth_success (answer (request_id world_request) (Inr (granted sample_cfg 7 [])))
    \<and> failure (answer (request_id world_request) (Inr (granted sample_cfg 7 []))) = None
    \<and> register_calls sample_after = register_calls sample_state @
        [(RLN_MODULE, ''register_member'',
          register_args sample_crates cfg (identity_commitment req) (effective_rate cfg req), REGISTER_TIMEOUT_MS)]
    \<and> chain_reports sample_ffi sample_crates 5 cfg (hex_enc sample_crates (identity_commitment req))
        (leaf_index (granted sample_cfg 7 []))
    \<and> config_account_id (granted sample_cfg 7 []) = Some (config cfg)"
  by (rule success_from_chain [OF sample_run]) (simp add: answer_def)

section \<open>The reservation protocol\<close>

text \<open>What a step does to the spent set, as seen by the replay protection.\<close>

datatype spend_event = Quiet | Reserves string | Releases string | Spends string

text \<open>
  The protocol: \<open>step\<close> is the system, \<open>P\<close> the credentials of the registrations in flight, \<open>G\<close> the
  credentials spent so far, newest first. Only a credential in flight is released or spent.
\<close>

inductive protocol ::
  "('s \<Rightarrow> spend_event \<Rightarrow> 's \<Rightarrow> bool) \<Rightarrow> 's \<times> string list \<times> string list \<Rightarrow> 's \<times> string list \<times> string list \<Rightarrow> bool"
  for step where
  quiet: "step s Quiet s' \<Longrightarrow> protocol step (s, P, G) (s', P, G)"
| reserves: "step s (Reserves k) s' \<Longrightarrow> protocol step (s, P, G) (s', k # P, G)"
| releases: "k \<in> set P \<Longrightarrow> step s (Releases k) s' \<Longrightarrow> protocol step (s, P, G) (s', remove1 k P, G)"
| spends: "k \<in> set P \<Longrightarrow> step s (Spends k) s' \<Longrightarrow> protocol step (s, P, G) (s', remove1 k P, k # G)"

text \<open>The contract of a spent set, and what it is good for.\<close>

locale spend_once =
  fixes spent :: "'s \<Rightarrow> string set"
    and step :: "'s \<Rightarrow> spend_event \<Rightarrow> 's \<Rightarrow> bool"
  assumes quiet_keeps: "step s Quiet s' \<Longrightarrow> spent s \<subseteq> spent s'"
    and reserve_fresh: "step s (Reserves k) s' \<Longrightarrow> k \<notin> spent s \<and> insert k (spent s) \<subseteq> spent s'"
    and release_one: "step s (Releases k) s' \<Longrightarrow> spent s - {k} \<subseteq> spent s'"
    and spend_keeps: "step s (Spends k) s' \<Longrightarrow> spent s \<subseteq> spent s'"
begin

lemma protocol_inv:
  assumes "protocol step (s, P, G) (s', P', G')" "distinct (P @ G)" "set (P @ G) \<subseteq> spent s"
  shows "distinct (P' @ G') \<and> set (P' @ G') \<subseteq> spent s'"
  using assms(1)
proof (cases rule: protocol.cases)
  case quiet
  from quiet_keeps [OF this(3)] assms(2,3) quiet(1,2) show ?thesis by auto
next
  case (reserves k)
  from reserve_fresh [OF this(3)] assms(2,3) reserves(1,2) show ?thesis by auto
next
  case (releases k)
  from release_one [OF this(4)] assms(2,3) releases(1-3) show ?thesis
    by (auto simp: set_remove1_eq distinct_remove1)
next
  case (spends k)
  from spend_keeps [OF this(4)] assms(2,3) spends(1-3) show ?thesis
    by (auto simp: set_remove1_eq distinct_remove1)
qed

lemma run_inv:
  assumes "(protocol step)\<^sup>*\<^sup>* (s, P, G) (s', P', G')" "distinct (P @ G)" "set (P @ G) \<subseteq> spent s"
  shows "distinct (P' @ G') \<and> set (P' @ G') \<subseteq> spent s'"
  using assms
proof (induction "(s', P', G')" arbitrary: s' P' G' rule: rtranclp_induct)
  case (step y)
  obtain t Q H where y: "y = (t, Q, H)" by (cases y)
  have "distinct (Q @ H) \<and> set (Q @ H) \<subseteq> spent t"
    using step.hyps(3) [OF y step.prems] .
  then show ?case using protocol_inv step.hyps(2) y by simp
qed simp

lemma spent_once:
  assumes "(protocol step)\<^sup>*\<^sup>* (s, [], []) (s', P, G)"
  shows "distinct G" and "distinct P" and "set P \<inter> set G = {}" and "set P \<union> set G \<subseteq> spent s'"
  using run_inv [OF assms] by auto

end

section \<open>The gifter as such a system\<close>

text \<open>
  The atomic steps of the module's threads on the shared statics: the two critical sections of
  \<open>handle_request\<close> on \<open>CONSUMED_NULLIFIERS\<close> (reserve; settle), those of \<open>serve\<close> (merge the
  persisted entries; replace the configuration; mount), and everything that only calls the host.
\<close>

inductive gifter_step :: "'w ffi \<Rightarrow> crates \<Rightarrow> 'w gstate \<Rightarrow> spend_event \<Rightarrow> 'w gstate \<Rightarrow> bool"
  for F C where
  host: "core s' = core s \<Longrightarrow> gifter_step F C s Quiet s'"
| refuses: "reserve C req module n s = (Inl resp, s') \<Longrightarrow> gifter_step F C s Quiet s'"
| reserves: "reserve C req module n s = (Inr (Some nul), s') \<Longrightarrow> gifter_step F C s (Reserves nul) s'"
| releases: "\<not> submitted r \<Longrightarrow> gifter_step F C s (Releases nul) (settle F cfg (Some nul) r s)"
| spends: "submitted r \<Longrightarrow> gifter_step F C s (Spends nul) (settle F cfg (Some nul) r s)"
| merges: "gifter_step F C s Quiet (merge_nullifiers F C path s)"
| configures: "gifter_step F C s Quiet (s\<lparr>server := Some cfg\<rparr>)"
| mounts: "mount_once F C tid s = (m, s') \<Longrightarrow> gifter_step F C s Quiet s'"

inductive_simps gifter_step_simps [simp]:
  "gifter_step F C s (Reserves k) s'" "gifter_step F C s (Releases k) s'" "gifter_step F C s (Spends k) s'"

interpretation ledger: spend_once consumed "gifter_step F C" for F C
proof
  fix s s' k
  show "consumed s \<subseteq> consumed s'" if "gifter_step F C s Quiet s'"
    using that
  proof (cases rule: gifter_step.cases)
    case host
    then have "consumed s' = consumed s" by (intro consumed_core)
    then show ?thesis by simp
  next
    case (refuses req module n resp)
    then show ?thesis by (cases rule: reserve_cases) auto
  next
    case (mounts tid m)
    then show ?thesis by (simp add: mount_once_frame)
  qed (simp_all add: merge_nullifiers_def)
  show "k \<notin> consumed s \<and> insert k (consumed s) \<subseteq> consumed s'" if "gifter_step F C s (Reserves k) s'"
  proof -
    from that obtain req module n where "reserve C req module n s = (Inr (Some k), s')" by auto
    then show ?thesis by (cases rule: reserve_cases) auto
  qed
  show "consumed s - {k} \<subseteq> consumed s'" if "gifter_step F C s (Releases k) s'"
    using that by (auto simp: settle_consumed)
  show "consumed s \<subseteq> consumed s'" if "gifter_step F C s (Spends k) s'"
    using that by (auto simp: settle_consumed)
qed

text \<open>
  C4. No credential is spent twice: in every interleaving of the requests being handled with calls
  of \<open>serve\<close>, from the start of the process, the credentials spent so far are pairwise distinct, none
  of them is in flight, no credential is in flight twice, and all of them are in the spent set.
\<close>

theorem credentials_spent_once:
  assumes "(protocol (gifter_step F C))\<^sup>*\<^sup>* (boot fs w, [], []) (s, P, G)"
  shows "distinct G \<and> distinct P \<and> set P \<inter> set G = {} \<and> set P \<union> set G \<subseteq> consumed s"
  using ledger.spent_once [OF assms] by blast

theorem credentials_spent_once_witness:
  "distinct [''t:ab''] \<and> distinct ([] :: string list) \<and> set [] \<inter> set [''t:ab''] = {}
    \<and> set [] \<union> set [''t:ab''] \<subseteq> consumed ((boot Map.empty 0 :: nat gstate)\<lparr>consumed_nullifiers := Some {''t:ab''}\<rparr>)"
proof (rule credentials_spent_once)
  let ?b = "boot Map.empty 0 :: nat gstate"
  let ?s = "?b\<lparr>consumed_nullifiers := Some {''t:ab''}\<rparr>"
  let ?cfg = "sample_cfg\<lparr>nullifiers_path := []\<rparr>"
  have "reserve sample_crates world_request ''v'' (Some ''Ab'') ?b = (Inr (Some ''t:ab''), ?s)"
    by (simp add: reserve_def sample_norm auth_type_world Let_def)
  then have "protocol (gifter_step sample_ffi sample_crates) (?b, [], []) (?s, [''t:ab''], [])"
    by (intro protocol.reserves gifter_step.reserves)
  moreover have "gifter_step sample_ffi sample_crates ?s (Spends ''t:ab'')
      (settle sample_ffi ?cfg (Some ''t:ab'') (Inr (granted sample_cfg 7 [])) ?s)"
    by (rule gifter_step.spends) simp
  then have "gifter_step sample_ffi sample_crates ?s (Spends ''t:ab'') ?s"
    by (simp add: settle_def append_nullifier_def del: gifter_step_simps)
  then have "protocol (gifter_step sample_ffi sample_crates) (?s, [''t:ab''], [])
      (?s, remove1 ''t:ab'' [''t:ab''], [''t:ab''])"
    by (intro protocol.spends) simp_all
  ultimately show "(protocol (gifter_step sample_ffi sample_crates))\<^sup>*\<^sup>* (?b, [], []) (?s, [], [''t:ab''])"
    by (simp add: rtranclp.rtrancl_into_rtrancl)
qed

subsection \<open>The code's operations are runs of the protocol\<close>

















section \<open>Restarts\<close>

lemma normalized_plain:
  assumes "normalize_nullifier C raw = Some n" and "ascii_str raw"
  shows "plain n \<and> n \<noteq> []"
proof -
  from assms(1) have n: "n = lowercase C (trim raw)" "n \<noteq> []"
    and c: "list_all (\<lambda>c. \<not> is_whitespace c \<and> \<not> is_control c) (chars n)"
    by (auto simp: normalize_nullifier_def Let_def list_ex_iff list_all_iff split: if_splits)
  have t: "ascii_str (trim raw)"
    using assms(2) unfolding trim_ascii [OF assms(2)] trim_by_def ascii_str_def list_all_iff
    by (auto dest!: set_dropWhileD)
  then have a: "ascii_str n" "map ascii_lower n = n"
    by (simp_all add: n(1) lowercase_def to_lowercase_def ascii_str_lower)
  have l: "ascii_lower x = x" if "x \<in> set n" for x
    using a(2) that map_eq_conv [of ascii_lower n id] by simp
  have gen: "32 < k \<and> k < 127" if "\<not> is_whitespace k" "\<not> is_control k" "k < 128" for k
  proof -
    have "31 < k" "k < 127" using that(2,3) unfolding is_control_def by linarith+
    moreover have "k \<noteq> 32" using that(1) by (auto simp: is_whitespace_def)
    ultimately show ?thesis by simp
  qed
  have "32 < (of_char x :: nat) \<and> (of_char x :: nat) < 127" if "x \<in> set n" for x
  proof (rule gen)
    show "\<not> is_whitespace (of_char x)" "\<not> is_control (of_char x)"
      using c that by (simp_all add: chars_ascii [OF a(1)] list_all_iff)
    show "(of_char x :: nat) < 128" using a(1) that by (simp add: ascii_str_def list_all_iff)
  qed
  with l n(2) show ?thesis by (simp add: plain_def list_all_iff)
qed

lemma credential_plain:
  assumes "credential C req raw = Some nul" "plain (auth_type_of req)" "ascii_str raw"
  shows "plain nul \<and> nul \<noteq> []"
  using assms normalized_plain by (auto simp: credential_def ascii_lower_def)

text \<open>A disk that reads and appends in full, at any time.\<close>

definition steady_disk :: "'w ffi \<Rightarrow> string \<Rightarrow> bool" where
  "steady_disk F path \<longleftrightarrow>
     (\<forall>w. fs_readable F path w \<and> (\<forall>d. fs_append F path d w = Some (length d)))"

text \<open>
  C11. A spent credential stays spent across a restart: if the store file is intact and the disk
  writes, then what a request spends under a plain authentication type is spent again in a new
  process, in whatever state \<open>t\<close> it is, as soon as it serves with the same store path.
\<close>

theorem spent_survives_restart:
  assumes "handle_request F C tid buf s = Some (resp, s')"
    and "server s = Some cfg" "request_decode buf = Inr req" "plain (auth_type_of req)"
    and "\<And>vd raw. verdict_from F C tid cfg req (effective_rate cfg req) s vd \<Longrightarrow>
           v_nullifier vd = Some raw \<Longrightarrow> ascii_str raw"
    and "nullifiers_path cfg \<noteq> []" "steady_disk F (nullifiers_path cfg)" "store_ok s (nullifiers_path cfg)"
    and "files t = files s'" "serve F C tid' args t = (Inr r, s'')"
    and "from_str C args = Inr a" "path_of_args a = nullifiers_path cfg"
  shows "consumed s' - consumed s \<subseteq> consumed s''"
  using assms(1)
proof (cases rule: handle_request_spends)
  case (spent cfg' req' vd raw nul result s2)
  let ?p = "nullifiers_path cfg"
  have same: "cfg' = cfg" "req' = req" using spent(1,2) assms(2,3) by simp_all
  have nul: "plain nul" "nul \<noteq> []"
    using credential_plain [of C req raw nul] spent(3,5,6) assms(4,5) same by blast+
  have "store_ready F ?p s2"
    using assms(6-8) spent(11) by (simp add: store_ready_def store_ok_def writable_def steady_disk_def)
  then have "load_nullifiers F C ?p (append_nullifier F ?p nul s2)
      = insert nul (load_nullifiers F C ?p s2)"
    using nullifier_store.load_append [of F ?p s2 C nul] nul
    by (simp add: plain_storable plain_trim plain_lowercase)
  moreover have "load_nullifiers F C ?p t = load_nullifiers F C ?p u" if "files t = files u" for t u
    using that assms(7) by (auto simp: load_nullifiers_def read_to_string_def steady_disk_def split: option.split)
  moreover have "files s' = files (append_nullifier F ?p nul s2)" using spent(12) same by simp
  ultimately have l: "nul \<in> load_nullifiers F C ?p t" if "files t = files s'" for t
    using that by (metis insertI1)
  from assms(10) show ?thesis
  proof (cases rule: serve_cases)
    case (installed a' cfg'' s1 m)
    have d: "distinct (map fst kvs)" if "jget a' ''authVerifiers'' = Some (JObj kvs)" for kvs
      using from_str_distinct [OF installed(1) that] .
    from parse_verifiers_Ok [OF installed(6) d] have "files s1 = files s'"
      using assms(9) by (simp add: core_def)
    with l have "nul \<in> load_nullifiers F C ?p s1" by blast
    then have "nul \<in> consumed s''"
      using mount_once_frame(3) [OF installed(7)] installed(1,5) assms(11,12) by simp
    with spent(8) show ?thesis by auto
  qed simp_all
qed simp

theorem spent_survives_restart_witness:
  "consumed sample_after - consumed sample_state
     \<subseteq> consumed (sample_state\<lparr>files := files sample_after, consumed_nullifiers := Some {''t:ab''}\<rparr>)"
proof (rule spent_survives_restart [OF sample_run _ world_request_decodes])
  let ?t = "sample_state\<lparr>files := files sample_after\<rparr>"
  show "server sample_state = Some sample_cfg" by (simp add: sample_state_def)
  show "plain (auth_type_of world_request)" by (simp add: auth_type_world ascii_lower_def)
  show "ascii_str raw" if "verdict_from sample_ffi sample_crates 5 sample_cfg world_request
      (effective_rate sample_cfg world_request) sample_state vd" "v_nullifier vd = Some raw" for vd raw
    using that sample_verify_call [of sample_state]
    by (auto simp: verdict_from_def sample_cfg_def auth_type_world sample_off parse_verdict_tree
        verdict_accept_def)
  show "nullifiers_path sample_cfg \<noteq> []" by (simp add: sample_cfg_def)
  show "steady_disk sample_ffi (nullifiers_path sample_cfg)"
    by (simp add: steady_disk_def sample_ffi_def)
  show "store_ok sample_state (nullifiers_path sample_cfg)"
    by (simp add: store_ok_def sample_state_def)
  show "files ?t = files sample_after" by simp
  have l: "load_nullifiers sample_ffi sample_crates ''p'' ?t = {''t:ab''}"
  proof -
    have s: "store_ready sample_ffi ''p'' sample_state"
      by (simp add: store_ready_def store_ok_def writable_def sample_ffi_def sample_state_def)
    have "plain ''t:ab''" by (simp add: ascii_lower_def)
    then have "load_nullifiers sample_ffi sample_crates ''p'' (append_nullifier sample_ffi ''p'' ''t:ab'' sample_state)
      = insert ''t:ab'' (load_nullifiers sample_ffi sample_crates ''p'' sample_state)"
      using nullifier_store.load_append [OF s, of sample_crates "''t:ab''"]
      by (simp add: plain_storable plain_trim plain_lowercase del: plain_simps)
    then show ?thesis
      by (simp add: append_nullifier_def sample_ffi_def sample_after_def Let_def sample_state_def
          load_nullifiers_def read_to_string_def)
  qed
  show "serve sample_ffi sample_crates 0 ''S'' ?t = (Inr (JObj [(''mounted'', JBool True)]),
      sample_state\<lparr>files := files sample_after, consumed_nullifiers := Some {''t:ab''}\<rparr>)"
    using l by (simp add: serve_def sample_crates_def sample_parse_def from_str_def json_value.simps(6)
      call_then_def call_lift_def parse_verifiers_def sample_state_def sample_cfg_def Let_def
      ensure_client_def install_cfg_def merge_nullifiers_def mount_once_def
      consumed_def some_or_def less_list_code)
  show "from_str sample_crates ''S'' = Inr (json_value (projr (sample_parse ''S'')))"
    by (simp add: from_str_def sample_crates_def sample_parse_def)
  show "path_of_args (json_value (projr (sample_parse ''S''))) = nullifiers_path sample_cfg"
    by (simp add: path_of_args_def sample_parse_def json_value.simps(6) sample_cfg_def less_list_code)
qed

theorem nullifiers_roundtrip_witness:
  "load_nullifiers sample_ffi sample_crates ''p'' (fold (append_nullifier sample_ffi ''p'') [''t:ab'', ''u:0''] sample_state)
    = set [''t:ab'', ''u:0''] \<union> load_nullifiers sample_ffi sample_crates ''p'' sample_state"
  by (rule nullifiers_roundtrip)
     (simp_all add: store_ready_def store_ok_def writable_def sample_ffi_def sample_state_def ascii_lower_def)

section \<open>Where the protection has gaps\<close>



end
