(* ===== verification/Exchange.thy ===== *)
theory Exchange
  imports Client Replay
begin

text \<open>
  The whole exchange: the client's request, carried by libp2p to the gifter, and the gifter's
  answer carried back. The transport is the pair of byte strings the two sides exchange; the
  theorem composes the client, the wire codec, the base64 layer and the gifter node.
\<close>

section \<open>A sample exchange\<close>

definition gift_response :: rln_gifter_response where
  "gift_response = answer ''gift-01'' (Inr (granted sample_cfg 7 []))"

definition gift_parse :: "string \<Rightarrow> string + json" where
  "gift_parse s =
     (if s = ''A'' then Inr (JObj [(''gifterPeerId'', JStr ''peer''), (''gifterMultiaddr'', JStr ''addr''),
        (''identityCommitment'', JStr ''0x01'')])
      else if s = ''P'' then Inr (JObj [(''responseB64'', JStr (sample_hex_enc (response_encode gift_response)))])
      else Inl ''syntax'')"

definition gift_crates :: crates where
  "gift_crates = sample_crates\<lparr>js_parse := gift_parse\<rparr>"

definition gift_ffi :: "nat ffi" where
  "gift_ffi = sample_ffi\<lparr>lp_invoke_async := (\<lambda>_ _ _ _ w. ((0, Some (1, Some (as_bytes ''P''))), w + 1))\<rparr>"

lemma gift_crates_laws: "hex_laws gift_crates" "b64_laws gift_crates"
  using sample_crates_laws by (simp_all add: gift_crates_def hex_laws_def b64_laws_def)

lemma client_no_panic_example: "fst (request gift_ffi gift_crates 5 ''A'' sample_state) \<noteq> Panic"
  by (rule client_no_panic) (rule gift_crates_laws)

lemma client_refuses_early_example:
  "\<exists>e. request gift_ffi gift_crates 5 ''B'' sample_state = (Err e, sample_state)"
  by (rule client_refuses_early) (simp add: gift_crates_def from_str_def gift_parse_def)

lemma sample_success_short: "length (success_encode (granted sample_cfg 7 [])) \<le> 105"
  using length_field_bytes_le(2) [of 1 7] length_field_bytes_le(2) [of 3 0]
    length_field_bytes_le(1) [of 2 "[]"] length_field_bytes_le(1) [of 4 "[]"]
    length_field_bytes_le(1) [of 100 "as_bytes ''cfg''"]
  by (simp add: success_encode_fields success_fields_def granted_def sample_cfg_def del: field_bytes.simps)

lemma gift_response_decodes: "response_decode (response_encode gift_response) = Inr gift_response"
proof (rule response_msg.decode_encode)
  show "response_wf gift_response"
    by (simp add: gift_response_def answer_def granted_def sample_cfg_def response_wf_def success_wf_def
        valid_str_ascii)
  let ?g = "granted sample_cfg 7 []"
  show "length (response_encode gift_response) < vec_limit"
    using sample_success_short length_field_bytes_le(1) [of 1 "as_bytes ''gift-01''"] length_field_bytes_le(2) [of 2 1]
      length_field_bytes_le(1) [of 4 "success_encode ?g"]
    by (simp add: response_encode_fields response_fields_def gift_response_def answer_def vec_limit_def
        del: field_bytes.simps)
qed

lemma gift_call:
  "call_libp2p gift_ffi gift_crates 5 ''protocolRequest'' a t sample_state
    = (Inr (JObj [(''responseB64'', JStr (sample_hex_enc (response_encode gift_response)))]),
       sample_state\<lparr>calls := [(LIBP2P_MODULE, ''protocolRequest'', a, t)], outside := 1\<rparr>)"
proof -
  have "c_str (Some (as_bytes ''P'')) = ''P''"
    by (simp add: c_str_def valid_str_ascii del: as_bytes_simps)
  then have "call_json gift_ffi gift_crates 5 LIBP2P_MODULE ''protocolRequest'' a t sample_state
    = (Inr (parse_ok gift_crates ''P''),
       sample_state\<lparr>calls := [(LIBP2P_MODULE, ''protocolRequest'', a, t)], outside := 1\<rparr>)"
    by (simp add: call_json_def client_ptr_off_owner client_table_def sample_state_def LIBP2P_MODULE_def
        RLN_MODULE_def on_owner_thread_def cstring_ok_def gift_crates_def sample_crates_def gift_ffi_def
        reply_trampoline_def del: as_bytes_simps)
  then show ?thesis
    by (simp add: call_libp2p_def call_then_def call_lift_def parse_ok_def from_str_def gift_crates_def
        gift_parse_def json_value.simps(6) unwrap_libp2p_def)
qed

lemma gift_run:
  "request gift_ffi gift_crates 5 ''A'' sample_state
    = (Ok (reply_document gift_crates ''01'' (granted sample_cfg 7 [])),
       snd (request gift_ffi gift_crates 5 ''A'' sample_state))"
proof -
  define a where "a = json_value (JObj [(''gifterPeerId'', JStr ''peer''), (''gifterMultiaddr'', JStr ''addr''),
    (''identityCommitment'', JStr ''0x01'')])"
  define ca where "ca = \<lparr>gifter_peer_id = ''peer'', gifter_multiaddr = ''addr'', id_commitment_hex = ''01'',
    id_commitment = [1], req_rate = 0\<rparr>"
  have hx: "hex_dec gift_crates ''01'' = Inr [1]" "lowercase gift_crates ''01'' = ''01''"
    by (simp_all add: gift_crates_def sample_crates_def digit_value_def hex_digits_def lowercase_def to_lowercase_def ascii_lower_def)
  have p: "from_str gift_crates ''A'' = Inr a" "parse_client_args gift_crates a = Inr ca"
    by (simp add: a_def gift_crates_def from_str_def gift_parse_def)
       (simp add: a_def ca_def parse_client_args_def json_value.simps(6) str_or_def less_list_code hx)
  have auth: "auth_payload_of gift_ffi gift_crates 5 a h s = (Inr [], s)" for h s
    by (simp add: a_def auth_payload_of_def str_or_def json_value.simps(6) less_list_code call_lift_def)
  obtain req where r: "build_request a ca [] = Ok req" "request_id req = ''gift-01''"
    using build_request_Ok [OF gift_crates_laws(1) p(2), of "[]"] by (simp add: ca_def)
  have "read_response gift_crates ''gift-01'' ''01''
      (JObj [(''responseB64'', JStr (sample_hex_enc (response_encode gift_response)))])
    = Inr (reply_document gift_crates ''01'' (granted sample_cfg 7 []))"
    by (simp add: read_response_def b64_decode_def gift_crates_def sample_crates_def sample_hex_roundtrip gift_response_decodes)
       (simp add: check_response_def gift_response_def answer_def)
  then show ?thesis
    using p r by (simp add: request_def act_then_def act_call_def act_lift_def auth gift_call)
      (simp add: ca_def)
qed

lemma client_reports_grant_example:
  "\<exists>a ca payload s1 req pr b64text bs resp g. from_str gift_crates ''A'' = Inr a
    \<and> parse_client_args gift_crates a = Inr ca
    \<and> auth_payload_of gift_ffi gift_crates 5 a (id_commitment_hex ca) sample_state = (Inr payload, s1)
    \<and> identity_commitment req = id_commitment ca \<and> authentication_payload req = payload
    \<and> authentication_type req = as_bytes (str_or a ''authType'' [])
    \<and> call_libp2p gift_ffi gift_crates 5 ''protocolRequest'' (protocol_request_args gift_crates ca req)
        REQUEST_CALL_TIMEOUT_MS s1 = (Inr pr, snd (request gift_ffi gift_crates 5 ''A'' sample_state))
    \<and> get_str pr ''responseB64'' = Some b64text \<and> b64_decode gift_crates b64text = Inr bs
    \<and> response_decode bs = Inr resp \<and> resp_request_id resp = request_id req
    \<and> auth_success resp \<and> success resp = Some g
    \<and> reply_document gift_crates ''01'' (granted sample_cfg 7 [])
        = reply_document gift_crates (id_commitment_hex ca) g"
  by (rule client_reports_grant [OF gift_run])

section \<open>End to end\<close>

lemma reply_document_fields:
  "get_u64 (reply_document C h g) ''leaf_index'' = Some (leaf_index g)"
  "get_str (reply_document C h g) ''config_account'' = config_account_id g"
  "get_str (reply_document C h g) ''id_commitment'' = Some h"
  by (simp_all add: reply_document_def Let_def map_of_obj_insert split: option.split)

lemma client_request_decodes:
  assumes "hex_laws C" "parse_client_args C a = Inr ca" "build_request a ca payload = Ok req"
    and "length (request_encode req) < vec_limit"
  shows "request_decode (request_encode req) = Inr req"
    and "identity_commitment req = id_commitment ca"
proof -
  have "request_id req = ''gift-'' @ take 16 (id_commitment_hex ca)"
    and i: "identity_commitment req = id_commitment ca"
    using build_request_Ok [OF assms(1,2), of payload] assms(3) by auto
  moreover have "ascii_str (take 16 (id_commitment_hex ca))"
    using commitment_ascii [OF assms(1,2)] by (auto simp: ascii_str_def list_all_iff dest: in_set_takeD)
  ultimately have "request_wf req" by (simp add: request_wf_def valid_str_ascii)
  then show "request_decode (request_encode req) = Inr req"
    using assms(4) by (rule request_msg.decode_encode)
  show "identity_commitment req = id_commitment ca" by (rule i)
qed

text \<open>
  C5. The exchange end to end. The gifter decodes exactly the request the client built; the client
  succeeds exactly when the gifter's response carries a grant; and then the document it returns
  names its own commitment, a leaf index that the registry reported for that commitment, and the
  account the gifter is configured with.
\<close>

theorem gift_end_to_end:
  assumes laws: "hex_laws C" "b64_laws C"
    and client: "parse_client_args C a = Inr ca" "build_request a ca payload = Ok req"
    and size: "length (request_encode req) < vec_limit" "length (response_encode resp) < vec_limit"
    and there: "b64_decode C (b64 C (request_encode req)) = Inr buf"
    and gifter: "handle_request F C tid buf s = Some (resp, s')"
    and utf8: "response_wf resp"
    and home: "get_str pr ''responseB64'' = Some (b64 C (response_encode resp))"
  shows "request_decode buf = Inr req
    \<and> ((\<exists>doc. read_response C (request_id req) (id_commitment_hex ca) pr = Inr doc) \<longleftrightarrow> success resp \<noteq> None)
    \<and> (\<forall>doc. read_response C (request_id req) (id_commitment_hex ca) pr = Inr doc \<longrightarrow>
        get_str doc ''id_commitment'' = Some (id_commitment_hex ca)
        \<and> (\<exists>cfg leaf. server s = Some cfg \<and> get_u64 doc ''leaf_index'' = Some leaf
            \<and> chain_reports F C tid cfg (hex_enc C (id_commitment ca)) leaf
            \<and> get_str doc ''config_account'' = Some (config cfg)))"
proof -
  have b: "b64_decode C (b64 C x) = Inr x" for x
    using laws(2) by (simp add: b64_laws_def b64_decode_def b64_def)
  then have buf: "buf = request_encode req" using there by simp
  note dec = client_request_decodes [OF laws(1) client size(1)]
  have "response_decode (response_encode resp) = Inr resp"
    using utf8 size(2) by (rule response_msg.decode_encode)
  then have rd: "read_response C (request_id req) h pr
      = try_then (check_response (request_id req) resp) (\<lambda>g. Inr (reply_document C h g))" for h
    using home b by (simp add: read_response_def)
  have grant: "\<exists>cfg. server s = Some cfg \<and> resp_request_id resp = request_id req \<and> auth_success resp
      \<and> chain_reports F C tid cfg (hex_enc C (id_commitment ca)) (leaf_index g)
      \<and> config_account_id g = Some (config cfg)" if "success resp = Some g" for g
    using handle_request_success [OF gifter that] buf dec by auto
  show ?thesis
  proof (cases "success resp")
    case None
    then have "\<exists>e. check_response (request_id req) resp = Inl e" by (auto simp: check_response_def)
    with None dec buf rd show ?thesis by auto
  next
    case (Some g)
    from grant [OF Some] obtain cfg where g: "server s = Some cfg" "resp_request_id resp = request_id req"
      "auth_success resp" "chain_reports F C tid cfg (hex_enc C (id_commitment ca)) (leaf_index g)"
      "config_account_id g = Some (config cfg)" by blast
    then have "check_response (request_id req) resp = Inr g" using Some by (simp add: check_response_def)
    with rd have "read_response C (request_id req) h pr = Inr (reply_document C h g)" for h by simp
    with g Some dec(1) buf show ?thesis by (simp add: reply_document_fields)
  qed
qed

definition world_args :: json where
  "world_args = JObj [(''gifterPeerId'', JStr ''peer''), (''gifterMultiaddr'', JStr ''addr''),
     (''identityCommitment'', JStr (sample_hex_enc (replicate 32 1))), (''authType'', JStr ''t''),
     (''rate'', JNum (PosInt 60))]"

definition world_client :: client_args where
  "world_client = \<lparr>gifter_peer_id = ''peer'', gifter_multiaddr = ''addr'',
     id_commitment_hex = sample_hex_enc (replicate 32 1), id_commitment = replicate 32 1, req_rate = 60\<rparr>"

lemma world_hex: "take 16 (sample_hex_enc (replicate 32 1)) = ''0101010101010101''"
  "trim_0x (sample_hex_enc (replicate 32 1)) = sample_hex_enc (replicate 32 1)"
  by code_simp+

lemma lower_hex_is_lower: "lower_hex_digit c \<Longrightarrow> ascii_lower c = c"
proof -
  have "list_all (\<lambda>c. ascii_lower c = c) ''0123456789abcdef''" by code_simp
  then show "lower_hex_digit c \<Longrightarrow> ascii_lower c = c"
    unfolding lower_hex_digit_def list_all_iff by blast
qed

lemma world_client_args: "parse_client_args sample_crates world_args = Inr world_client"
proof -
  have "list_all lower_hex_digit (sample_hex_enc b)" for b by (rule sample_hex_laws_enc)
  then have "ascii_str (sample_hex_enc b)" for b
    by (intro hex_string_ascii) (auto simp: list_all_iff lower_hex_is_hex)
  moreover have "map ascii_lower (sample_hex_enc b) = sample_hex_enc b" for b
    using sample_hex_laws_enc(2) [of b]
    by (intro map_idI) (auto simp: list_all_iff lower_hex_is_lower)
  ultimately have "lowercase sample_crates (sample_hex_enc b) = sample_hex_enc b" for b
    by (simp add: lowercase_def to_lowercase_def)
  moreover have "sample_hex_enc (replicate 32 1) \<noteq> []"
    using sample_hex_laws_enc(1) [of "replicate 32 1"] by auto
  moreover have "hex_dec sample_crates (sample_hex_enc b) = Inr b" for b
    using sample_crates_laws(1) by (simp add: hex_laws_def sample_crates_def)
  ultimately show ?thesis
    by (simp add: parse_client_args_def world_args_def world_client_def str_or_def world_hex(2)
        del: sample_hex_enc.simps)
qed

abbreviation world_response :: rln_gifter_response where
  "world_response \<equiv> answer (request_id world_request) (Inr (granted sample_cfg 7 []))"

theorem gift_end_to_end_witness:
  "\<exists>doc cfg leaf. request_decode (request_encode world_request) = Inr world_request
    \<and> read_response sample_crates (request_id world_request) (id_commitment_hex world_client)
        (JObj [(''responseB64'', JStr (b64 sample_crates (response_encode world_response)))]) = Inr doc
    \<and> get_str doc ''id_commitment'' = Some (id_commitment_hex world_client)
    \<and> server sample_state = Some cfg \<and> get_u64 doc ''leaf_index'' = Some leaf
    \<and> chain_reports sample_ffi sample_crates 5 cfg (hex_enc sample_crates (id_commitment world_client)) leaf
    \<and> get_str doc ''config_account'' = Some (config cfg)"
proof -
  let ?pr = "JObj [(''responseB64'', JStr (b64 sample_crates (response_encode world_response)))]"
  have req: "build_request world_args world_client [] = Ok world_request"
    using build_request_Ok [OF sample_crates_laws(1) world_client_args, of "[]"]
    by (simp add: world_client_def world_hex world_request_def world_args_def str_or_def
        del: sample_hex_enc.simps)
  have b: "b64_decode sample_crates (b64 sample_crates (request_encode world_request))
      = Inr (request_encode world_request)"
    using sample_crates_laws(2) by (simp add: b64_laws_def b64_decode_def b64_def)
  have wf: "response_wf world_response"
    by (simp add: answer_def granted_def sample_cfg_def response_wf_def success_wf_def
        valid_str_ascii world_request_def)
  have short: "length (response_encode world_response) < vec_limit"
    using sample_success_short length_field_bytes_le(1) [of 1 "as_bytes (request_id world_request)"]
      length_field_bytes_le(2) [of 2 1] length_field_bytes_le(1) [of 4 "success_encode (granted sample_cfg 7 [])"]
    by (simp add: response_encode_fields response_fields_def answer_def vec_limit_def world_request_def
        del: field_bytes.simps)
  have "get_str ?pr ''responseB64'' = Some (b64 sample_crates (response_encode world_response))" by simp
  note e2e = gift_end_to_end [OF sample_crates_laws world_client_args req world_request_short short b
      sample_run wf this]
  have "success world_response \<noteq> None" by (simp add: answer_def)
  with e2e show ?thesis by blast
qed

end
