(* ===== verification/Gifter_Module.thy ===== *)
theory Gifter_Module
  imports Exchange
begin

text \<open>
  The module's surface, \<open>rust/rln-gifter-module/rust-lib/src/lib.rs\<close>: the methods the host calls, and
  the module as a transition system over them with its reachable states. The generic SDK client that
  \<open>libp2p_call\<close> uses is a parameter.
\<close>

section \<open>The methods\<close>

definition error_text :: "crates \<Rightarrow> string \<Rightarrow> string" where
  "error_text C e = js_print C (JObj [(''error'', JStr e)])"

definition module_request :: "'w ffi \<Rightarrow> crates \<Rightarrow> nat \<Rightarrow> string \<Rightarrow> ('w gstate, unit, string) action" where
  "module_request F C tid args_json s =
     (case request F C tid args_json s of
        (Ok v, s') \<Rightarrow> (Ok (js_print C v), s')
      | (Err e, s') \<Rightarrow> (Ok (error_text C e), s')
      | (Panic, s') \<Rightarrow> (Panic, s')
      | (Diverge, s') \<Rightarrow> (Diverge, s'))"

definition module_serve :: "'w ffi \<Rightarrow> crates \<Rightarrow> nat \<Rightarrow> string \<Rightarrow> 'w gstate \<Rightarrow> string \<times> 'w gstate" where
  "module_serve F C tid args_json s =
     (case serve F C tid args_json s of
        (Inr v, s') \<Rightarrow> (js_print C v, s')
      | (Inl e, s') \<Rightarrow> (error_text C e, s'))"

text \<open>\<open>sdk\<close> is \<open>LogosModuleSDK::new().plugin("libp2p_module").call_json\<close>, with its error as text.\<close>

definition libp2p_call ::
  "(string \<Rightarrow> json \<Rightarrow> 'w \<Rightarrow> (string + json) \<times> 'w) \<Rightarrow> crates \<Rightarrow> string \<Rightarrow> 'w gstate \<Rightarrow> string \<times> 'w gstate" where
  "libp2p_call sdk C args_json s =
     (case from_str C args_json of
        Inl e \<Rightarrow> (error_text C e, s)
      | Inr a \<Rightarrow>
          (case get_str a ''method'' of
             None \<Rightarrow> (error_text C ''missing method'', s)
           | Some method \<Rightarrow>
               let args = (case jget a ''args'' of Some x \<Rightarrow> x | None \<Rightarrow> JArr []) in
               (case sdk method args (outside s) of
                  (Inr v, w) \<Rightarrow> (js_print C v, s\<lparr>outside := w\<rparr>)
                | (Inl e, w) \<Rightarrow> (error_text C e, s\<lparr>outside := w\<rparr>))))"

definition on_context_ready :: "'w ffi \<Rightarrow> nat \<Rightarrow> 'w gstate \<Rightarrow> 'w gstate" where
  "on_context_ready F tid s = lp_init F tid [LIBP2P_MODULE, RLN_MODULE] s"

section \<open>Reachable states\<close>

text \<open>The serve worker runs only if it was spawned, on a thread of its own.\<close>

inductive module_step ::
  "'w ffi \<Rightarrow> crates \<Rightarrow> (string \<Rightarrow> json \<Rightarrow> 'w \<Rightarrow> (string + json) \<times> 'w) \<Rightarrow> 'w gstate \<Rightarrow> 'w gstate \<Rightarrow> bool"
  for F C sdk where
  ready: "module_step F C sdk s (on_context_ready F tid s)"
| requests: "module_request F C tid args s = (r, s') \<Longrightarrow> module_step F C sdk s s'"
| serves: "module_serve F C tid args s = (r, s') \<Longrightarrow> module_step F C sdk s s'"
| relays: "libp2p_call sdk C args s = (r, s') \<Longrightarrow> module_step F C sdk s s'"
| works: "0 < workers s \<Longrightarrow> worker_turn F C tid s = Some s' \<Longrightarrow> module_step F C sdk s s'"

definition reachable where
  "reachable F C sdk s \<longleftrightarrow> (\<exists>fs w. (module_step F C sdk)\<^sup>*\<^sup>* (boot fs w) s)"

text \<open>What operations other than \<open>serve\<close> never take away.\<close>

definition steady :: "'w gstate \<Rightarrow> 'w gstate \<Rightarrow> bool" where
  "steady s s' \<longleftrightarrow> server s' = server s \<and> serving s' = serving s \<and> workers s' = workers s
     \<and> (\<forall>k. client_table s k \<noteq> None \<longrightarrow> client_table s' k \<noteq> None)"

lemma steady_refl [simp]: "steady s s"
  by (simp add: steady_def)

lemma steady_trans: "steady s t \<Longrightarrow> steady t u \<Longrightarrow> steady s u"
  by (auto simp: steady_def)

lemma steady_updates [simp]:
  "steady s (s\<lparr>outside := w\<rparr>)" "steady s (s\<lparr>consumed_nullifiers := c\<rparr>)" "steady s (s\<lparr>files := f\<rparr>)"
  "steady s (s\<lparr>owner := t\<rparr>)"
  by (simp_all add: steady_def client_table_def)

lemma steady_call: 
  "steady s (snd (call_module_json F C tid target m args t s))"
  "steady s (snd (call_libp2p F C tid m args t s))"
  using coreD [OF call_frame_core [OF call_module_json_frame [of target m args t s F C tid]]]
    coreD [OF call_frame_core [OF call_libp2p_frame [of m args t s F C tid]]]
  by (simp_all add: steady_def call_module_json_keeps_clients call_libp2p_keeps_clients)

lemma confirm_loop_rel:
  assumes "confirm_loop F C tid cfg idc tx deadline s = Some (r, s')"
    and refl: "\<And>s. R s s" and trans: "\<And>s t u. R s t \<Longrightarrow> R t u \<Longrightarrow> R s u"
    and out: "\<And>s w. R s (s\<lparr>outside := w\<rparr>)"
    and call: "\<And>target method args t s. R s (snd (call_module_json F C tid target method args t s))"
  shows "R s s'"
proof -
  have asked: "R s s1" if "ask_membership F C tid cfg idc s = (m, s1)" for s m s1
    using that call [of s RLN_MODULE "''get_membership''" "get_membership_args cfg idc" GET_MEMBERSHIP_TIMEOUT_MS]
    by simp
  from assms(1) show ?thesis
  proof (induction rule: confirm_loop_induct)
    case (expired s m s1 w)
    from trans [OF asked [OF expired] out] show ?case .
  next
    case (again s m s1 w r s')
    from trans [OF trans [OF asked [OF again(1)] out] again(2)] show ?case .
  qed (rule asked)
qed

lemma steady_register:
  assumes "register F C tid cfg idc rate s = Some (r, s')"
  shows "steady s s'"
proof -
  obtain m s1 where c: "call_module_json F C tid RLN_MODULE ''register_member''
      (register_args C cfg idc rate) REGISTER_TIMEOUT_MS s = (m, s1)" by fastforce
  have 1: "steady s s1" using steady_call(1) [of s F C tid RLN_MODULE "''register_member''"] c by (metis snd_conv)
  show ?thesis
  proof (cases m)
    case (Inl e)
    with assms c 1 show ?thesis by (simp add: register_def)
  next
    case (Inr reply)
    obtain now w where n: "instant_now F (outside s1) = (now, w)" by fastforce
    from assms c Inr n have l: "confirm_loop F C tid cfg (hex_enc C idc) (tx_hash_of C reply)
        (now + CONFIRM_BUDGET) (s1\<lparr>outside := w\<rparr>) = Some (r, s')" by (simp add: register_def)
    have "steady (s1\<lparr>outside := w\<rparr>) s'"
      by (rule confirm_loop_rel [OF l, where R = steady])
         (rule steady_refl, erule (1) steady_trans, rule steady_updates(1), rule steady_call(1))
    then show ?thesis by (rule steady_trans [OF steady_trans [OF 1 steady_updates(1)]])
  qed
qed

lemma steady_authenticate:
  assumes "authenticate F C tid cfg req rate s = (r, s')"
  shows "steady s s'"
proof (cases "auth_verifiers cfg = []")
  case True
  with assms show ?thesis by (simp add: authenticate_def)
next
  case False
  obtain a s1 where a: "ask_verifier F C tid cfg req rate s = (a, s1)" by fastforce
  have "steady s s2" if "call_module_json F C tid m VERIFY_METHOD x t s = (y, s2)" for m x t y s2
    using steady_call(1) [of s F C tid m VERIFY_METHOD x t] that by simp
  with a have 1: "steady s s1"
    by (auto simp: ask_verifier_def split: option.splits prod.splits sum.splits if_splits)
  from assms a False consider "s' = s1" | m n where "reserve C req m n s1 = (r, s')"
    by (cases a) (auto simp: authenticate_def split: prod.splits)
  then show ?thesis
  proof cases
    case 2
    then have "s' = s1 \<or> (\<exists>c. s' = s1\<lparr>consumed_nullifiers := c\<rparr>)"
      by (cases rule: reserve_cases) auto
    with 1 steady_trans steady_updates(2) show ?thesis by blast
  qed (use 1 in simp)
qed

lemma steady_settle: "steady s (settle F cfg a r s)"
  by (auto simp: settle_def append_nullifier_def Let_def split: option.split sum.split register_error.split)

lemma steady_handle_request:
  assumes "handle_request F C tid buf s = Some (resp, s')"
  shows "steady s s'"
  using assms
proof (cases rule: handle_request_cases)
  case (refused req cfg)
  then show ?thesis by (auto intro: steady_authenticate)
next
  case (registered req cfg authorized s1 result s2)
  note a = steady_authenticate [OF registered(4)] and r = steady_register [OF registered(5)]
  show ?thesis unfolding registered(7)
    by (rule steady_trans [OF steady_trans [OF a r] steady_settle])
qed simp

lemma steady_libp2p: "call_libp2p F C tid m a t s = (r, s') \<Longrightarrow> steady s s'"
  using steady_call(2) [of s F C tid m a t] by simp

lemma steady_worker_turn:
  assumes "worker_turn F C tid s = Some s'"
  shows "steady s s'"
proof -
  let ?a = "blob C (JObj [(''proto'', JStr RLN_GIFTER_CODEC), (''timeoutMs'', jint ACCEPT_TIMEOUT_MS)])"
  obtain acc s1 where c: "call_libp2p F C tid ''protocolAcceptStream'' ?a ACCEPT_TIMEOUT_MS s = (acc, s1)"
    by fastforce
  note 1 = steady_libp2p [OF c]
  from assms c consider "s' = s1" | sid r where "handle_stream F C tid sid s1 = Some (r, s')"
    by (auto simp: worker_turn_def split: option.splits)
  then show ?thesis
  proof cases
    case 2
    then consider (stop) m a t r where "call_libp2p F C tid m a t s1 = (r, s')"
      | (go) m a t r s2 buf resp s3 b c where "call_libp2p F C tid m a t s1 = (r, s2)"
          "handle_request F C tid buf s2 = Some (resp, s3)"
          "s' = snd (call_libp2p F C tid ''streamReleaseJson'' b 10000
            (snd (call_libp2p F C tid ''streamWriteLpJson'' c (WRITE_TIMEOUT_MS + 10000) s3)))"
      by (auto simp: handle_stream_def Let_def split: sum.splits prod.splits bind_splits)
    then show ?thesis
    proof cases
      case stop
      from steady_trans [OF 1 steady_libp2p [OF this]] show ?thesis .
    next
      case (go m a t r s2 buf resp s3 b c)
      note h = steady_trans [OF steady_trans [OF 1 steady_libp2p [OF go(1)]] steady_handle_request [OF go(2)]]
      show ?thesis unfolding go(3)
        by (rule steady_trans [OF steady_trans [OF h steady_call(2)] steady_call(2)])
    qed
  qed (use 1 in simp)
qed

lemma steady_request:
  assumes "request F C tid args s = (r, s')"
  shows "steady s s'"
proof -
  have pay: "steady s s1" if "auth_payload_of F C tid a h s = (p, s1)" for a h p s1
    using that steady_call(1) [of s F C tid]
    by (auto simp: auth_payload_of_def Let_def call_lift_def call_then_def
        split: if_splits sum.splits prod.splits) (metis snd_conv)+
  from assms show ?thesis
  proof (cases rule: request_cases)
    case (no_reply a ca payload s1 req e)
    from steady_trans [OF pay [OF no_reply(3)] steady_libp2p [OF no_reply(5)]] show ?thesis .
  next
    case (reply a ca payload s1 req pr)
    from steady_trans [OF pay [OF reply(3)] steady_libp2p [OF reply(5)]] show ?thesis .
  qed (auto dest: pay)
qed

subsection \<open>The invariant\<close>

definition module_inv :: "'w gstate \<Rightarrow> bool" where
  "module_inv s \<longleftrightarrow> workers s = (if serving s then 1 else 0) \<and> (serving s \<longrightarrow> server s \<noteq> None)
     \<and> (\<forall>cfg t m c. server s = Some cfg \<longrightarrow> map_of (auth_verifiers cfg) t = Some (m, c) \<longrightarrow>
          m \<noteq> [] \<and> client_table s m \<noteq> None)"

lemma module_inv_steady: "module_inv s \<Longrightarrow> steady s s' \<Longrightarrow> module_inv s'"
  by (auto simp: module_inv_def steady_def)

lemma module_inv_serve:
  assumes "serve F C tid args s = (r, s')" and inv: "module_inv s"
  shows "module_inv s'"
  using assms(1)
proof (cases rule: serve_cases)
  case (bad_args e)
  with inv show ?thesis by simp
next
  case (bad_verifiers e)
  then have "steady s s'" using coreD [OF bad_verifiers(2)] by (simp add: steady_def)
  with inv show ?thesis by (rule module_inv_steady)
next
  case (installed a cfg s1 m)
  have d: "distinct (map fst kvs)" if "jget a ''authVerifiers'' = Some (JObj kvs)" for kvs
    using from_str_distinct [OF installed(1) that] .
  note pv = parse_verifiers_Ok [OF installed(6) d]
  have c1: "core s1 = core s" using pv by blast
  note f = mount_once_frame [OF installed(7)]
  have "server s' = Some cfg" using f(2) by simp
  moreover have "m' \<noteq> [] \<and> client_table s' m' \<noteq> None" if "map_of (auth_verifiers cfg) t = Some (m', c)" for t m' c
  proof -
    have "m' \<noteq> [] \<and> client_table s1 m' \<noteq> None" using pv that by blast
    with mount_once_keeps_clients [OF installed(7), of m'] show ?thesis by simp
  qed
  moreover have "workers s' = (if serving s' then 1 else 0)"
    using serve_workers [OF assms(1)] inv by (simp add: module_inv_def)
  ultimately show ?thesis by (simp add: module_inv_def)
qed

lemma module_inv_step: "module_step F C sdk s s' \<Longrightarrow> module_inv s \<Longrightarrow> module_inv s'"
proof (induction rule: module_step.induct)
  case (ready s tid)
  have "steady s (fold (\<lambda>t s. snd (create_client F t s)) ts s)" for ts s
  proof (induction ts arbitrary: s)
    case (Cons t ts)
    have "steady s (snd (create_client F t s))"
      using coreD [OF create_client_frame(1) [of F t s]] create_client_keeps [of s _ _ F t]
      by (fastforce simp: steady_def)
    from steady_trans [OF this Cons] show ?case by simp
  qed simp
  then have "steady s (on_context_ready F tid s)"
    unfolding on_context_ready_def lp_init_def by (rule steady_trans [OF steady_updates(4)])
  with ready show ?case by (blast intro: module_inv_steady)
next
  case (requests tid args s r s')
  then have "\<exists>r. request F C tid args s = (r, s')"
    by (auto simp: module_request_def split: prod.splits outcome.splits)
  with requests.prems show ?case by (blast intro: module_inv_steady steady_request)
next
  case (serves tid args s r s')
  then have "\<exists>r. serve F C tid args s = (r, s')"
    by (auto simp: module_serve_def split: prod.splits sum.splits)
  with serves.prems show ?case by (blast intro: module_inv_serve)
next
  case (relays args s r s')
  then have "s' = s \<or> (\<exists>w. s' = s\<lparr>outside := w\<rparr>)"
    by (auto simp: libp2p_call_def Let_def split: sum.splits option.splits prod.splits)
  with relays.prems show ?case by (auto intro: module_inv_steady)
next
  case (works s tid s')
  then show ?case by (blast intro: module_inv_steady steady_worker_turn)
qed

lemma reachable_inv: "reachable F C sdk s \<Longrightarrow> module_inv s"
proof -
  assume "reachable F C sdk s"
  then obtain fs w where "(module_step F C sdk)\<^sup>*\<^sup>* (boot fs w) s" by (auto simp: reachable_def)
  then show ?thesis
    by (induction rule: rtranclp_induct) (simp add: module_inv_def, rule module_inv_step)
qed

text \<open>
  C13. The module's invariant: in every state the module can reach through its methods and its
  worker, there is at most one worker, a worker runs only with a configuration in place (so no peer
  is ever told that the gifter is not configured), and every configured verifier is a named module
  whose client is open, so the worker, which cannot open clients itself, can call it.
\<close>

theorem module_invariant:
  assumes "reachable F C sdk s"
  shows "workers s \<le> 1 \<and> (workers s = 1 \<longleftrightarrow> serving s) \<and> (0 < workers s \<longrightarrow> server s \<noteq> None)
    \<and> (\<forall>cfg t m c tid. server s = Some cfg \<longrightarrow> map_of (auth_verifiers cfg) t = Some (m, c) \<longrightarrow>
         m \<noteq> [] \<and> fst (client_ptr F tid m s) \<noteq> None)"
proof -
  have inv: "module_inv s" using assms by (rule reachable_inv)
  have "fst (client_ptr F tid m s) \<noteq> None" if "client_table s m \<noteq> None" for tid m
    using client_ptr_keeps [OF that, of F tid m] by (simp add: client_ptr_def Let_def bind_client)
  with inv show ?thesis by (auto simp: module_inv_def)
qed

definition started_state :: "nat gstate" where
  "started_state = snd (module_serve sample_ffi sample_crates 0 ''S''
     (on_context_ready sample_ffi 0 (boot Map.empty 0)))"

lemma started_fields: "workers started_state = 1 \<and> server started_state = Some sample_cfg"
  by (simp add: started_state_def module_serve_def on_context_ready_def lp_init_def create_client_def
      cstring_ok_def LIBP2P_MODULE_def RLN_MODULE_def sample_ffi_def client_table_def boot_def)
     (simp add: serve_def sample_crates_def sample_parse_def from_str_def json_value.simps(6)
      call_then_def call_lift_def parse_verifiers_def Let_def ensure_client_def install_cfg_def
      merge_nullifiers_def mount_once_def load_nullifiers_def read_to_string_def consumed_def some_or_def
      less_list_code call_libp2p_def call_json_def client_ptr_def on_owner_thread_def cstring_ok_def
      LIBP2P_MODULE_def create_client_def client_table_def sample_reply_def VERIFY_METHOD_def c_str_def
      parse_ok_def unwrap_libp2p_def from_utf8_lossy_def sample_cfg_def)

theorem module_invariant_witness:
  "workers started_state = 1 \<and> serving started_state
    \<and> fst (client_ptr sample_ffi 7 ''v'' started_state) \<noteq> None"
proof -
  let ?sdk = "\<lambda>_ _ w. (Inr JNull, w)"
  let ?b = "boot Map.empty 0 :: nat gstate"
  have "module_step sample_ffi sample_crates ?sdk ?b (on_context_ready sample_ffi 0 ?b)"
    by (rule module_step.ready)
  moreover have "module_step sample_ffi sample_crates ?sdk (on_context_ready sample_ffi 0 ?b) started_state"
    unfolding started_state_def by (rule module_step.serves [OF surjective_pairing])
  ultimately have "reachable sample_ffi sample_crates ?sdk started_state"
    unfolding reachable_def by (intro exI) (rule rtranclp.rtrancl_into_rtrancl [OF r_into_rtranclp])
  from module_invariant [OF this] started_fields show ?thesis by (auto simp: sample_cfg_def)
qed

end
