(* ===== verification/Gifting.thy ===== *)
theory Gifting
  imports Replay
begin

text \<open>
  The gifter over its whole life: requests, calls of \<open>serve\<close>, crashes and restarts, interleaved at
  the critical sections of the code. The theory states what a deployment has to provide for its
  credentials to be good for one membership each (the locale \<open>durable_gifter\<close>), proves that this is
  enough, and that the code's operations are runs of the interleaving.
\<close>

section \<open>The life of a gifter\<close>

text \<open>
  A registration: the configuration it runs under, the request, and the credential reserved for it.
\<close>

type_synonym gift = "server_cfg \<times> rln_gifter_request \<times> string option"

text \<open>What \<open>handle_request\<close> holds in its hands when it reserves: the nullifier of the verdict, if any.\<close>

definition judged :: "'w ffi \<Rightarrow> crates \<Rightarrow> server_cfg \<Rightarrow> rln_gifter_request \<Rightarrow> string option \<Rightarrow> bool" where
  "judged F C cfg req n \<longleftrightarrow>
     (if auth_verifiers cfg = [] then n = None
      else \<exists>tid rate s vd. verdict_from F C tid cfg req rate s vd \<and> v_ok vd \<and> v_nullifier vd = n)"

text \<open>
  The steps. \<open>P\<close> are the registrations in flight, \<open>G\<close> those that were submitted to the chain, newest
  first. A restart loses the process's memory, and with it what is in flight, but not the files.
\<close>

inductive gifting ::
  "'w ffi \<Rightarrow> crates \<Rightarrow> (server_cfg \<Rightarrow> bool)
     \<Rightarrow> 'w gstate \<times> gift list \<times> gift list \<Rightarrow> 'w gstate \<times> gift list \<times> gift list \<Rightarrow> bool"
  for F C sane where
  host: "core s' = core s \<Longrightarrow> gifting F C sane (s, P, G) (s', P, G)"
| installs: "sane cfg \<Longrightarrow> gifting F C sane (s, P, G) (install_cfg F C cfg s, P, G)"
| mounts: "mount_once F C tid s = (m, s') \<Longrightarrow> gifting F C sane (s, P, G) (s', P, G)"
| refuses: "reserve C req module n s = (Inl resp, s') \<Longrightarrow> gifting F C sane (s, P, G) (s', P, G)"
| admits: "server s \<noteq> None \<Longrightarrow> sane cfg \<Longrightarrow> judged F C cfg req n \<Longrightarrow>
    reserve C req module n s = (Inr a, s') \<Longrightarrow> gifting F C sane (s, P, G) (s', (cfg, req, a) # P, G)"
| settles: "(cfg, req, a) \<in> set P \<Longrightarrow>
    gifting F C sane (s, P, G) (settle F cfg a r s, remove1 (cfg, req, a) P,
      if submitted r then (cfg, req, a) # G else G)"
| restarts: "gifting F C sane (s, P, G) (boot (files s) w, [], G)"

abbreviation life where
  "life F C sane \<equiv> (gifting F C sane)\<^sup>*\<^sup>*"

text \<open>
  A registration is backed when its configuration is one of the operator's, a verifier has judged the
  request, and the credential is the one the verdict names, if it names one.
\<close>

definition backed :: "'w ffi \<Rightarrow> crates \<Rightarrow> (server_cfg \<Rightarrow> bool) \<Rightarrow> gift \<Rightarrow> bool" where
  "backed F C sane g \<longleftrightarrow>
     (case g of (cfg, req, a) \<Rightarrow> sane cfg
        \<and> (\<exists>n. judged F C cfg req n \<and> a = Option.bind n (credential C req) \<and> (n = None \<longleftrightarrow> a = None)))"

text \<open>The credentials of a list of registrations.\<close>

definition credentials :: "gift list \<Rightarrow> string list" where
  "credentials gs = List.map_filter (snd \<circ> snd) gs"

lemma credentials_simps [simp]:
  "credentials [] = []"
  "credentials ((cfg, req, a) # gs) = (case a of None \<Rightarrow> credentials gs | Some k \<Rightarrow> k # credentials gs)"
  by (simp_all add: credentials_def map_filter_def split: option.split)

lemma set_credentials: "k \<in> set (credentials gs) \<longleftrightarrow> (\<exists>cfg req. (cfg, req, Some k) \<in> set gs)"
  by (force simp: credentials_def map_filter_def)

lemma credentials_remove1:
  "distinct (credentials P) \<Longrightarrow> (cfg, req, Some k) \<in> set P \<Longrightarrow>
     distinct (credentials (remove1 (cfg, req, Some k) P))
     \<and> set (credentials (remove1 (cfg, req, Some k) P)) = set (credentials P) - {k}"
proof (induction P)
  case (Cons g P)
  obtain c r a where g: "g = (c, r, a)" by (cases g)
  show ?case
  proof (cases "g = (cfg, req, Some k)")
    case True
    with Cons.prems(1) g show ?thesis by auto
  next
    case False
    with Cons g have "k \<in> set (credentials P)" by (auto simp: set_credentials)
    with False Cons g show ?thesis by (auto split: option.splits)
  qed
qed simp

lemma credentials_remove1_None:
  "credentials (remove1 (cfg, req, None) P) = credentials P"
proof (induction P)
  case (Cons g P)
  then show ?case by (cases g) (auto split: option.split)
qed simp

lemma remove1_subset: "x \<in> set (remove1 y P) \<Longrightarrow> x \<in> set P"
  using set_remove1_subset by fast

section \<open>What a deployment provides\<close>

text \<open>
  \<open>sane\<close> are the configurations the operator installs, \<open>p\<close> the path of the replay store, \<open>laws\<close> what
  is assumed of the platform: one store for all configurations, on a disk that works, and verifiers
  whose nullifiers make entries that the store gives back as they are.
\<close>

locale durable_gifter =
  fixes F :: "'w ffi" and C :: crates and sane :: "server_cfg \<Rightarrow> bool" and p :: string and laws :: bool
  assumes one_store: "laws \<Longrightarrow> sane cfg \<Longrightarrow> nullifiers_path cfg = p"
    and disk_works: "laws \<Longrightarrow> p \<noteq> [] \<and> steady_disk F p"
    and entries_plain: "laws \<Longrightarrow> sane cfg \<Longrightarrow> judged F C cfg req (Some raw) \<Longrightarrow>
          credential C req raw = Some nul \<Longrightarrow> plain nul \<and> nul \<noteq> []"
begin

text \<open>
  The invariant: what was submitted is in the store, what is in flight is not, and once the gifter is
  configured its spent set covers both.
\<close>

definition ledger_inv :: "'w gstate \<times> gift list \<times> gift list \<Rightarrow> bool" where
  "ledger_inv = (\<lambda>(s, P, G).
     store_ok s p \<and> (P \<noteq> [] \<longrightarrow> server s \<noteq> None)
     \<and> (server s \<noteq> None \<longrightarrow> load_nullifiers F C p s \<subseteq> consumed s)
     \<and> distinct (credentials P) \<and> distinct (credentials G)
     \<and> set (credentials P) \<subseteq> consumed s - load_nullifiers F C p s
     \<and> set (credentials G) \<subseteq> load_nullifiers F C p s
     \<and> (\<forall>g \<in> set P \<union> set G. backed F C sane g))"

lemma load_cong:
  "laws \<Longrightarrow> files s = files t \<Longrightarrow> load_nullifiers F C p s = load_nullifiers F C p t"
  using disk_works
  by (auto simp: load_nullifiers_def read_to_string_def steady_disk_def split: option.split)

lemma store_cong: "files s = files t \<Longrightarrow> store_ok s q = store_ok t q"
  by (simp add: store_ok_def)

lemma inv_same_core:
  assumes "laws" "files s' = files s" "consumed s \<subseteq> consumed s'" "server s' = None \<longleftrightarrow> server s = None"
    and "ledger_inv (s, P, G)"
  shows "ledger_inv (s', P, G)"
  using assms(3-5) load_cong [OF assms(1,2)] store_cong [OF assms(2), of p]
  by (auto simp: ledger_inv_def)

lemma inv_installs:
  assumes "laws" "sane cfg" "ledger_inv (s, P, G)"
  shows "ledger_inv (install_cfg F C cfg s, P, G)"
proof -
  have "files (install_cfg F C cfg s) = files s" "server (install_cfg F C cfg s) = Some cfg"
    "consumed (install_cfg F C cfg s) = consumed s \<union> load_nullifiers F C p s"
    using one_store [OF assms(1,2)] by (simp_all add: install_cfg_def merge_nullifiers_def)
  with assms(3) load_cong [OF assms(1), of "install_cfg F C cfg s" s] store_cong [of "install_cfg F C cfg s" s p]
  show ?thesis by (auto simp: ledger_inv_def)
qed

lemma inv_admits:
  assumes "laws" "server s \<noteq> None" "sane cfg" "judged F C cfg req n"
    and "reserve C req module n s = (Inr a, s')" "ledger_inv (s, P, G)"
  shows "ledger_inv (s', (cfg, req, a) # P, G)"
  using assms(5)
proof (cases rule: reserve_cases)
  case none
  with assms(3,4) have "backed F C sane (cfg, req, a)" by (simp add: backed_def)
  with none assms(2,6) show ?thesis by (auto simp: ledger_inv_def)
next
  case (reserved raw nul)
  then have fs: "files s' = files s" "server s' = server s" "consumed s' = insert nul (consumed s)"
    by simp_all
  have "backed F C sane (cfg, req, a)" using assms(3,4) reserved(1-3) by (force simp: backed_def)
  with assms(2,6) reserved(3,4) fs load_cong [OF assms(1) fs(1)] store_cong [OF fs(1), of p]
  show ?thesis by (auto simp: ledger_inv_def)
qed simp

lemma inv_releases:
  assumes "laws" "(cfg, req, a) \<in> set P" "\<not> submitted r" "ledger_inv (s, P, G)"
  shows "ledger_inv (settle F cfg a r s, remove1 (cfg, req, a) P, G)"
proof (cases a)
  case None
  with assms(4) show ?thesis
    by (auto simp: ledger_inv_def credentials_remove1_None dest: remove1_subset)
next
  case (Some nul)
  let ?s = "settle F cfg (Some nul) r s"
  have fs: "files ?s = files s" "consumed ?s = consumed s - {nul}"
    using assms(3) by (simp_all add: settle_files settle_consumed)
  from assms(4) have "distinct (credentials P)" by (simp add: ledger_inv_def)
  from credentials_remove1 [OF this assms(2) [unfolded Some]]
  have c: "distinct (credentials (remove1 (cfg, req, Some nul) P))"
    "set (credentials (remove1 (cfg, req, Some nul) P)) = set (credentials P) - {nul}" by blast+
  have "nul \<in> set (credentials P)" using assms(2) Some by (auto simp: set_credentials)
  with assms(4) c fs Some load_cong [OF assms(1) fs(1)] store_cong [OF fs(1), of p] show ?thesis
    by (auto simp: ledger_inv_def dest: remove1_subset)
qed

lemma inv_spends:
  assumes "laws" "(cfg, req, a) \<in> set P" "submitted r" "ledger_inv (s, P, G)"
  shows "ledger_inv (settle F cfg a r s, remove1 (cfg, req, a) P, (cfg, req, a) # G)"
proof (cases a)
  case None
  with assms(2,4) show ?thesis
    by (auto simp: ledger_inv_def credentials_remove1_None dest: remove1_subset)
next
  case (Some nul)
  let ?s = "settle F cfg (Some nul) r s" and ?t = "append_nullifier F p nul s"
  from assms(2,4) Some obtain raw where cfg: "sane cfg" "judged F C cfg req (Some raw)"
    "credential C req raw = Some nul"
    by (force simp: ledger_inv_def backed_def bind_eq_Some_conv)
  note nul = entries_plain [OF assms(1) cfg] and path = one_store [OF assms(1) cfg(1)]
  have ready: "store_ready F p s"
    using disk_works [OF assms(1)] assms(4)
    by (simp add: store_ready_def ledger_inv_def writable_def steady_disk_def)
  have st: "storable C nul" "lowercase C (trim nul) = nul"
    using nul by (simp_all add: plain_storable plain_trim plain_lowercase)
  have fs: "files ?s = files ?t" "consumed ?s = consumed s" "server ?s = server s"
    using assms(3) path by (simp_all add: settle_files settle_consumed)
  have load: "load_nullifiers F C p ?s = insert nul (load_nullifiers F C p s)"
    using load_cong [OF assms(1) fs(1)] nullifier_store.load_append [OF ready st(1)] st(2) by simp
  have ok: "store_ok ?s p"
    using store_cong [OF fs(1)] nullifier_store.ready_append [OF ready st(1)]
    by (simp add: store_ready_def)
  from assms(4) have "distinct (credentials P)" by (simp add: ledger_inv_def)
  from credentials_remove1 [OF this assms(2) [unfolded Some]]
  have c: "distinct (credentials (remove1 (cfg, req, Some nul) P))"
    "set (credentials (remove1 (cfg, req, Some nul) P)) = set (credentials P) - {nul}" by blast+
  have "nul \<in> set (credentials P)" using assms(2) Some by (auto simp: set_credentials)
  with assms(2,4) c fs load ok Some show ?thesis
    by (auto simp: ledger_inv_def dest: remove1_subset)
qed

lemma inv_restarts:
  assumes "laws" "ledger_inv (s, P, G)"
  shows "ledger_inv (boot (files s) w, [], G)"
  using assms load_cong [OF assms(1), of "boot (files s) w" s] store_cong [of "boot (files s) w" s p]
  by (auto simp: ledger_inv_def)

lemma gifting_inv:
  assumes "gifting F C sane x y" "laws" "ledger_inv x"
  shows "ledger_inv y"
  using assms
proof (cases rule: gifting.cases)
  case (host s' s P G)
  with assms(2,3) coreD [OF host(3)] consumed_core [OF host(3)] show ?thesis
    by (auto intro: inv_same_core)
next
  case (mounts tid s m s' P G)
  with assms(2,3) mount_once_frame [OF mounts(3)] show ?thesis by (auto intro: inv_same_core)
next
  case (refuses req module n s resp s' P G)
  from refuses(3) have "files s' = files s" "consumed s' = consumed s" "server s' = server s"
    by (cases rule: reserve_cases; auto)+
  with assms(2,3) refuses(1,2) show ?thesis by (auto intro: inv_same_core)
next
  case (settles cfg req a P s G r)
  with assms(2,3) inv_spends inv_releases show ?thesis by (cases "submitted r") auto
qed (auto intro: inv_installs inv_admits inv_restarts)

lemma life_inv:
  assumes "life F C sane x y" "laws" "ledger_inv x"
  shows "ledger_inv y"
  using assms by (induction rule: rtranclp_induct) (auto intro: gifting_inv)

lemma inv_boot: "store_ok (boot fs w) p \<Longrightarrow> ledger_inv (boot fs w, [], [])"
  by (simp add: ledger_inv_def)

text \<open>One registration per credential, in any life of the gifter.\<close>

lemma one_gift_per_credential:
  assumes "laws" "store_ok (boot fs w) p" "life F C sane (boot fs w, [], []) (s, P, G)"
  shows "distinct (credentials G)" and "g \<in> set G \<Longrightarrow> backed F C sane g"
  using life_inv [OF assms(3,1) inv_boot [OF assms(2)]] by (auto simp: ledger_inv_def)

end

section \<open>The code's operations are lives of the gifter\<close>















end
