(* ===== verification/Keycard_Attest.thy ===== *)
theory Keycard_Attest
  imports Rust_Std
begin

text \<open>
  Attestation parsing and verification, \<open>crates/keycard-attest\<close>: the BER-TLV reader, the
  IDENTIFY_CARD response and its check against trusted CAs and a challenge. The cryptographic crates
  (\<open>k256\<close>, \<open>sha2\<close>, \<open>tiny-keccak\<close>) are the record \<open>crypto\<close>, a parameter; \<open>'sig\<close> and \<open>'vk\<close> are their
  signatures and public keys. Fixed-size arrays are byte lists.
\<close>

section \<open>Parameters\<close>

text \<open>
  \<^item> \<open>sha256\<close>, \<open>keccak256\<close>: the digests; \<open>recovery_id\<close>: \<open>RecoveryId::from_byte\<close>;
  \<^item> \<open>sig_from_slice\<close>, \<open>sig_from_der\<close>: \<open>Signature::from_slice\<close>, \<open>Signature::from_der\<close>, with the text of
    the error; \<open>normalize_s\<close>: \<open>Signature::normalize_s\<close>;
  \<^item> \<open>recover\<close>: \<open>VerifyingKey::recover_from_prehash\<close>; \<open>from_sec1\<close>: \<open>VerifyingKey::from_sec1_bytes\<close>;
    \<open>point_bytes\<close>: \<open>to_encoded_point(compressed).as_bytes()\<close>; \<open>verify_prehash\<close>: whether the signature
    verifies.
\<close>

record ('sig, 'vk) crypto =
  sha256 :: "bytes \<Rightarrow> bytes"
  keccak256 :: "bytes \<Rightarrow> bytes"
  recovery_id :: "u8 \<Rightarrow> u8 option"
  sig_from_slice :: "bytes \<Rightarrow> string + 'sig"
  sig_from_der :: "bytes \<Rightarrow> string + 'sig"
  normalize_s :: "'sig \<Rightarrow> 'sig option"
  recover :: "bytes \<Rightarrow> 'sig \<Rightarrow> u8 \<Rightarrow> string + 'vk"
  from_sec1 :: "bytes \<Rightarrow> string + 'vk"
  point_bytes :: "bool \<Rightarrow> 'vk \<Rightarrow> bytes"
  verify_prehash :: "'vk \<Rightarrow> bytes \<Rightarrow> 'sig \<Rightarrow> bool"

section \<open>Errors and constants\<close>

datatype attest_error = Backend string | InvalidSignature | InvalidInput string

fun attest_error_text :: "attest_error \<Rightarrow> string" where
  "attest_error_text (Backend m) = ''keycard backend error: '' @ m"
| "attest_error_text InvalidSignature = ''signature does not verify''"
| "attest_error_text (InvalidInput m) = ''invalid input: '' @ m"

definition TAG_SIGNATURE_TEMPLATE :: u8 where "TAG_SIGNATURE_TEMPLATE = 0xA0"
definition TAG_CERTIFICATE :: u8 where "TAG_CERTIFICATE = 0x8A"
definition TAG_DER_SEQUENCE :: u8 where "TAG_DER_SEQUENCE = 0x30"
definition CERTIFICATE_LEN :: nat where "CERTIFICATE_LEN = 98"

definition ATTEST_DOMAIN :: bytes where
  "ATTEST_DOMAIN = as_bytes ''logos/rln/keycard-attest/1''"

definition STATUS_PRODUCTION_CA :: bytes where
  "STATUS_PRODUCTION_CA =
    [0x02, 0x9a, 0xb9, 0x9e, 0xe1, 0xe7, 0xa7, 0x1b, 0xdf, 0x45, 0xb3, 0xf9, 0xc5, 0x8c, 0x99, 0x86,
     0x6f, 0xf1, 0x29, 0x4d, 0x2c, 0x1e, 0x30, 0x4e, 0x22, 0x8a, 0x86, 0xe1, 0x0c, 0x33, 0x43, 0x50,
     0x1c]"

record 'sig attestation =
  ident_pub :: bytes
  ca_sig :: bytes
  challenge_sig :: 'sig

definition bound_challenge :: "('sig, 'vk) crypto \<Rightarrow> bytes \<Rightarrow> bytes" where
  "bound_challenge E id_commitment = sha256 E (ATTEST_DOMAIN @ id_commitment)"

definition nullifier :: "('sig, 'vk) crypto \<Rightarrow> bytes \<Rightarrow> bytes" where
  "nullifier E pub = keccak256 E pub"

section \<open>The TLV reader\<close>

text \<open>The value length and the size of the length header at \<open>i\<close>.\<close>

definition read_len :: "bytes \<Rightarrow> nat \<Rightarrow> attest_error + nat \<times> nat" where
  "read_len buf i =
     try_then (some_or (get_at buf i) (InvalidInput ''tlv length truncated'')) (\<lambda>l0.
       if l0 < 0x80 then Inr (unat l0, 1)
       else if l0 = 0x81 then
         try_then (some_or (get_at buf (i + 1)) (InvalidInput ''tlv len81'')) (\<lambda>b. Inr (unat b, 2))
       else if l0 = 0x82 then
         try_then (some_or (get_at buf (i + 1)) (InvalidInput ''tlv len82'')) (\<lambda>hi.
         try_then (some_or (get_at buf (i + 2)) (InvalidInput ''tlv len82'')) (\<lambda>lo.
           Inr (unat hi * 256 + unat lo, 3)))
       else Inl (InvalidInput ''unsupported tlv length form''))"

lemma read_len_hdr: "read_len buf i = Inr (n, h) \<Longrightarrow> 1 \<le> h \<and> h \<le> 3"
  by (auto simp: read_len_def try_then_eq_Inr split: if_splits)

text \<open>The value of the first element with the tag, and the whole element. \<open>i\<close> is the loop's index.\<close>

function find_tag_from :: "bytes \<Rightarrow> u8 \<Rightarrow> nat \<Rightarrow> attest_error + bytes \<times> bytes" where
  "find_tag_from buf tag i =
     (if i + 1 < length buf then
        (case read_len buf (i + 1) of
           Inl e \<Rightarrow> Inl e
         | Inr (vlen, lhdr) \<Rightarrow>
             let vstart = i + 1 + lhdr; vend = vstart + vlen in
             if vend < usize_limit \<and> vend \<le> length buf then
               (if buf ! i = tag
                then Inr (take (vend - vstart) (drop vstart buf), take (vend - i) (drop i buf))
                else find_tag_from buf tag vend)
             else Inl (InvalidInput ''tlv value out of range''))
      else Inl (InvalidInput (''tlv tag '' @ hex_04x_byte tag @ '' not found'')))"
  by pat_completeness auto
termination
  by (relation "measure (\<lambda>(buf, _, i). length buf - i)") (auto dest: read_len_hdr)

declare find_tag_from.simps [simp del]

definition find_tag :: "bytes \<Rightarrow> u8 \<Rightarrow> attest_error + bytes \<times> bytes" where
  "find_tag buf tag = find_tag_from buf tag 0"

section \<open>Attestations\<close>

definition parse_attestation :: "('sig, 'vk) crypto \<Rightarrow> bytes \<Rightarrow> attest_error + 'sig attestation" where
  "parse_attestation E tlv =
     try_then (find_tag tlv TAG_SIGNATURE_TEMPLATE) (\<lambda>(template, _).
     try_then (find_tag template TAG_CERTIFICATE) (\<lambda>(cert, _).
       if length cert \<noteq> CERTIFICATE_LEN then Inl (InvalidInput ''certificate must be 98 bytes'')
       else
         try_then (find_tag template TAG_DER_SEQUENCE) (\<lambda>(_, der_full).
           case sig_from_der E der_full of
             Inl e \<Rightarrow> Inl (InvalidInput (''challenge sig DER: '' @ e))
           | Inr sig \<Rightarrow>
               Inr \<lparr>ident_pub = take 33 cert, ca_sig = take 65 (drop 33 cert), challenge_sig = sig\<rparr>)))"

definition verify_attestation ::
  "('sig, 'vk) crypto \<Rightarrow> 'sig attestation \<Rightarrow> bytes list \<Rightarrow> bytes \<Rightarrow> attest_error + bytes" where
  "verify_attestation E att trusted_cas expected_challenge =
     (let msg = sha256 E (ident_pub att) in
      try_then (some_or (recovery_id E (ca_sig att ! 64)) (InvalidInput ''bad CA recovery id'')) (\<lambda>recid.
      case sig_from_slice E (take 64 (ca_sig att)) of
        Inl e \<Rightarrow> Inl (InvalidInput (''CA sig: '' @ e))
      | Inr casig \<Rightarrow>
      (case recover E msg casig recid of
         Inl e \<Rightarrow> Inl (InvalidInput (''CA recover: '' @ e))
       | Inr ca \<Rightarrow>
       if \<not> list_ex (\<lambda>t. t = point_bytes E True ca) trusted_cas then
         Inl (Backend ''attestation CA is not trusted'')
       else
         (case from_sec1 E (ident_pub att) of
            Inl e \<Rightarrow> Inl (InvalidInput (''ident pub: '' @ e))
          | Inr ident \<Rightarrow>
              let sig = (case normalize_s E (challenge_sig att) of Some s \<Rightarrow> s | None \<Rightarrow> challenge_sig att) in
              if verify_prehash E ident expected_challenge sig
              then Inr (nullifier E (ident_pub att))
              else Inl InvalidSignature))))"

section \<open>Correctness of the reader\<close>

text \<open>BER-TLV elements as an encoder writes them, with the shortest length form.\<close>

definition len_bytes :: "nat \<Rightarrow> bytes" where
  "len_bytes n =
     (if n < 128 then [of_nat n]
      else if n < 256 then [0x81, of_nat n]
      else [0x82, of_nat (n div 256), of_nat (n mod 256)])"

definition tlv :: "u8 \<Rightarrow> bytes \<Rightarrow> bytes" where
  "tlv tag v = tag # len_bytes (length v) @ v"

lemma unat_byte: "n < 256 \<Longrightarrow> unat (of_nat n :: u8) = n"
  by (simp add: unat_of_nat)

lemma byte_less: "n < 128 \<Longrightarrow> (of_nat n :: u8) < 0x80"
  by (simp add: word_less_nat_alt unat_byte)

lemma get_at_plus: "drop i buf = xs @ rest \<Longrightarrow> k < length xs \<Longrightarrow> get_at buf (i + k) = Some (xs ! k)"
  by (rule get_at_drop [where rest = "drop (Suc k) xs @ rest"])
     (simp add: add.commute [of i] drop_drop [symmetric] Cons_nth_drop_Suc [symmetric] del: drop_drop)

lemma read_len_len_bytes:
  assumes "drop i buf = len_bytes n @ rest" and "n < 65536"
  shows "read_len buf i = Inr (n, length (len_bytes n))"
proof -
  note g = get_at_plus [OF assms(1)]
  consider (short) "n < 128" | (mid) "128 \<le> n" "n < 256" | (long) "256 \<le> n" by linarith
  then show ?thesis
  proof cases
    case short
    then have "get_at buf i = Some (of_nat n)" using g [of 0] by (simp add: len_bytes_def)
    with short show ?thesis by (simp add: read_len_def byte_less unat_byte len_bytes_def)
  next
    case mid
    then have "get_at buf i = Some 0x81" "get_at buf (i + 1) = Some (of_nat n)"
      using g [of 0] g [of 1] by (simp_all add: len_bytes_def)
    with mid show ?thesis by (simp add: read_len_def unat_byte len_bytes_def)
  next
    case long
    then have "get_at buf i = Some 0x82" "get_at buf (i + 1) = Some (of_nat (n div 256))"
      "get_at buf (i + 2) = Some (of_nat (n mod 256))"
      using g [of 0] g [of 1] g [of 2] by (simp_all add: len_bytes_def)
    moreover have "n div 256 < 256" using assms(2) by (simp add: less_mult_imp_div_less)
    ultimately show ?thesis using long
      by (simp add: read_len_def unat_byte len_bytes_def)
  qed
qed

lemma find_tag_from_tlv:
  assumes "drop i buf = tlv t v @ rest" and "length v < 65536" and "length buf < vec_limit"
  shows "find_tag_from buf tag i
    = (if t = tag then Inr (v, tlv t v) else find_tag_from buf tag (i + length (tlv t v)))"
proof -
  let ?h = "length (len_bytes (length v))"
  have d: "drop (i + 1) buf = len_bytes (length v) @ v @ rest"
    using assms(1) drop_Suc_Cons_eq [of i buf t] by (simp add: tlv_def)
  have rl: "read_len buf (i + 1) = Inr (length v, ?h)" by (rule read_len_len_bytes [OF d assms(2)])
  have le: "i + length (tlv t v) \<le> length buf"
    using drop_length_le [OF assms(1)] by (simp add: tlv_def)
  have h: "1 \<le> ?h" by (simp add: len_bytes_def)
  have "length (tlv t v) = 1 + ?h + length v" by (simp add: tlv_def)
  with le h have lt: "i + 1 < length buf" by linarith
  have t: "buf ! i = t" using assms(1) by (metis append_Cons drop_eq_Nil2 hd_drop_conv_nth leI list.distinct(1) list.sel(1) tlv_def)
  have val: "take (length v) (drop (i + 1 + ?h) buf) = v"
    using drop_append_eq [OF d] by simp
  have full: "take (length (tlv t v)) (drop i buf) = tlv t v" using assms(1) by simp
  have e: "i + 1 + ?h + length v = i + length (tlv t v)" by (simp add: tlv_def)
  have "i + length (tlv t v) < usize_limit" using le assms(3) by (simp add: vec_limit_def usize_limit_def)
  with lt rl le t val full show ?thesis
    by (subst find_tag_from.simps) (simp add: Let_def e [symmetric] del: add_Suc_right, simp add: tlv_def)
qed

text \<open>The elements of a buffer, one after the other.\<close>

definition tlvs :: "(u8 \<times> bytes) list \<Rightarrow> bytes" where
  "tlvs items = concat (map (\<lambda>(t, v). tlv t v) items)"

lemma find_tag_from_items:
  assumes "drop i buf = tlvs items @ tlv tag v @ rest" and "\<forall>(t, u) \<in> set items. t \<noteq> tag \<and> length u < 65536"
    and "length v < 65536" and "length buf < vec_limit"
  shows "find_tag_from buf tag i = Inr (v, tlv tag v)"
  using assms(1,2)
proof (induction items arbitrary: i)
  case Nil
  then show ?case using find_tag_from_tlv [of i buf tag v rest] assms(3,4) by (simp add: tlvs_def)
next
  case (Cons x items)
  obtain t u where x: "x = (t, u)" by fastforce
  have d: "drop i buf = tlv t u @ tlvs items @ tlv tag v @ rest" using Cons.prems(1) x by (simp add: tlvs_def)
  have "find_tag_from buf tag i = find_tag_from buf tag (i + length (tlv t u))"
    using find_tag_from_tlv [OF d] Cons.prems(2) x assms(4) by auto
  also have "\<dots> = Inr (v, tlv tag v)"
    using Cons.IH [OF drop_append_eq [OF d]] Cons.prems(2) by simp
  finally show ?case .
qed

lemma find_tag_items:
  "\<forall>(t, u) \<in> set items. t \<noteq> tag \<and> length u < 65536 \<Longrightarrow> length v < 65536 \<Longrightarrow>
     length (tlvs items @ tlv tag v @ rest) < vec_limit \<Longrightarrow>
     find_tag (tlvs items @ tlv tag v @ rest) tag = Inr (v, tlv tag v)"
  unfolding find_tag_def by (rule find_tag_from_items) simp_all

section \<open>Correctness of parsing and verification\<close>

lemma find_tag_from_len:
  "find_tag_from buf tag i = Inr (v, full) \<Longrightarrow> length v \<le> length buf \<and> length full \<le> length buf"
  by (induction buf tag i rule: find_tag_from.induct)
     (subst (asm) (2) find_tag_from.simps, auto simp: Let_def split: if_splits sum.splits)

lemma find_tag_len: "find_tag buf tag = Inr (v, full) \<Longrightarrow> length v \<le> length buf"
  unfolding find_tag_def by (drule find_tag_from_len) simp

lemma parse_attestation_Inr:
  assumes "parse_attestation E buf = Inr att"
  obtains template x cert y z der sig where "find_tag buf TAG_SIGNATURE_TEMPLATE = Inr (template, x)"
    "find_tag template TAG_CERTIFICATE = Inr (cert, y)" "length cert = 98"
    "find_tag template TAG_DER_SEQUENCE = Inr (z, der)" "sig_from_der E der = Inr sig"
    "att = \<lparr>ident_pub = take 33 cert, ca_sig = drop 33 cert, challenge_sig = sig\<rparr>"
proof -
  from assms obtain template x cert y z der where p:
    "find_tag buf TAG_SIGNATURE_TEMPLATE = Inr (template, x)"
    "find_tag template TAG_CERTIFICATE = Inr (cert, y)" "length cert = 98"
    "find_tag template TAG_DER_SEQUENCE = Inr (z, der)"
    by (auto simp: parse_attestation_def try_then_eq_Inr CERTIFICATE_LEN_def split: if_splits)
  show thesis
    using assms p that by (cases "sig_from_der E der") (simp_all add: parse_attestation_def CERTIFICATE_LEN_def)
qed

lemma parse_attestation_arrays:
  "parse_attestation E buf = Inr att \<Longrightarrow> length (ident_pub att) = 33 \<and> length (ca_sig att) = 65"
  by (erule parse_attestation_Inr) simp

text \<open>
  An attestation survives its encoding: from a buffer in which the signature template is the
  first of its tag, holding a 98-byte certificate and then a DER sequence, \<open>parse_attestation\<close> reads
  back the identity key, the CA signature and the challenge signature, whatever other elements stand
  before, behind or after them.
\<close>

lemma attestation_roundtrip:
  assumes "length cert = 98" and "length body < 65536" and "sig_from_der E (tlv 0x30 body) = Inr sig"
    and "length (tlv 0x8A cert @ tlv 0x30 body @ tail) < 65536"
    and "\<forall>(t, u) \<in> set pre. t \<noteq> 0xA0 \<and> length u < 65536"
    and "length (tlvs pre @ tlv 0xA0 (tlv 0x8A cert @ tlv 0x30 body @ tail) @ rest) < vec_limit"
  shows "parse_attestation E (tlvs pre @ tlv 0xA0 (tlv 0x8A cert @ tlv 0x30 body @ tail) @ rest)
    = Inr \<lparr>ident_pub = take 33 cert, ca_sig = drop 33 cert, challenge_sig = sig\<rparr>"
proof -
  let ?t = "tlv 0x8A cert @ tlv 0x30 body @ tail"
  have lt: "length ?t < vec_limit" using assms(4) by (rule less_trans) (simp add: vec_limit_def)
  have "find_tag (tlvs pre @ tlv 0xA0 ?t @ rest) 0xA0 = Inr (?t, tlv 0xA0 ?t)"
    using assms(4-6) by (intro find_tag_items) auto
  moreover have "find_tag ?t 0x8A = Inr (cert, tlv 0x8A cert)"
    using find_tag_items [of "[]" "0x8A" cert "tlv 0x30 body @ tail"] assms(1) lt by (simp add: tlvs_def)
  moreover have "find_tag ?t 0x30 = Inr (body, tlv 0x30 body)"
    using find_tag_items [of "[(0x8A, cert)]" "0x30" body tail] assms(1,2) lt by (simp add: tlvs_def)
  ultimately show ?thesis
    using assms(1,3) by (simp add: parse_attestation_def TAG_SIGNATURE_TEMPLATE_def TAG_CERTIFICATE_def
        TAG_DER_SEQUENCE_def CERTIFICATE_LEN_def)
qed

text \<open>A toy instance of the parameters, for the witnesses.\<close>

definition sample_digest :: "bytes \<Rightarrow> bytes" where
  "sample_digest b = take 32 (b @ replicate 32 0)"

definition sample_crypto :: "(bytes, bytes) crypto" where
  "sample_crypto =
     \<lparr>sha256 = sample_digest, keccak256 = sample_digest,
      recovery_id = (\<lambda>b. if b < 4 then Some b else None),
      sig_from_slice = Inr, sig_from_der = Inr, normalize_s = (\<lambda>_. None),
      recover = (\<lambda>_ _ _. Inr (replicate 32 2)), from_sec1 = Inr,
      point_bytes = (\<lambda>c k. if c then replicate 33 2 else replicate 65 2), verify_prehash = (\<lambda>_ _ _. True)\<rparr>"

definition sample_cert :: bytes where
  "sample_cert = replicate 97 7 @ [1]"

definition sample_tlv :: bytes where
  "sample_tlv = tlv 0xA0 (tlv 0x8A sample_cert @ tlv 0x30 [5])"

lemma sample_attestation_args:
  "length sample_cert = 98" "length ([5] :: bytes) < 65536"
  "sig_from_der sample_crypto (tlv 0x30 [5]) = Inr (tlv 0x30 [5])"
  "length (tlv 0x8A sample_cert @ tlv 0x30 [5] @ []) < 65536"
  "length (tlvs [] @ tlv 0xA0 (tlv 0x8A sample_cert @ tlv 0x30 [5] @ []) @ []) < vec_limit"
  by (simp_all add: sample_cert_def sample_crypto_def tlv_def len_bytes_def tlvs_def vec_limit_def)

lemma sample_parse:
  "parse_attestation sample_crypto sample_tlv
    = Inr \<lparr>ident_pub = replicate 33 7, ca_sig = replicate 64 7 @ [1], challenge_sig = tlv 0x30 [5]\<rparr>"
  using attestation_roundtrip [OF sample_attestation_args(1-4) _ sample_attestation_args(5)]
  by (simp add: sample_tlv_def sample_cert_def tlvs_def)

end
