(* ===== verification/Eth_Auth.thy ===== *)
theory Eth_Auth
  imports Auth_Vector Keycard_Attest
begin

text \<open>
  The eth-allowlist verifier, \<open>rust/eth-auth-module/rust-lib/src/lib.rs\<close>: the EIP-191 digest, the
  recovery of the signer's address, and the verdict. \<open>E\<close> are the cryptographic crates.
\<close>

text \<open>An em dash in UTF-8, as it stands in the messages.\<close>

definition em_dash :: string where
  "em_dash = [CHR 0xE2, CHR 0x80, CHR 0x94]"

definition eip191_digest :: "('sig, 'vk) crypto \<Rightarrow> crates \<Rightarrow> bytes \<Rightarrow> bytes" where
  "eip191_digest E C id_commitment =
     (let hexs = hex_enc C id_commitment;
          msg = as_bytes (CHR 0x19 # ''Ethereum Signed Message:'' @ [CHR 0x0A] @ dec (length hexs))
      in keccak256 E (msg @ as_bytes hexs))"

definition recover_signer :: "('sig, 'vk) crypto \<Rightarrow> crates \<Rightarrow> bytes \<Rightarrow> bytes \<Rightarrow> (string, string) outcome" where
  "recover_signer E C id_commitment sig =
     (if length sig \<noteq> 65 then Err (''signature must be 65 bytes, got '' @ dec (length sig))
      else
        let digest = eip191_digest E C id_commitment;
            recid_byte = (if 27 \<le> sig ! 64 then sig ! 64 - 27 else sig ! 64) in
        and_then (ok_or (recovery_id E recid_byte) ''invalid recovery id'') (\<lambda>recid.
        and_then (map_err (\<lambda>e. ''sig: '' @ e) (of_sum (sig_from_slice E (take 64 sig)))) (\<lambda>signature.
        and_then (map_err (\<lambda>e. ''recovery failed: '' @ e) (of_sum (recover E digest signature recid))) (\<lambda>vk.
        and_then (subslice (point_bytes E False vk) 1 (length (point_bytes E False vk))) (\<lambda>raw.
        let h = keccak256 E raw in
        and_then (subslice h 12 (length h)) (\<lambda>tail.
          Ok (''0x'' @ hex_enc C tail)))))))"

text \<open>The operator's list, lowercased.\<close>

fun allowlist_entries :: "crates \<Rightarrow> json list \<Rightarrow> string + string list" where
  "allowlist_entries C [] = Inr []"
| "allowlist_entries C (e # es) =
     (case as_str e of
        None \<Rightarrow> Inl ''allowlist entries must be strings''
      | Some s \<Rightarrow> map_sum id ((#) (lowercase C s)) (allowlist_entries C es))"

definition parse_allowlist :: "crates \<Rightarrow> json option \<Rightarrow> string + string list" where
  "parse_allowlist C config =
     try_then (some_or (Option.bind (Option.bind config (\<lambda>c. jget c ''allowlist'')) as_array)
                 ''config.allowlist (array of 0x addresses) is required'') (\<lambda>arr.
     try_then (allowlist_entries C arr) (\<lambda>allowlist.
       if allowlist = [] then Inl (''config.allowlist is empty '' @ em_dash @ '' nothing can verify'')
       else Inr allowlist))"

definition eth_verify :: "('sig, 'vk) crypto \<Rightarrow> crates \<Rightarrow> verify_request \<Rightarrow> (string, verdict) outcome" where
  "eth_verify E C req =
     and_then (of_sum (parse_allowlist C (vr_config req))) (\<lambda>allowlist.
       case hex_dec C (trim_0x (vr_payload_hex req)) of
         Inl e \<Rightarrow> Ok (verdict_reject (''payload hex: '' @ e))
       | Inr sig \<Rightarrow>
       (case hex_dec C (trim_0x (vr_id_commitment_hex req)) of
          Inl e \<Rightarrow> Ok (verdict_reject (''id_commitment hex: '' @ e))
        | Inr id_commitment \<Rightarrow>
        (case recover_signer E C id_commitment sig of
           Panic \<Rightarrow> Panic
         | Diverge \<Rightarrow> Diverge
         | Err e \<Rightarrow> Ok (verdict_reject (''signature verification failed: '' @ e))
         | Ok signer \<Rightarrow>
             if signer \<notin> set allowlist then Ok (verdict_reject (''address not allowlisted: '' @ signer))
             else Ok (verdict_accept (Some signer)))))"

definition eth_vector :: "('sig, 'vk) crypto \<Rightarrow> crates \<Rightarrow> 's auth_vector" where
  "eth_vector E C =
     \<lparr>av_auth_type = ETH_ALLOWLIST_AUTH_TYPE, av_produce = default_produce ETH_ALLOWLIST_AUTH_TYPE,
      av_verify = (\<lambda>req. act_lift (eth_verify E C req))\<rparr>"

definition eth_verify_auth :: "('sig, 'vk) crypto \<Rightarrow> crates \<Rightarrow> string \<Rightarrow> ('s, unit, string) action" where
  "eth_verify_auth E C args_json = dispatch_verify C args_json [eth_vector E C]"

section \<open>Correctness\<close>

lemma eth_verify_Err: "eth_verify E C r = Err e \<longleftrightarrow> parse_allowlist C (vr_config r) = Inl e"
  by (cases "parse_allowlist C (vr_config r)")
     (auto simp: eth_verify_def split: sum.split outcome.split)

interpretation eth: verifier "eth_verify E C" for E :: "('sig, 'vk) crypto" and C
proof
  fix r v
  show "(\<exists>n. v = verdict_accept (Some n)) \<or> (\<exists>why. v = verdict_reject why)" if "eth_verify E C r = Ok v"
    using that by (cases "parse_allowlist C (vr_config r)")
      (auto simp: eth_verify_def split: sum.splits outcome.splits if_splits)
  show "eth_verify E C r' = Err e" if "eth_verify E C r = Err e" "vr_config r' = vr_config r" for e r'
    using that by (simp add: eth_verify_Err)
qed

text \<open>What a signature proves: its last byte selects the key that signed the digest of the commitment.\<close>

definition signed_by :: "('sig, 'vk) crypto \<Rightarrow> crates \<Rightarrow> bytes \<Rightarrow> bytes \<Rightarrow> string \<Rightarrow> bool" where
  "signed_by E C id_commitment sig addr \<longleftrightarrow>
     (\<exists>rs v recid signature vk. sig = rs @ [v] \<and> length rs = 64
        \<and> recovery_id E (if 27 \<le> v then v - 27 else v) = Some recid
        \<and> sig_from_slice E rs = Inr signature
        \<and> recover E (eip191_digest E C id_commitment) signature recid = Inr vk
        \<and> addr = ''0x'' @ hex_enc C (drop 12 (keccak256 E (tl (point_bytes E False vk)))))"

text \<open>Documented sizes: a digest has 32 bytes, an encoded point 33 or 65.\<close>

definition crypto_laws :: "('sig, 'vk) crypto \<Rightarrow> bool" where
  "crypto_laws E \<longleftrightarrow> (\<forall>b. length (sha256 E b) = 32 \<and> length (keccak256 E b) = 32)
     \<and> (\<forall>vk. length (point_bytes E True vk) = 33 \<and> length (point_bytes E False vk) = 65)"

lemma subslice_tail: "n \<le> length b \<Longrightarrow> subslice b n (length b) = Ok (drop n b)"
  by (simp add: subslice_def)

lemma split_last: "length xs = Suc n \<Longrightarrow> xs = take n xs @ [xs ! n]"
  by (simp add: take_Suc_conv_app_nth [symmetric])

lemma recover_signer_Ok:
  assumes "crypto_laws E"
  shows "recover_signer E C idc sig = Ok addr \<longleftrightarrow> signed_by E C idc sig addr"
proof -
  have pt: "subslice (point_bytes E False vk) 1 (length (point_bytes E False vk)) = Ok (tl (point_bytes E False vk))" for vk
    using assms by (subst subslice_tail) (simp_all add: crypto_laws_def drop_Suc)
  have kc: "subslice (keccak256 E b) 12 (length (keccak256 E b)) = Ok (drop 12 (keccak256 E b))" for b
    using assms by (intro subslice_tail) (simp add: crypto_laws_def)
  let ?v = "if 27 \<le> sig ! 64 then sig ! 64 - 27 else sig ! 64"
  have eq: "recover_signer E C idc sig = Ok addr \<longleftrightarrow> length sig = 65 \<and>
      (\<exists>recid signature vk. recovery_id E ?v = Some recid
        \<and> sig_from_slice E (take 64 sig) = Inr signature
        \<and> recover E (eip191_digest E C idc) signature recid = Inr vk
        \<and> addr = ''0x'' @ hex_enc C (drop 12 (keccak256 E (tl (point_bytes E False vk)))))"
    by (simp add: recover_signer_def Let_def outcome_simps pt [simplified] kc [simplified] eq_commute [of addr])
  have shape: "(\<exists>rs v. sig = rs @ [v] \<and> length rs = 64 \<and> P rs v) \<longleftrightarrow> length sig = 65 \<and> P (take 64 sig) (sig ! 64)"
    for P :: "bytes \<Rightarrow> u8 \<Rightarrow> bool"
  proof
    assume "length sig = 65 \<and> P (take 64 sig) (sig ! 64)"
    then show "\<exists>rs v. sig = rs @ [v] \<and> length rs = 64 \<and> P rs v"
      using split_last [of sig 64] by (intro exI [of _ "take 64 sig"] exI [of _ "sig ! 64"]) auto
  qed (auto simp: nth_append)
  show ?thesis unfolding eq signed_by_def
    using shape [of "\<lambda>rs v. \<exists>recid signature vk. recovery_id E (if 27 \<le> v then v - 27 else v) = Some recid
        \<and> sig_from_slice E rs = Inr signature
        \<and> recover E (eip191_digest E C idc) signature recid = Inr vk
        \<and> addr = ''0x'' @ hex_enc C (drop 12 (keccak256 E (tl (point_bytes E False vk))))"]
    by blast
qed

lemma eth_verify_accepts:
  assumes "crypto_laws E" and "parse_allowlist C (vr_config r) = Inr allowed"
  shows "eth_verify E C r = Ok (verdict_accept (Some addr)) \<longleftrightarrow>
    (\<exists>sig idc. hex_dec C (trim_0x (vr_payload_hex r)) = Inr sig
       \<and> hex_dec C (trim_0x (vr_id_commitment_hex r)) = Inr idc
       \<and> signed_by E C idc sig addr \<and> addr \<in> set allowed)"
  using assms(2)
  by (auto simp: eth_verify_def recover_signer_Ok [OF assms(1), symmetric] verdict_accept_def
      verdict_reject_def split: sum.split outcome.split)

text \<open>
  C24. The eth verifier accepts exactly the right requests: under a well-formed allowlist it accepts
  a request if and only if its payload is a signature of an allowlisted address, in whatever letter
  case the operator wrote it, over the EIP-191 envelope of this commitment; the nullifier is that
  address.
\<close>

theorem eth_accepts_iff:
  assumes "crypto_laws E" and "parse_allowlist C (vr_config r) = Inr allowed"
  shows "eth_verify E C r = Ok (verdict_accept (Some addr)) \<longleftrightarrow>
    (\<exists>sig idc. hex_dec C (trim_0x (vr_payload_hex r)) = Inr sig
       \<and> hex_dec C (trim_0x (vr_id_commitment_hex r)) = Inr idc
       \<and> signed_by E C idc sig addr \<and> addr \<in> set allowed)"
  by (rule eth_verify_accepts [OF assms])

end
