(* ===== verification/Keycard_Auth.thy ===== *)
theory Keycard_Auth
  imports Auth_Vector Keycard_Attest Eth_Auth
begin

text \<open>
  The keycard-attestation verifier, \<open>rust/keycard-auth-module/rust-lib/src/lib.rs\<close>: the operator's
  trusted CAs and the verdict on an attestation.
\<close>

fun trusted_ca_entries :: "crates \<Rightarrow> json list \<Rightarrow> string + bytes list" where
  "trusted_ca_entries C [] = Inr []"
| "trusted_ca_entries C (e # es) =
     (case as_str e of
        None \<Rightarrow> Inl ''trusted_cas entries must be hex strings''
      | Some s \<Rightarrow>
          (case hex_dec C (trim_0x s) of
             Inl err \<Rightarrow> Inl (''trusted_cas hex: '' @ err)
           | Inr b \<Rightarrow>
               if length b \<noteq> 33 then Inl ''trusted_cas entries must be 33 bytes''
               else map_sum id ((#) b) (trusted_ca_entries C es)))"

definition parse_trusted_cas :: "crates \<Rightarrow> json option \<Rightarrow> string + bytes list" where
  "parse_trusted_cas C cfg =
     try_then (some_or (Option.bind (Option.bind cfg (\<lambda>c. jget c ''trusted_cas'')) as_array)
                 ''config.trusted_cas (array of 33-byte CA pubkey hex) is required'')
       (trusted_ca_entries C)"

definition keycard_verify :: "('sig, 'vk) crypto \<Rightarrow> crates \<Rightarrow> verify_request \<Rightarrow> (string, verdict) outcome" where
  "keycard_verify E C req =
     and_then (of_sum (parse_trusted_cas C (vr_config req))) (\<lambda>trusted_cas.
       if trusted_cas = [] then
         Err (''config.trusted_cas is empty '' @ em_dash @ '' nothing can verify'')
       else
         (case hex_dec C (trim_0x (vr_payload_hex req)) of
            Inl e \<Rightarrow> Ok (verdict_reject (''payload hex: '' @ e))
          | Inr payload \<Rightarrow>
          (case hex_dec C (trim_0x (vr_id_commitment_hex req)) of
             Inl e \<Rightarrow> Ok (verdict_reject (''id_commitment hex: '' @ e))
           | Inr id_commitment \<Rightarrow>
           (case parse_attestation E payload of
              Inl e \<Rightarrow> Ok (verdict_reject (''attestation parse failed: '' @ attest_error_text e))
            | Inr att \<Rightarrow>
                let challenge = bound_challenge E id_commitment in
                (case verify_attestation E att trusted_cas challenge of
                   Inr nul \<Rightarrow> Ok (verdict_accept (Some (hex_enc C nul)))
                 | Inl e \<Rightarrow>
                     Ok (verdict_reject (''attestation verification failed: '' @ attest_error_text e)))))))"

definition keycard_verifier_vector :: "('sig, 'vk) crypto \<Rightarrow> crates \<Rightarrow> 's auth_vector" where
  "keycard_verifier_vector E C =
     \<lparr>av_auth_type = KEYCARD_ATTEST_AUTH_TYPE, av_produce = default_produce KEYCARD_ATTEST_AUTH_TYPE,
      av_verify = (\<lambda>req. act_lift (keycard_verify E C req))\<rparr>"

definition keycard_verify_auth :: "('sig, 'vk) crypto \<Rightarrow> crates \<Rightarrow> string \<Rightarrow> ('s, unit, string) action" where
  "keycard_verify_auth E C args_json = dispatch_verify C args_json [keycard_verifier_vector E C]"

section \<open>Correctness\<close>

interpretation keycard: verifier "keycard_verify E C" for E :: "('sig, 'vk) crypto" and C
proof
  fix r v
  show "(\<exists>n. v = verdict_accept (Some n)) \<or> (\<exists>why. v = verdict_reject why)" if "keycard_verify E C r = Ok v"
    using that by (cases "parse_trusted_cas C (vr_config r)")
      (auto simp: keycard_verify_def Let_def split: sum.splits if_splits)
  show "keycard_verify E C r' = Err e" if "keycard_verify E C r = Err e" "vr_config r' = vr_config r" for e r'
    using that by (cases "parse_trusted_cas C (vr_config r)")
      (auto simp: keycard_verify_def Let_def split: sum.splits if_splits)
qed

text \<open>
  A genuine card's attestation of a commitment: a CA signature over the card's identity key that
  recovers a trusted CA, and the card's own signature over the commitment's challenge, which
  verifies under the identity key after normalisation.
\<close>

definition genuine :: "('sig, 'vk) crypto \<Rightarrow> bytes list \<Rightarrow> bytes \<Rightarrow> 'sig attestation \<Rightarrow> bool" where
  "genuine E cas idc att \<longleftrightarrow>
     (\<exists>recid casig ca ident. recovery_id E (ca_sig att ! 64) = Some recid
        \<and> sig_from_slice E (take 64 (ca_sig att)) = Inr casig
        \<and> recover E (sha256 E (ident_pub att)) casig recid = Inr ca
        \<and> point_bytes E True ca \<in> set cas
        \<and> from_sec1 E (ident_pub att) = Inr ident
        \<and> verify_prehash E ident (sha256 E (ATTEST_DOMAIN @ idc))
            (case normalize_s E (challenge_sig att) of Some s \<Rightarrow> s | None \<Rightarrow> challenge_sig att))"

lemma verify_attestation_Inr:
  "verify_attestation E att cas (bound_challenge E idc) = Inr nul \<longleftrightarrow>
     genuine E cas idc att \<and> nul = keccak256 E (ident_pub att)"
  by (auto simp: verify_attestation_def genuine_def bound_challenge_def nullifier_def Let_def
      try_then_eq_Inr list_ex_iff some_or_def split: option.splits sum.splits if_splits)

lemma keycard_verify_accepts:
  assumes "parse_trusted_cas C (vr_config r) = Inr cas" and "cas \<noteq> []"
  shows "keycard_verify E C r = Ok (verdict_accept (Some n)) \<longleftrightarrow>
    (\<exists>payload idc att. hex_dec C (trim_0x (vr_payload_hex r)) = Inr payload
       \<and> hex_dec C (trim_0x (vr_id_commitment_hex r)) = Inr idc
       \<and> parse_attestation E payload = Inr att \<and> genuine E cas idc att
       \<and> n = hex_enc C (keccak256 E (ident_pub att)))"
  using assms verify_attestation_Inr [of E _ cas]
  by (auto simp: keycard_verify_def Let_def verdict_accept_def verdict_reject_def split: sum.splits)
     (metis old.sum.distinct(1))

text \<open>
  C23. The keycard verifier accepts exactly the right requests: under a well-formed, non-empty list of
  trusted CAs it accepts a request if and only if its payload parses as an attestation that is
  genuine for this very commitment; the nullifier is the digest of the card's identity key.
\<close>

theorem keycard_accepts_iff:
  assumes "parse_trusted_cas C (vr_config r) = Inr cas" and "cas \<noteq> []"
  shows "keycard_verify E C r = Ok (verdict_accept (Some n)) \<longleftrightarrow>
    (\<exists>payload idc att. hex_dec C (trim_0x (vr_payload_hex r)) = Inr payload
       \<and> hex_dec C (trim_0x (vr_id_commitment_hex r)) = Inr idc
       \<and> parse_attestation E payload = Inr att \<and> genuine E cas idc att
       \<and> n = hex_enc C (keccak256 E (ident_pub att)))"
  by (rule keycard_verify_accepts [OF assms])

lemma keycard_verify_config:
  assumes "keycard_verify E C r = Ok v"
  obtains cas where "parse_trusted_cas C (vr_config r) = Inr cas" "cas \<noteq> []"
  using assms by (cases "parse_trusted_cas C (vr_config r)") (auto simp: keycard_verify_def split: if_splits)

text \<open>
  One card, one nullifier: if two requests are accepted, whatever their commitments, signatures
  and operator settings, then their nullifiers are equal exactly when the same card attested them,
  provided the digests of the two identity keys do not collide.
\<close>

lemma keycard_one_nullifier_per_card:
  assumes "hex_laws C"
    and "keycard_verify E C r1 = Ok (verdict_accept (Some n1))"
    and "keycard_verify E C r2 = Ok (verdict_accept (Some n2))"
    and "hex_dec C (trim_0x (vr_payload_hex r1)) = Inr p1" "parse_attestation E p1 = Inr a1"
    and "hex_dec C (trim_0x (vr_payload_hex r2)) = Inr p2" "parse_attestation E p2 = Inr a2"
    and "keccak256 E (ident_pub a1) = keccak256 E (ident_pub a2) \<Longrightarrow> ident_pub a1 = ident_pub a2"
  shows "n1 = n2 \<longleftrightarrow> ident_pub a1 = ident_pub a2"
proof -
  obtain cas1 where "parse_trusted_cas C (vr_config r1) = Inr cas1" "cas1 \<noteq> []"
    using assms(2) by (rule keycard_verify_config)
  from keycard_verify_accepts [OF this, of E n1] assms(2,4,5)
  have n1: "n1 = hex_enc C (keccak256 E (ident_pub a1))" by auto
  obtain cas2 where "parse_trusted_cas C (vr_config r2) = Inr cas2" "cas2 \<noteq> []"
    using assms(3) by (rule keycard_verify_config)
  from keycard_verify_accepts [OF this, of E n2] assms(3,6,7)
  have n2: "n2 = hex_enc C (keccak256 E (ident_pub a2))" by auto
  have "hex_enc C x = hex_enc C y \<longleftrightarrow> x = y" for x y
    using assms(1) unfolding hex_laws_def by (metis sum.inject(2))
  with n1 n2 assms(8) show ?thesis by auto
qed

end
