(* ===== verification/Vectors.thy ===== *)
theory Vectors
  imports Keycard_Auth Exchange
begin

text \<open>
  The reference vectors together with the gifter: the credentials their verdicts name are kept by the
  gifter's replay store as they are, so spending them survives a restart. The theory also holds the
  sample requests that the theorems on the two verifiers are applied to.
\<close>

section \<open>Their credentials\<close>

lemma lower_hex_plain: "list_all lower_hex_digit s \<Longrightarrow> plain s"
proof -
  have "list_all (\<lambda>c. 32 < (of_char c :: nat) \<and> (of_char c :: nat) < 127 \<and> ascii_lower c = c) ''0123456789abcdef''"
    by code_simp
  then have "lower_hex_digit c \<Longrightarrow> 32 < (of_char c :: nat) \<and> (of_char c :: nat) < 127 \<and> ascii_lower c = c" for c
    unfolding lower_hex_digit_def list_all_iff by blast
  then show "list_all lower_hex_digit s \<Longrightarrow> plain s" by (simp add: plain_def list_all_iff)
qed

lemma plain_not_blank:
  assumes "plain s" "c \<in> set (chars s)"
  shows "\<not> is_whitespace c \<and> \<not> is_control c"
proof -
  from assms obtain x where x: "x \<in> set s" "c = of_char x" by (auto simp: chars_ascii plain_ascii)
  then have "32 < c" "c < 127" using assms(1) by (auto simp: plain_def list_all_iff)
  then show ?thesis by (auto simp: is_whitespace_def is_control_def)
qed

lemma normalize_plain: "plain n \<Longrightarrow> n \<noteq> [] \<Longrightarrow> normalize_nullifier C n = Some n"
  by (auto simp: normalize_nullifier_def Let_def plain_trim plain_lowercase list_ex_iff
      dest: plain_not_blank)

lemma hex_enc_plain:
  assumes "hex_laws C"
  shows "plain (hex_enc C b)" "hex_enc C b = [] \<longleftrightarrow> b = []"
proof -
  show "plain (hex_enc C b)" using assms by (simp add: hex_laws_def lower_hex_plain)
  have "length (hex_enc C b) = 2 * length b" using assms by (simp add: hex_laws_def)
  then show "hex_enc C b = [] \<longleftrightarrow> b = []" by (cases b) auto
qed

lemma types_plain: "plain KEYCARD_ATTEST_AUTH_TYPE" "plain ETH_ALLOWLIST_AUTH_TYPE" "plain '':''"
  by (simp_all add: KEYCARD_ATTEST_AUTH_TYPE_def ETH_ALLOWLIST_AUTH_TYPE_def ascii_lower_def)

text \<open>
  The credential a request's own bytes name, before any check: the digest of the identity key in the
  attestation, or the address that the signature recovers.
\<close>

definition keycard_ticket :: "('sig, 'vk) crypto \<Rightarrow> crates \<Rightarrow> verify_request \<Rightarrow> string option" where
  "keycard_ticket E C r =
     (case hex_dec C (trim_0x (vr_payload_hex r)) of
        Inl _ \<Rightarrow> None
      | Inr payload \<Rightarrow>
          (case parse_attestation E payload of
             Inl _ \<Rightarrow> None
           | Inr att \<Rightarrow> Some (hex_enc C (keccak256 E (ident_pub att)))))"

definition eth_ticket :: "('sig, 'vk) crypto \<Rightarrow> crates \<Rightarrow> verify_request \<Rightarrow> string option" where
  "eth_ticket E C r =
     (case (hex_dec C (trim_0x (vr_payload_hex r)), hex_dec C (trim_0x (vr_id_commitment_hex r))) of
        (Inr sig, Inr idc) \<Rightarrow>
          (case recover_signer E C idc sig of Ok signer \<Rightarrow> Some signer | _ \<Rightarrow> None)
      | _ \<Rightarrow> None)"

text \<open>
  A vector whose verdicts name nothing but the request's own ticket, in a form the replay store keeps;
  \<open>laws\<close> is what the vector relies on of its libraries.
\<close>

locale ticketed_verifier = verifier verify
  for verify :: "verify_request \<Rightarrow> (string, verdict) outcome" +
  fixes vector_type :: string and ticket :: "verify_request \<Rightarrow> string option" and laws :: bool
  assumes type_plain: "plain vector_type"
    and names_ticket: "laws \<Longrightarrow> verify r = Ok v \<Longrightarrow> v_nullifier v = Some n \<Longrightarrow>
          ticket r = Some n \<and> plain n \<and> n \<noteq> []"
begin

lemma ticket_kept:
  assumes "laws" "verify r = Ok v" "v_nullifier v = Some n"
  shows "normalize_nullifier C n = Some n" "plain (vector_type @ '':'' @ n)"
  using names_ticket [OF assms] type_plain types_plain(3) by (simp_all add: normalize_plain)

lemma accepted_ticket:
  assumes "laws" "verify r = Ok v" "v_ok v"
  shows "\<exists>n. v_nullifier v = Some n \<and> ticket r = Some n \<and> normalize_nullifier C n = Some n
    \<and> plain (vector_type @ '':'' @ n)"
proof -
  obtain n where n: "v_nullifier v = Some n" using accepted_has_nullifier [OF assms(2,3)] by blast
  with names_ticket [OF assms(1,2) n] ticket_kept [OF assms(1,2) n] show ?thesis by blast
qed

end

interpretation keycard_tickets: ticketed_verifier
  "keycard_verify E C" KEYCARD_ATTEST_AUTH_TYPE "keycard_ticket E C" "hex_laws C \<and> crypto_laws E"
  for E :: "('sig, 'vk) crypto" and C
proof unfold_locales
  fix r v n
  assume laws: "hex_laws C \<and> crypto_laws E" and k: "keycard_verify E C r = Ok v" and "v_nullifier v = Some n"
  then have v: "v = verdict_accept (Some n)"
    using keycard.verdict_shape [OF k] by (auto simp: verdict_accept_def verdict_reject_def)
  obtain cas where "parse_trusted_cas C (vr_config r) = Inr cas" "cas \<noteq> []"
    using k by (rule keycard_verify_config)
  from keycard_verify_accepts [OF this, of E n] k v obtain payload and att :: "'sig attestation" where
    "hex_dec C (trim_0x (vr_payload_hex r)) = Inr payload" "parse_attestation E payload = Inr att"
    "n = hex_enc C (keccak256 E (ident_pub att))" by auto
  moreover have "keccak256 E b \<noteq> []" for b
  proof -
    have "length (keccak256 E b) = 32" using laws by (simp add: crypto_laws_def)
    then show ?thesis by auto
  qed
  ultimately show "keycard_ticket E C r = Some n \<and> plain n \<and> n \<noteq> []"
    using laws by (simp add: keycard_ticket_def hex_enc_plain)
qed (rule types_plain)

interpretation eth_tickets: ticketed_verifier
  "eth_verify E C" ETH_ALLOWLIST_AUTH_TYPE "eth_ticket E C" "hex_laws C \<and> crypto_laws E"
  for E :: "('sig, 'vk) crypto" and C
proof unfold_locales
  fix r v n
  assume laws: "hex_laws C \<and> crypto_laws E" and e: "eth_verify E C r = Ok v" and "v_nullifier v = Some n"
  then have v: "v = verdict_accept (Some n)"
    using eth.verdict_shape [OF e] by (auto simp: verdict_accept_def verdict_reject_def)
  obtain idc sig where r: "hex_dec C (trim_0x (vr_payload_hex r)) = Inr sig"
    "hex_dec C (trim_0x (vr_id_commitment_hex r)) = Inr idc" "recover_signer E C idc sig = Ok n"
    using e v by (cases "parse_allowlist C (vr_config r)")
      (auto simp: eth_verify_def verdict_accept_def verdict_reject_def
        split: sum.splits outcome.splits if_splits)
  then have "signed_by E C idc sig n" using laws by (simp add: recover_signer_Ok)
  with r laws show "eth_ticket E C r = Some n \<and> plain n \<and> n \<noteq> []"
    by (auto simp: eth_ticket_def signed_by_def hex_enc_plain ascii_lower_def)
qed (rule types_plain)

text \<open>
  The reference vectors are safe with the replay store: whatever either verifier accepts, the
  nullifier it names is taken by the gifter unchanged, and the credential under the vector's type
  is plain, so the store keeps it across restarts and never confuses it with another.
\<close>

lemma reference_credentials_plain:
  assumes "hex_laws C" and "crypto_laws E"
    and "keycard_verify E C r = Ok v \<or> eth_verify E C r = Ok v" and "v_nullifier v = Some raw"
  shows "normalize_nullifier C raw = Some raw
    \<and> plain (KEYCARD_ATTEST_AUTH_TYPE @ '':'' @ raw) \<and> plain (ETH_ALLOWLIST_AUTH_TYPE @ '':'' @ raw)"
proof -
  have "plain raw \<and> raw \<noteq> []"
    using assms keycard_tickets.names_ticket eth_tickets.names_ticket by metis
  then show ?thesis by (simp add: normalize_plain types_plain [simplified])
qed

section \<open>Sample requests\<close>

definition kc_request :: "nat \<Rightarrow> verify_request" where
  "kc_request k =
     \<lparr>vr_auth_type = KEYCARD_ATTEST_AUTH_TYPE, vr_payload_hex = sample_hex_enc sample_tlv,
      vr_id_commitment_hex = sample_hex_enc (replicate k 1), vr_rate = 100,
      vr_config = Some (JObj [(''trusted_cas'', JArr [JStr (sample_hex_enc (2 # replicate 32 2))])])\<rparr>"

definition eth_request :: verify_request where
  "eth_request =
     \<lparr>vr_auth_type = ETH_ALLOWLIST_AUTH_TYPE, vr_payload_hex = sample_hex_enc (replicate 64 1 @ [28]),
      vr_id_commitment_hex = sample_hex_enc [1], vr_rate = 100,
      vr_config = Some (JObj [(''allowlist'', JArr [JStr (''0x'' @ sample_hex_enc (replicate 20 2))])])\<rparr>"

lemma trim_0x_hex [simp]: "trim_0x (sample_hex_enc b) = sample_hex_enc b"
proof -
  have "trim_0x s = s" if "list_all lower_hex_digit s" for s
    using that by (cases s rule: trim_0x.cases) (auto simp: lower_hex_digit_def)
  then show ?thesis using sample_hex_laws_enc(2) by blast
qed

lemma sample_hex [simp]: "hex_dec sample_crates (sample_hex_enc b) = Inr b" "hex_enc sample_crates b = sample_hex_enc b"
  by (simp_all add: sample_crates_def sample_hex_roundtrip)

lemma sample_crypto_laws: "crypto_laws sample_crypto"
  by (auto simp: crypto_laws_def sample_crypto_def sample_digest_def)

lemma kc_config: "parse_trusted_cas sample_crates (vr_config (kc_request k)) = Inr [2 # replicate 32 2]"
  by (simp add: parse_trusted_cas_def kc_request_def del: sample_hex_enc.simps)

lemma kc_genuine:
  "genuine sample_crypto [2 # replicate 32 2] idc
     \<lparr>ident_pub = replicate 33 7, ca_sig = replicate 64 7 @ [1], challenge_sig = tlv 0x30 [5]\<rparr>"
proof -
  have "(replicate 64 7 @ [1] :: bytes) ! 64 = 1" by (simp add: nth_append)
  moreover have "replicate 33 2 = (2 # replicate 32 2 :: bytes)"
    using replicate_Suc [of 32 "2 :: u8"] by simp
  ultimately show ?thesis by (simp add: genuine_def sample_crypto_def)
qed

lemma kc_accepted: "keycard_verify sample_crypto sample_crates (kc_request k)
    = Ok (verdict_accept (Some (sample_hex_enc (sample_digest (replicate 33 7)))))"
  by (subst keycard_verify_accepts [OF kc_config])
     (simp_all add: kc_genuine sample_parse kc_request_def, simp add: sample_crypto_def)

theorem keycard_accepts_iff_witness:
  "keycard_verify sample_crypto sample_crates (kc_request 32)
      = Ok (verdict_accept (Some (sample_hex_enc (sample_digest (replicate 33 7))))) \<longleftrightarrow>
    (\<exists>payload idc att. hex_dec sample_crates (trim_0x (vr_payload_hex (kc_request 32))) = Inr payload
       \<and> hex_dec sample_crates (trim_0x (vr_id_commitment_hex (kc_request 32))) = Inr idc
       \<and> parse_attestation sample_crypto payload = Inr att \<and> genuine sample_crypto [2 # replicate 32 2] idc att
       \<and> sample_hex_enc (sample_digest (replicate 33 7))
           = hex_enc sample_crates (keccak256 sample_crypto (ident_pub att)))"
  by (rule keycard_accepts_iff [OF kc_config]) simp

lemma keycard_one_nullifier_example:
  "sample_hex_enc (sample_digest (replicate 33 7)) = sample_hex_enc (sample_digest (replicate 33 7))
    \<longleftrightarrow> ident_pub \<lparr>ident_pub = replicate 33 7 :: bytes, ca_sig = replicate 64 7 @ [1], challenge_sig = tlv 0x30 [5]\<rparr>
      = ident_pub \<lparr>ident_pub = replicate 33 7 :: bytes, ca_sig = replicate 64 7 @ [1], challenge_sig = tlv 0x30 [5]\<rparr>"
  by (rule keycard_one_nullifier_per_card [OF sample_crates_laws(1) kc_accepted [of 32] kc_accepted [of 31] _ sample_parse _ sample_parse])
     (simp_all add: kc_request_def del: sample_hex_enc.simps)

lemma reference_credentials_example:
  "normalize_nullifier sample_crates (sample_hex_enc (sample_digest (replicate 33 7)))
      = Some (sample_hex_enc (sample_digest (replicate 33 7)))
    \<and> plain (KEYCARD_ATTEST_AUTH_TYPE @ '':'' @ sample_hex_enc (sample_digest (replicate 33 7)))
    \<and> plain (ETH_ALLOWLIST_AUTH_TYPE @ '':'' @ sample_hex_enc (sample_digest (replicate 33 7)))"
  by (rule reference_credentials_plain [OF sample_crates_laws(1) sample_crypto_laws disjI1 [OF kc_accepted [of 32]]])
     (simp add: verdict_accept_def)

lemma eth_config: "parse_allowlist sample_crates (vr_config eth_request)
    = Inr [lowercase sample_crates (''0x'' @ sample_hex_enc (replicate 20 2))]"
  by (simp add: parse_allowlist_def eth_request_def del: sample_hex_enc.simps)

theorem eth_accepts_iff_witness:
  "eth_verify sample_crypto sample_crates eth_request
      = Ok (verdict_accept (Some (''0x'' @ sample_hex_enc (replicate 20 2)))) \<longleftrightarrow>
    (\<exists>sig idc. hex_dec sample_crates (trim_0x (vr_payload_hex eth_request)) = Inr sig
       \<and> hex_dec sample_crates (trim_0x (vr_id_commitment_hex eth_request)) = Inr idc
       \<and> signed_by sample_crypto sample_crates idc sig (''0x'' @ sample_hex_enc (replicate 20 2))
       \<and> ''0x'' @ sample_hex_enc (replicate 20 2)
           \<in> set [lowercase sample_crates (''0x'' @ sample_hex_enc (replicate 20 2))])"
  by (rule eth_accepts_iff [OF sample_crypto_laws eth_config])

end
