(* ===== verification/Gift_Once.thy ===== *)
theory Gift_Once
  imports Gifting Vectors
begin

text \<open>
  The gifter with the reference vectors: one membership per genuine card and per allowlisted address,
  over any life of the node, restarts included, and who has earned one gets it. The verifier modules
  run on the other side of the host's cross-module calls; what is assumed of the host is that it hands
  their answers back.
\<close>

section \<open>A deployment of the reference vectors\<close>

text \<open>
  Printed JSON text parses back to the same tree (\<open>serde_json\<close>), for the documents that the gifter
  and a verifier exchange. An operator's settings may hold anything but floating-point numbers, whose
  text need not denote them exactly.
\<close>

definition json_text_laws :: "crates \<Rightarrow> bool" where
  "json_text_laws C \<longleftrightarrow>
     (\<forall>v u. js_ser C (verdict_tree v) = Inr u \<longrightarrow> js_parse C u = Inr (verdict_tree v))
     \<and> (\<forall>r u. (\<forall>c. vr_config r = Some c \<longrightarrow> float_free c) \<longrightarrow> js_ser C (verify_request_tree r) = Inr u \<longrightarrow>
          js_parse C u = Inr (verify_request_tree r))
     \<and> (\<forall>e. js_parse C (error_reply C e) = Inr (JObj [(''error'', JStr e)]))"

text \<open>
  The host: if a call of a module's \<open>verify_auth\<close> comes back with a reply, the reply is what the
  handler of this module answers to the same argument.
\<close>

definition hosts :: "'w ffi \<Rightarrow> crates \<Rightarrow> string \<Rightarrow> (string \<Rightarrow> (unit, string) outcome) \<Rightarrow> bool" where
  "hosts F C m handler \<longleftrightarrow>
     (\<forall>tid text t s reply s'. call_module_json F C tid m VERIFY_METHOD (JArr [JStr text]) t s = (Inr reply, s')
        \<longrightarrow> (\<exists>out. handler text = Ok out \<and> from_str C out = Inr reply))"

text \<open>The operator's configurations: one store, and only the reference vectors as verifiers.\<close>

definition reference_config ::
  "'w ffi \<Rightarrow> ('sig, 'vk) crypto \<Rightarrow> crates \<Rightarrow> string \<Rightarrow> server_cfg \<Rightarrow> bool" where
  "reference_config F E C p cfg \<longleftrightarrow> nullifiers_path cfg = p
     \<and> (\<forall>(t, m, vc) \<in> set (auth_verifiers cfg). (\<forall>c. vc = Some c \<longrightarrow> float_free c) \<and> (
          t = KEYCARD_ATTEST_AUTH_TYPE \<and> hosts F C m (\<lambda>text. fst (keycard_verify_auth E C text ()))
        \<or> t = ETH_ALLOWLIST_AUTH_TYPE \<and> hosts F C m (\<lambda>text. fst (eth_verify_auth E C text ()))))"

definition platform :: "'w ffi \<Rightarrow> ('sig, 'vk) crypto \<Rightarrow> crates \<Rightarrow> string \<Rightarrow> bool" where
  "platform F E C p \<longleftrightarrow> hex_laws C \<and> crypto_laws E \<and> json_text_laws C \<and> p \<noteq> [] \<and> steady_disk F p"

section \<open>A verdict through the host\<close>

text \<open>The request as the verifier sees it.\<close>

definition seen_by_verifier :: "crates \<Rightarrow> rln_gifter_request \<Rightarrow> u64 \<Rightarrow> json option \<Rightarrow> verify_request" where
  "seen_by_verifier C req rate vc = (verify_request_for C req rate vc)\<lparr>vr_config := read_opt vc\<rparr>"


lemma seen_fields [simp]:
  "vr_payload_hex (seen_by_verifier C req rate vc) = hex_enc C (authentication_payload req)"
  "vr_id_commitment_hex (seen_by_verifier C req rate vc) = hex_enc C (identity_commitment req)"
  "vr_config (seen_by_verifier C req rate vc) = read_opt vc"
  by (simp_all add: seen_by_verifier_def verify_request_for_def)

section \<open>What a registration rests on\<close>

text \<open>
  The card that a request's payload is an attestation of, and the address that signed it.
\<close>

definition attested_card :: "('sig, 'vk) crypto \<Rightarrow> rln_gifter_request \<Rightarrow> bytes option" where
  "attested_card E req =
     (case parse_attestation E (authentication_payload req) of Inr att \<Rightarrow> Some (ident_pub att) | Inl _ \<Rightarrow> None)"

definition signer_of :: "('sig, 'vk) crypto \<Rightarrow> crates \<Rightarrow> rln_gifter_request \<Rightarrow> string option" where
  "signer_of E C req =
     (case recover_signer E C (identity_commitment req) (authentication_payload req) of
        Ok signer \<Rightarrow> Some signer | _ \<Rightarrow> None)"

text \<open>
  A request has earned its membership: under the operator's settings for its type, its payload is the
  attestation of a genuine card for its own commitment, or the signature of an allowlisted address.
\<close>

definition earned_by_card :: "('sig, 'vk) crypto \<Rightarrow> crates \<Rightarrow> json option \<Rightarrow> rln_gifter_request \<Rightarrow> bool" where
  "earned_by_card E C vc req \<longleftrightarrow>
     (\<exists>cas att. parse_trusted_cas C (read_opt vc) = Inr cas
        \<and> parse_attestation E (authentication_payload req) = Inr att
        \<and> genuine E cas (identity_commitment req) att)"

definition earned_by_address :: "('sig, 'vk) crypto \<Rightarrow> crates \<Rightarrow> json option \<Rightarrow> rln_gifter_request \<Rightarrow> bool" where
  "earned_by_address E C vc req \<longleftrightarrow>
     (\<exists>allowed addr. parse_allowlist C (read_opt vc) = Inr allowed \<and> addr \<in> set allowed
        \<and> signed_by E C (identity_commitment req) (authentication_payload req) addr)"

definition earned :: "('sig, 'vk) crypto \<Rightarrow> crates \<Rightarrow> server_cfg \<Rightarrow> rln_gifter_request \<Rightarrow> bool" where
  "earned E C cfg req \<longleftrightarrow>
     (\<exists>m vc. map_of (auth_verifiers cfg) (auth_type_of req) = Some (m, vc)
        \<and> (auth_type_of req = KEYCARD_ATTEST_AUTH_TYPE \<and> earned_by_card E C vc req
           \<or> auth_type_of req = ETH_ALLOWLIST_AUTH_TYPE \<and> earned_by_address E C vc req))"



section \<open>The reference deployment is durable\<close>



section \<open>One membership per card and per address\<close>

text \<open>The requests among the registrations that had to authenticate, of one type.\<close>

definition authenticated :: "string \<Rightarrow> gift list \<Rightarrow> rln_gifter_request list" where
  "authenticated t gs =
     map (\<lambda>(cfg, req, a). req) (filter (\<lambda>(cfg, req, a). auth_verifiers cfg \<noteq> [] \<and> auth_type_of req = t) gs)"

lemma authenticated_simps [simp]:
  "authenticated t [] = []"
  "authenticated t ((cfg, req, a) # gs)
     = (if auth_verifiers cfg \<noteq> [] \<and> auth_type_of req = t then req # authenticated t gs else authenticated t gs)"
  by (simp_all add: authenticated_def)




section \<open>Earned requests are granted\<close>

text \<open>The credential that stands for a request's card or address in the spent set.\<close>

definition own_credential :: "('sig, 'vk) crypto \<Rightarrow> crates \<Rightarrow> rln_gifter_request \<Rightarrow> string" where
  "own_credential E C req =
     auth_type_of req @ '':'' @
       (if auth_type_of req = KEYCARD_ATTEST_AUTH_TYPE then hex_enc C (keccak256 E (the (attested_card E req)))
        else the (signer_of E C req))"

lemma earned_card_accepted:
  assumes "hex_laws C" "earned_by_card E C vc req"
  shows "keycard_verify E C (seen_by_verifier C req rate vc)
    = Ok (verdict_accept (Some (hex_enc C (keccak256 E (the (attested_card E req))))))"
proof -
  obtain cas att where a: "parse_trusted_cas C (read_opt vc) = Inr cas"
    "parse_attestation E (authentication_payload req) = Inr att" "genuine E cas (identity_commitment req) att"
    using assms(2) by (auto simp: earned_by_card_def)
  then have "cas \<noteq> []" by (auto simp: genuine_def)
  with a show ?thesis
    using keycard_verify_accepts [of C "seen_by_verifier C req rate vc" cas E] assms(1)
    by (simp add: hex_enc_read attested_card_def)
qed

lemma earned_address_accepted:
  assumes "hex_laws C" "crypto_laws E" "earned_by_address E C vc req"
  shows "eth_verify E C (seen_by_verifier C req rate vc) = Ok (verdict_accept (Some (the (signer_of E C req))))"
proof -
  obtain allowed addr where a: "parse_allowlist C (read_opt vc) = Inr allowed" "addr \<in> set allowed"
    "signed_by E C (identity_commitment req) (authentication_payload req) addr"
    using assms(3) by (auto simp: earned_by_address_def)
  then have "signer_of E C req = Some addr"
    by (simp add: signer_of_def recover_signer_Ok [OF assms(2), symmetric])
  with a show ?thesis
    using eth_verify_accepts [OF assms(2), of C "seen_by_verifier C req rate vc" allowed addr] assms(1)
    by (simp add: hex_enc_read)
qed

text \<open>If the host answers a verify call, the gifter reads the verdict of the vector behind it.\<close>

lemma hosted_answer:
  assumes "json_text_laws C" and "hosts F C m (\<lambda>text. fst (dispatch_verify C text [v] ()))"
    and "\<And>r. av_verify v r = act_lift (verify r)" and "\<And>c. vc = Some c \<Longrightarrow> float_free c"
    and "av_auth_type v = auth_type_of req" and "verify (seen_by_verifier C req rate vc) = Ok vd"
    and "js_ser C (verify_request_tree (verify_request_for C req rate vc)) = Inr arg"
    and "js_ser C (verdict_tree vd) = Inr out"
    and "call_module_json F C tid m VERIFY_METHOD (JArr [JStr arg]) t s = (Inr reply, s1)"
  shows "parse_verdict C reply = Inr vd"
proof -
  let ?r = "verify_request_for C req rate vc"
  have "js_parse C arg = Inr (verify_request_tree ?r)"
    using assms(1,4,7) unfolding json_text_laws_def by (simp add: verify_request_for_def)
  moreover have "js_parse C out = Inr (verdict_tree vd)" using assms(1,8) by (simp add: json_text_laws_def)
  moreover have "find (\<lambda>v. av_auth_type v = vr_auth_type ?r) [v] = Some v"
    using assms(5) by (simp add: verify_request_for_def)
  moreover have "av_verify v (?r\<lparr>vr_config := read_opt (vr_config ?r)\<rparr>) () = (Ok vd, ())"
    using assms(3,6) by (simp add: act_lift_def seen_by_verifier_def verify_request_for_def)
  ultimately have d: "dispatch_verify C arg [v] () = (Ok out, ())"
    "map_sum id (parse_verdict C) (from_str C out) = Inr (Inr vd)"
    using dispatch_verify_answers [of C arg ?r "[v]" v "()" vd "()" out] assms(8) by simp_all
  obtain out' where "fst (dispatch_verify C arg [v] ()) = Ok out'" "from_str C out' = Inr reply"
    using assms(2,9) unfolding hosts_def by blast
  with d show ?thesis by simp
qed

lemma earned_verdict:
  assumes "platform F E C p" "reference_config F E C p cfg" "earned E C cfg req"
    and "map_of (auth_verifiers cfg) (auth_type_of req) = Some (m, vc)"
    and "js_ser C (verify_request_tree (verify_request_for C req rate vc)) = Inr arg"
    and "\<And>v. \<exists>u. js_ser C (verdict_tree v) = Inr u"
    and "call_module_json F C tid m VERIFY_METHOD (JArr [JStr arg]) t s = (Inr reply, s1)"
  shows "\<exists>n. parse_verdict C reply = Inr (verdict_accept (Some n))
    \<and> credential C req n = Some (own_credential E C req)"
proof -
  have laws: "hex_laws C \<and> crypto_laws E" and json: "json_text_laws C"
    using assms(1) by (simp_all add: platform_def)
  have types: "KEYCARD_ATTEST_AUTH_TYPE \<noteq> ETH_ALLOWLIST_AUTH_TYPE"
    by (simp add: KEYCARD_ATTEST_AUTH_TYPE_def ETH_ALLOWLIST_AUTH_TYPE_def)
  have vc: "float_free c" if "vc = Some c" for c
    using that map_of_SomeD [OF assms(4)] assms(2) by (auto simp: reference_config_def)
  from map_of_SomeD [OF assms(4)] assms(2,3,4) types consider
    (card) "hosts F C m (\<lambda>text. fst (dispatch_verify C text [keycard_verifier_vector E C] ()))"
      "auth_type_of req = KEYCARD_ATTEST_AUTH_TYPE" "earned_by_card E C vc req"
  | (address) "hosts F C m (\<lambda>text. fst (dispatch_verify C text [eth_vector E C] ()))"
      "auth_type_of req = ETH_ALLOWLIST_AUTH_TYPE" "earned_by_address E C vc req"
    by (auto simp: reference_config_def earned_def keycard_verify_auth_def eth_verify_auth_def)
  then show ?thesis
  proof cases
    case card
    let ?n = "hex_enc C (keccak256 E (the (attested_card E req)))"
    have k: "keycard_verify E C (seen_by_verifier C req rate vc) = Ok (verdict_accept (Some ?n))"
      using earned_card_accepted card(3) laws by blast
    obtain out where "js_ser C (verdict_tree (verdict_accept (Some ?n))) = Inr out" using assms(6) by blast
    with hosted_answer [where verify = "keycard_verify E C", OF json card(1) _ vc _ k assms(5) _ assms(7)] card(2)
    have "parse_verdict C reply = Inr (verdict_accept (Some ?n))" by (simp add: keycard_verifier_vector_def)
    with keycard_tickets.ticket_kept(1) [OF laws k, of ?n C] card(2) show ?thesis
      by (auto simp: credential_def own_credential_def verdict_accept_def)
  next
    case address
    let ?n = "the (signer_of E C req)"
    have k: "eth_verify E C (seen_by_verifier C req rate vc) = Ok (verdict_accept (Some ?n))"
      using earned_address_accepted address(3) laws by blast
    obtain out where "js_ser C (verdict_tree (verdict_accept (Some ?n))) = Inr out" using assms(6) by blast
    with hosted_answer [where verify = "eth_verify E C", OF json address(1) _ vc _ k assms(5) _ assms(7)] address(2)
    have "parse_verdict C reply = Inr (verdict_accept (Some ?n))" by (simp add: eth_vector_def)
    with eth_tickets.ticket_kept(1) [OF laws k, of ?n C] address(2) types show ?thesis
      by (auto simp: credential_def own_credential_def verdict_accept_def)
  qed
qed

text \<open>
  C3. Who has earned a membership gets it. Under the reference vectors, take a well-formed request that is
  earned (by a genuine card's attestation of its commitment, or by an allowlisted signer) and whose
  card or address is not spent. If the verifier's module answers, the registry takes the registration
  and the first poll finds it, then the gifter answers with the membership at the leaf the registry
  reported, and the credential is appended to the store.
\<close>

theorem earned_request_granted:
  assumes "platform F E C p" "reference_config F E C p cfg" "server s = Some cfg"
    and "request_decode buf = Inr req" "length (identity_commitment req) = 32"
    and "earned E C cfg req" "own_credential E C req \<notin> consumed s"
    and "map_of (auth_verifiers cfg) (auth_type_of req) = Some (m, vc)"
    and "js_ser C (verify_request_tree (verify_request_for C req (effective_rate cfg req) vc)) = Inr arg"
    and "\<And>v. \<exists>u. js_ser C (verdict_tree v) = Inr u"
    and "call_module_json F C tid m VERIFY_METHOD (JArr [JStr arg]) AUTH_VERIFY_TIMEOUT_MS s = (Inr reply, s1)"
    and "call_module_json F C tid RLN_MODULE ''register_member''
        (register_args C cfg (identity_commitment req) (effective_rate cfg req)) REGISTER_TIMEOUT_MS
        (s1\<lparr>consumed_nullifiers := Some (insert (own_credential E C req) (consumed s))\<rparr>) = (Inr reg, s2)"
    and "instant_now F (outside s2) = (now, w)"
    and "ask_membership F C tid cfg (hex_enc C (identity_commitment req)) (s2\<lparr>outside := w\<rparr>) = (Inr v, s3)"
    and "confirmed_leaf v = Some leaf"
  shows "handle_request F C tid buf s
    = Some (answer (request_id req) (Inr (granted cfg leaf (tx_hash_of C reg))),
        append_nullifier F p (own_credential E C req) s3)"
proof -
  let ?nul = "own_credential E C req" and ?rate = "effective_rate cfg req"
  obtain n where n: "parse_verdict C reply = Inr (verdict_accept (Some n))" "credential C req n = Some ?nul"
    using earned_verdict [OF assms(1,2,6,8,9,10,11)] by blast
  have ne: "auth_verifiers cfg \<noteq> []" using assms(8) by auto
  have ask: "ask_verifier F C tid cfg req ?rate s = (Inr (m, verdict_accept (Some n)), s1)"
    using assms(8,9,11) n(1) by (simp add: ask_verifier_def verdict_accept_def)
  have c1: "consumed s1 = consumed s" using consumed_core [OF ask_verifier_frame(1) [OF ask]] .
  have auth: "authenticate F C tid cfg req ?rate s
      = (Inr (Some ?nul), s1\<lparr>consumed_nullifiers := Some (insert ?nul (consumed s))\<rparr>)"
    using ask n(2) ne assms(7) c1
    by (auto simp: authenticate_def reserve_def credential_def verdict_accept_def Let_def)
  have "register F C tid cfg (identity_commitment req) ?rate
      (s1\<lparr>consumed_nullifiers := Some (insert ?nul (consumed s))\<rparr>) = Some (Inr (granted cfg leaf (tx_hash_of C reg)), s3)"
    using assms(12-15) by (simp add: register_def confirm_loop.simps)
  with assms(2-5) auth show ?thesis
    by (simp add: handle_request_def settle_def reference_config_def)
qed

end
