(* ===== verification/Sample_Json.thy ===== *)
theory Sample_Json
  imports Crates
begin

text \<open>
  A text codec for JSON documents, to show that the laws assumed of \<open>serde_json\<close> can hold. It is not
  JSON's grammar: every value has a tag, and strings, lists and numbers end with a full stop.
\<close>

fun code_string :: "string \<Rightarrow> string" where
  "code_string [] = ''.''"
| "code_string (c # s) = CHR ''+'' # c # code_string s"

fun read_string :: "string \<Rightarrow> (string \<times> string) option" where
  "read_string (t # r) =
     (if t = CHR ''.'' then Some ([], r)
      else case r of [] \<Rightarrow> None | c # r' \<Rightarrow> map_option (map_prod ((#) c) id) (read_string r'))"
| "read_string [] = None"

definition code_nat :: "nat \<Rightarrow> string" where
  "code_nat n = replicate n (CHR ''+'') @ ''.''"

fun read_nat :: "string \<Rightarrow> (nat \<times> string) option" where
  "read_nat (t # r) = (if t = CHR ''.'' then Some (0, r) else map_option (map_prod Suc id) (read_nat r))"
| "read_nat [] = None"

fun code_num :: "jnum \<Rightarrow> string" where
  "code_num (PosInt n) = CHR ''p'' # code_nat (unat n)"
| "code_num (NegInt n) = CHR ''m'' # code_nat (unat n)"
| "code_num (Float n) = CHR ''d'' # code_nat (unat n)"

fun read_num :: "string \<Rightarrow> (jnum \<times> string) option" where
  "read_num (t # r) =
     map_option (map_prod (\<lambda>n. if t = CHR ''p'' then PosInt (of_nat n) else if t = CHR ''m'' then NegInt (of_nat n)
       else Float (of_nat n)) id) (read_nat r)"
| "read_num [] = None"

primrec json_text :: "json \<Rightarrow> string"
  and json_texts :: "json list \<Rightarrow> string"
  and json_text_entries :: "(string \<times> json) list \<Rightarrow> string"
  and json_text_entry :: "string \<times> json \<Rightarrow> string"
  where
  "json_text JNull = ''n''"
| "json_text (JBool b) = (if b then ''t'' else ''f'')"
| "json_text (JNum x) = CHR ''#'' # code_num x"
| "json_text (JStr s) = CHR ''s'' # code_string s"
| "json_text (JArr xs) = CHR ''a'' # json_texts xs"
| "json_text (JObj kvs) = CHR ''o'' # json_text_entries kvs"
| "json_texts [] = ''.''"
| "json_texts (x # xs) = CHR ''+'' # json_text x @ json_texts xs"
| "json_text_entries [] = ''.''"
| "json_text_entries (e # es) = CHR ''+'' # json_text_entry e @ json_text_entries es"
| "json_text_entry (k, v) = code_string k @ json_text v"

text \<open>The reader descends with fuel, which the length of the text always covers.\<close>

fun read_json :: "nat \<Rightarrow> string \<Rightarrow> (json \<times> string) option"
  and read_jsons :: "nat \<Rightarrow> string \<Rightarrow> (json list \<times> string) option"
  and read_entries :: "nat \<Rightarrow> string \<Rightarrow> ((string \<times> json) list \<times> string) option"
  where
  "read_json (Suc n) (t # r) =
     (if t = CHR ''n'' then Some (JNull, r)
      else if t = CHR ''t'' then Some (JBool True, r)
      else if t = CHR ''f'' then Some (JBool False, r)
      else if t = CHR ''#'' then map_option (map_prod JNum id) (read_num r)
      else if t = CHR ''s'' then map_option (map_prod JStr id) (read_string r)
      else if t = CHR ''a'' then map_option (map_prod JArr id) (read_jsons n r)
      else if t = CHR ''o'' then map_option (map_prod JObj id) (read_entries n r)
      else None)"
| "read_json _ _ = None"
| "read_jsons (Suc n) (t # r) =
     (if t = CHR ''.'' then Some ([], r)
      else case read_json n r of
        None \<Rightarrow> None
      | Some (x, r') \<Rightarrow> map_option (map_prod ((#) x) id) (read_jsons n r'))"
| "read_jsons _ _ = None"
| "read_entries (Suc n) (t # r) =
     (if t = CHR ''.'' then Some ([], r)
      else case read_string r of
        None \<Rightarrow> None
      | Some (k, r') \<Rightarrow>
          (case read_json n r' of
             None \<Rightarrow> None
           | Some (v, r'') \<Rightarrow> map_option (map_prod ((#) (k, v)) id) (read_entries n r'')))"
| "read_entries _ _ = None"

lemma read_code_string [simp]: "read_string (code_string s @ r) = Some (s, r)"
  by (induction s) simp_all

lemma read_code_nat [simp]: "read_nat (code_nat n @ r) = Some (n, r)"
  by (induction n) (simp_all add: code_nat_def)

lemma read_code_num [simp]: "read_num (code_num x @ r) = Some (x, r)"
  by (cases x) simp_all

text \<open>The reader's equations with the fuel taken off.\<close>

lemma read_fueled:
  "0 < n \<Longrightarrow> read_json n (CHR ''#'' # r) = map_option (map_prod JNum id) (read_num r)"
  "0 < n \<Longrightarrow> read_json n (CHR ''s'' # r) = map_option (map_prod JStr id) (read_string r)"
  "0 < n \<Longrightarrow> read_json n (CHR ''a'' # r) = map_option (map_prod JArr id) (read_jsons (n - 1) r)"
  "0 < n \<Longrightarrow> read_json n (CHR ''o'' # r) = map_option (map_prod JObj id) (read_entries (n - 1) r)"
  "0 < n \<Longrightarrow> read_json n (CHR ''n'' # r) = Some (JNull, r)"
  "0 < n \<Longrightarrow> read_json n (CHR ''t'' # r) = Some (JBool True, r)"
  "0 < n \<Longrightarrow> read_json n (CHR ''f'' # r) = Some (JBool False, r)"
  "0 < n \<Longrightarrow> read_jsons n (CHR ''.'' # r) = Some ([], r)"
  "0 < n \<Longrightarrow> read_entries n (CHR ''.'' # r) = Some ([], r)"
  "0 < n \<Longrightarrow> read_jsons n (CHR ''+'' # r) = Option.bind (read_json (n - 1) r)
     (\<lambda>(x, r'). map_option (map_prod ((#) x) id) (read_jsons (n - 1) r'))"
  "0 < n \<Longrightarrow> read_entries n (CHR ''+'' # r) = Option.bind (read_string r) (\<lambda>(k, r').
     Option.bind (read_json (n - 1) r') (\<lambda>(v, r''). map_option (map_prod ((#) (k, v)) id) (read_entries (n - 1) r'')))"
  by (cases n; simp split: option.split)+

lemma read_json_text:
  "length (json_text t) \<le> n \<Longrightarrow> read_json n (json_text t @ r) = Some (t, r)"
  "length (json_texts ts) \<le> n \<Longrightarrow> read_jsons n (json_texts ts @ r) = Some (ts, r)"
  "length (json_text_entries es) \<le> n \<Longrightarrow> read_entries n (json_text_entries es @ r) = Some (es, r)"
  "length (json_text_entry e) \<le> n \<Longrightarrow>
     read_string (json_text_entry e @ r) = Some (fst e, json_text (snd e) @ r)
     \<and> read_json n (json_text (snd e) @ r) = Some (snd e, r)"
  by (induction t and ts and es and e arbitrary: n r and n r and n r and n r
      rule: json_text.induct json_texts.induct json_text_entries.induct json_text_entry.induct)
     (auto simp: read_fueled)

definition json_of_text :: "string \<Rightarrow> string + json" where
  "json_of_text s = (case read_json (length s) s of Some (t, []) \<Rightarrow> Inr t | _ \<Rightarrow> Inl ''syntax'')"

lemma json_of_text [simp]: "json_of_text (json_text t) = Inr t"
  using read_json_text(1) [of t "length (json_text t)" "[]"] by (simp add: json_of_text_def)

lemma json_text_not_Nil [simp]: "json_text t \<noteq> []"
  by (cases t) simp_all

declare json_text.simps [simp del]

text \<open>Texts of printable ASCII are fit to cross the C interface, and the codec keeps to them.\<close>

definition printable :: "string \<Rightarrow> bool" where
  "printable s \<longleftrightarrow> list_all (\<lambda>c. 32 \<le> (of_char c :: nat) \<and> (of_char c :: nat) < 128) s"

lemma printable_simps [simp]:
  "printable []" "printable (c # s) \<longleftrightarrow> 32 \<le> (of_char c :: nat) \<and> (of_char c :: nat) < 128 \<and> printable s"
  "printable (s @ t) \<longleftrightarrow> printable s \<and> printable t"
  by (simp_all add: printable_def)

lemma printable_ascii: "printable s \<Longrightarrow> ascii_str s"
  by (induction s) simp_all

lemma printable_no_nul: "printable s \<Longrightarrow> CHR 0x00 \<notin> set s"
  by (induction s) auto

lemma printable_code [simp]:
  "printable (code_string s) \<longleftrightarrow> printable s" "printable (code_nat n)" "printable (code_num x)"
proof -
  show "printable (code_string s) \<longleftrightarrow> printable s" by (induction s) simp_all
  show n: "printable (code_nat n)" for n by (induction n) (simp_all add: code_nat_def)
  show "printable (code_num x)" by (cases x) (simp_all add: n)
qed

lemma printable_hex: "list_all lower_hex_digit s \<Longrightarrow> printable s"
  by (induction s) (auto simp: lower_hex_digit_def)

end
