(* ===== verification/Sample_Gift.thy ===== *)
theory Sample_Gift
  imports Gift_Once Sample_Json
begin

text \<open>
  A deployment small enough to evaluate, with a card that earns a membership: the reference vectors
  hosted over the text codec of \<open>Sample_Json\<close>, one authentic request, and the witnesses of the
  properties of \<open>Gift_Once\<close>.
\<close>

section \<open>A sample deployment\<close>

text \<open>
  A host that runs the keycard verifier on whatever it is asked, and a registry that takes every
  registration and confirms it at leaf 7; every other call fails. JSON texts are those of
  \<open>Sample_Json\<close>.
\<close>

definition json_crates :: crates where
  "json_crates = sample_crates\<lparr>js_parse := json_of_text, js_print := json_text, js_ser := (\<lambda>t. Inr (json_text t))\<rparr>"

definition once_answer :: "string \<Rightarrow> string \<Rightarrow> string option" where
  "once_answer m a =
     (if m = VERIFY_METHOD then
        (case json_of_text a of
           Inr (JArr [JStr arg]) \<Rightarrow>
             (case fst (keycard_verify_auth sample_crypto json_crates arg ()) of
                Ok out \<Rightarrow> if valid_str out then Some out else None
              | _ \<Rightarrow> None)
         | _ \<Rightarrow> None)
      else if m = ''register_member'' then Some (json_text (JObj []))
      else if m = ''get_membership'' then
        Some (json_text (JObj [(''leaf_index'', JNum (PosInt 7)), (''registered'', JBool True)]))
      else None)"

definition once_ffi :: "nat ffi" where
  "once_ffi = sample_ffi
     \<lparr>lp_invoke := (\<lambda>_ m a _ w. case once_answer m a of
        Some out \<Rightarrow> ((0, Some (as_bytes out), None), w + 1) | None \<Rightarrow> ((1, None, None), w)),
      lp_invoke_async := (\<lambda>_ m a _ w. case once_answer m a of
        Some out \<Rightarrow> ((0, Some (1, Some (as_bytes out))), w + 1) | None \<Rightarrow> ((1, None), w))\<rparr>"

definition once_cfg :: server_cfg where
  "once_cfg =
     \<lparr>config = ''cfg'', wallet = ''w'',
      auth_verifiers = [(KEYCARD_ATTEST_AUTH_TYPE, ''k'', vr_config (kc_request 32))],
      nullifiers_path = ''p'', max_rate_limit = 100\<rparr>"

definition once_request :: rln_gifter_request where
  "once_request =
     \<lparr>request_id = ''gift-0101010101010101'', authentication_type = as_bytes KEYCARD_ATTEST_AUTH_TYPE,
      authentication_payload = sample_tlv, identity_commitment = replicate 32 1, rate_limit = None\<rparr>"

lemma json_crates_simps [simp]:
  "hex_enc json_crates = sample_hex_enc" "hex_dec json_crates = hex_dec sample_crates"
  "js_parse json_crates = json_of_text" "js_print json_crates = json_text"
  "js_ser json_crates = (\<lambda>t. Inr (json_text t))"
  by (simp_all add: json_crates_def sample_crates_def)

lemma json_crates_laws: "hex_laws json_crates" "json_text_laws json_crates"
  using sample_crates_laws(1)
  by (simp_all add: hex_laws_def json_crates_def json_text_laws_def error_reply_def)

text \<open>What the gifter reads from a call of this host.\<close>

lemma once_call_json:
  assumes "client_table s m = Some ptr" "\<not> on_owner_thread tid s" "cstring_ok meth" "cstring_ok (json_text args)"
    and "once_answer meth (json_text args) = Some (json_text t)" "valid_str (json_text t)" "is_object (json_value t)"
  shows "call_module_json once_ffi json_crates tid m meth args tmo s
    = (Inr (json_value t), s\<lparr>calls := calls s @ [(m, meth, args, tmo)], outside := outside s + 1\<rparr>)"
proof -
  have "parse_ok json_crates (c_str (Some (as_bytes (json_text t)))) = json_value t"
    using assms(6) by (simp add: c_str_def parse_ok_def from_str_def del: as_bytes_simps)
  moreover have "\<not> on_owner_thread tid (s\<lparr>calls := x\<rparr>)" for x using assms(2) by (simp add: on_owner_thread_def)
  ultimately show ?thesis
    using assms unwrap_object [OF assms(7)]
    by (simp add: call_module_json_def call_then_def call_lift_def call_json_def client_ptr_off_owner
        once_ffi_def sample_ffi_def reply_trampoline_def Let_def del: as_bytes_simps)
qed

lemma dispatch_answers_object:
  assumes "dispatch_verify json_crates arg vs s = (Ok out, s')"
  shows "\<exists>t. out = json_text t \<and> is_object (json_value t)"
  using assms verdict_is_object
  by (auto simp: dispatch_verify_def error_reply_def json_value.simps(6) split: prod.splits outcome.splits)

lemma once_hosts: "hosts once_ffi json_crates m (\<lambda>text. fst (keycard_verify_auth sample_crypto json_crates text ()))"
  unfolding hosts_def
proof (intro allI impI)
  fix tid arg t and s s' :: "nat gstate" and reply
  assume "call_module_json once_ffi json_crates tid m VERIFY_METHOD (JArr [JStr arg]) t s = (Inr reply, s')"
  then obtain v where v: "call_json once_ffi json_crates tid m VERIFY_METHOD (JArr [JStr arg]) t s = (Inr v, s')"
    and r: "unwrap_module json_crates VERIFY_METHOD v = Inr reply"
    by (auto simp: call_module_json_def call_then_def call_lift_def split: prod.splits sum.splits)
  from v obtain out where out: "once_answer VERIFY_METHOD (json_text (JArr [JStr arg])) = Some out"
    and vo: "v = parse_ok json_crates (c_str (Some (as_bytes out)))"
    by (auto simp: call_json_def once_ffi_def sample_ffi_def reply_trampoline_def Let_def
        simp del: as_bytes_simps split: prod.splits option.splits if_splits)
  from out have h: "fst (keycard_verify_auth sample_crypto json_crates arg ()) = Ok out" and valid: "valid_str out"
    by (auto simp: once_answer_def split: outcome.splits if_splits)
  from h have "dispatch_verify json_crates arg [keycard_verifier_vector sample_crypto json_crates] () = (Ok out, ())"
    by (simp add: keycard_verify_auth_def prod_eq_iff)
  from dispatch_answers_object [OF this] obtain u where u: "out = json_text u" "is_object (json_value u)" by blast
  have "v = json_value u"
    using vo valid u by (simp add: c_str_def parse_ok_def from_str_def del: as_bytes_simps)
  with r u have "from_str json_crates out = Inr reply" by (simp add: unwrap_object from_str_def)
  with h show "\<exists>out. fst (keycard_verify_auth sample_crypto json_crates arg ()) = Ok out
      \<and> from_str json_crates out = Inr reply" by blast
qed

lemma once_float_free: "vr_config (kc_request k) = Some c \<Longrightarrow> float_free c"
  by (auto simp: kc_request_def)

lemma once_platform:
  "platform once_ffi sample_crypto json_crates ''p''"
  "reference_config once_ffi sample_crypto json_crates ''p'' once_cfg"
  using json_crates_laws sample_crypto_laws once_hosts once_float_free
  by (simp_all add: platform_def steady_disk_def once_ffi_def sample_ffi_def reference_config_def once_cfg_def)

subsection \<open>The sample request is granted\<close>

abbreviation once_nullifier :: string where
  "once_nullifier \<equiv> sample_hex_enc (sample_digest (replicate 33 7))"

abbreviation once_credential :: string where
  "once_credential \<equiv> KEYCARD_ATTEST_AUTH_TYPE @ '':'' @ once_nullifier"

lemma once_auth_type: "auth_type_of once_request = KEYCARD_ATTEST_AUTH_TYPE"
proof -
  have "valid_str KEYCARD_ATTEST_AUTH_TYPE" by (simp add: valid_str_ascii KEYCARD_ATTEST_AUTH_TYPE_def)
  then show ?thesis by (simp add: auth_type_of_def once_request_def del: as_bytes_simps)
qed

lemma once_seen: "verify_request_for json_crates once_request 100 (vr_config (kc_request 32)) = kc_request 32"
  by (simp add: verify_request_for_def once_auth_type) (simp add: kc_request_def once_request_def)

lemma once_earned: "earned_by_card sample_crypto json_crates (vr_config (kc_request 32)) once_request"
proof -
  have "parse_trusted_cas json_crates (read_opt (vr_config (kc_request 32))) = Inr [2 # replicate 32 2]"
    by (simp add: parse_trusted_cas_def kc_request_def read_opt_def json_value.simps(6) del: sample_hex_enc.simps)
  then show ?thesis
    using sample_parse kc_genuine [of "replicate 32 1"] by (auto simp: earned_by_card_def once_request_def)
qed

lemma once_own: "attested_card sample_crypto once_request = Some (replicate 33 7)"
  "own_credential sample_crypto json_crates once_request = once_credential"
proof -
  show c: "attested_card sample_crypto once_request = Some (replicate 33 7)"
    by (simp add: attested_card_def once_request_def sample_parse)
  show "own_credential sample_crypto json_crates once_request = once_credential"
    unfolding own_credential_def c once_auth_type by (simp add: sample_crypto_def)
qed

text \<open>The two texts that are exchanged over the verify call.\<close>

abbreviation once_arg :: string where
  "once_arg \<equiv> json_text (verify_request_tree (kc_request 32))"

abbreviation once_verdict :: verdict where
  "once_verdict \<equiv> verdict_accept (Some once_nullifier)"

lemma once_texts:
  "cstring_ok (json_text (JArr [JStr once_arg]))" "valid_str (json_text (verdict_tree once_verdict))"
  "cstring_ok VERIFY_METHOD"
proof -
  have hex: "printable (sample_hex_enc b)" for b using printable_hex sample_hex_laws_enc(2) .
  have "printable once_arg"
    by (simp add: verify_request_tree_def kc_request_def KEYCARD_ATTEST_AUTH_TYPE_def opt_field_def hex json_text.simps
        del: sample_hex_enc.simps)
  then have "printable (json_text (JArr [JStr once_arg]))" by (simp add: json_text.simps)
  then show "cstring_ok (json_text (JArr [JStr once_arg]))"
    unfolding cstring_ok_def by (rule printable_no_nul)
  have "printable (json_text (verdict_tree once_verdict))"
    by (simp add: verdict_tree_def verdict_accept_def opt_field_def hex json_text.simps del: sample_hex_enc.simps)
  then show "valid_str (json_text (verdict_tree once_verdict))" by (intro valid_str_ascii printable_ascii)
  show "cstring_ok VERIFY_METHOD" by (simp add: cstring_ok_def VERIFY_METHOD_def)
qed

lemma once_answer_verify: "once_answer VERIFY_METHOD (json_text (JArr [JStr once_arg]))
    = Some (json_text (verdict_tree once_verdict))"
proof -
  have "keycard_verify sample_crypto json_crates (seen_by_verifier json_crates once_request 100 (vr_config (kc_request 32)))
      = Ok once_verdict"
    using earned_card_accepted [OF json_crates_laws(1) once_earned] once_own(1) by (simp add: sample_crypto_def)
  then have "keycard_verify sample_crypto json_crates ((kc_request 32)\<lparr>vr_config := read_opt (vr_config (kc_request 32))\<rparr>)
      = Ok once_verdict"
    by (simp add: seen_by_verifier_def once_seen)
  moreover have "vr_auth_type (kc_request 32) = KEYCARD_ATTEST_AUTH_TYPE" by (simp add: kc_request_def)
  ultimately have "dispatch_verify json_crates once_arg [keycard_verifier_vector sample_crypto json_crates] ()
      = (Ok (json_text (verdict_tree once_verdict)), ())"
    using dispatch_verify_answers [of json_crates once_arg "kc_request 32" "[keycard_verifier_vector sample_crypto json_crates]"
        "keycard_verifier_vector sample_crypto json_crates" "()" once_verdict "()"]
    by (simp add: keycard_verifier_vector_def act_lift_def)
  then show ?thesis by (simp add: once_answer_def keycard_verify_auth_def once_texts(2))
qed

lemma once_call_verify:
  assumes "client_table s ''k'' = Some ptr" "\<not> on_owner_thread tid s"
  shows "call_module_json once_ffi json_crates tid ''k'' VERIFY_METHOD (JArr [JStr once_arg]) tmo s
    = (Inr (json_value (verdict_tree once_verdict)),
       s\<lparr>calls := calls s @ [(''k'', VERIFY_METHOD, JArr [JStr once_arg], tmo)], outside := outside s + 1\<rparr>)"
  by (rule once_call_json [OF assms once_texts(3,1) once_answer_verify once_texts(2) verdict_is_object])




text \<open>The request arrives at a node that serves the sample deployment.\<close>

lemma once_request_decodes: "request_decode (request_encode once_request) = Inr once_request"
proof (rule request_msg.decode_encode)
  have "length sample_tlv < 1000" by code_simp
  with length_field_bytes_le(1) [of 1 "as_bytes ''gift-0101010101010101''"]
    length_field_bytes_le(1) [of 2 "as_bytes KEYCARD_ATTEST_AUTH_TYPE"] length_field_bytes_le(1) [of 3 sample_tlv]
    length_field_bytes_le(1) [of 4 "replicate 32 1"]
  show "length (request_encode once_request) < vec_limit"
    by (simp add: request_encode_fields request_fields_def once_request_def KEYCARD_ATTEST_AUTH_TYPE_def vec_limit_def
        del: field_bytes.simps)
  show "request_wf once_request" by (simp add: once_request_def request_wf_def valid_str_ascii)
qed

definition once_state :: "nat gstate" where
  "once_state = (boot Map.empty 0)\<lparr>clients := Some [''k'' \<mapsto> 1, RLN_MODULE \<mapsto> 2], server := Some once_cfg\<rparr>"

lemma once_registry_texts:
  "cstring_ok (json_text (register_args json_crates once_cfg (replicate 32 1) 100))"
  "cstring_ok (json_text (get_membership_args once_cfg (sample_hex_enc (replicate 32 1))))"
proof -
  have hex: "printable (sample_hex_enc b)" for b using printable_hex sample_hex_laws_enc(2) .
  show "cstring_ok (json_text (register_args json_crates once_cfg (replicate 32 1) 100))"
    unfolding cstring_ok_def
    by (rule printable_no_nul)
       (simp add: register_args_def once_cfg_def hex json_text.simps del: sample_hex_enc.simps)
  show "cstring_ok (json_text (get_membership_args once_cfg (sample_hex_enc (replicate 32 1))))"
    unfolding cstring_ok_def
    by (rule printable_no_nul)
       (simp add: get_membership_args_def once_cfg_def hex json_text.simps del: sample_hex_enc.simps)
qed

lemma once_registry_calls:
  assumes "client_table s RLN_MODULE = Some ptr" "\<not> on_owner_thread tid s"
  shows "call_module_json once_ffi json_crates tid RLN_MODULE ''register_member''
      (register_args json_crates once_cfg (replicate 32 1) 100) tmo s
    = (Inr (JObj []), s\<lparr>calls := calls s @ [(RLN_MODULE, ''register_member'',
        register_args json_crates once_cfg (replicate 32 1) 100, tmo)], outside := outside s + 1\<rparr>)"
    and "ask_membership once_ffi json_crates tid once_cfg (sample_hex_enc (replicate 32 1)) s
    = (Inr (JObj [(''leaf_index'', JNum (PosInt 7)), (''registered'', JBool True)]),
       s\<lparr>calls := calls s @ [(RLN_MODULE, ''get_membership'',
        get_membership_args once_cfg (sample_hex_enc (replicate 32 1)), GET_MEMBERSHIP_TIMEOUT_MS)],
        outside := outside s + 1\<rparr>)"
proof -
  let ?m = "JObj [(''leaf_index'', JNum (PosInt 7)), (''registered'', JBool True)]"
  have same: "json_value (JObj []) = JObj []" "json_value ?m = ?m"
    by (simp_all add: json_value.simps(6))
  have valid: "valid_str (json_text (JObj []))" "valid_str (json_text ?m)"
    by (rule valid_str_ascii, rule printable_ascii, simp add: json_text.simps)+
  have names: "cstring_ok ''register_member''" "cstring_ok ''get_membership''" by (simp_all add: cstring_ok_def)
  show "call_module_json once_ffi json_crates tid RLN_MODULE ''register_member''
      (register_args json_crates once_cfg (replicate 32 1) 100) tmo s
    = (Inr (JObj []), s\<lparr>calls := calls s @ [(RLN_MODULE, ''register_member'',
        register_args json_crates once_cfg (replicate 32 1) 100, tmo)], outside := outside s + 1\<rparr>)"
    using once_call_json [OF assms names(1) once_registry_texts(1) _ valid(1)]
    by (simp add: same once_answer_def VERIFY_METHOD_def)
  show "ask_membership once_ffi json_crates tid once_cfg (sample_hex_enc (replicate 32 1)) s
    = (Inr ?m, s\<lparr>calls := calls s @ [(RLN_MODULE, ''get_membership'',
        get_membership_args once_cfg (sample_hex_enc (replicate 32 1)), GET_MEMBERSHIP_TIMEOUT_MS)],
        outside := outside s + 1\<rparr>)"
    using once_call_json [OF assms names(2) once_registry_texts(2) _ valid(2)]
    by (simp add: same once_answer_def VERIFY_METHOD_def)
qed

lemma once_fields:
  "identity_commitment once_request = replicate 32 1" "request_id once_request = ''gift-0101010101010101''"
  "effective_rate once_cfg once_request = 100"
  "map_of (auth_verifiers once_cfg) (auth_type_of once_request) = Some (''k'', vr_config (kc_request 32))"
  by (simp_all add: once_auth_type effective_rate_def once_cfg_def) (simp_all add: once_request_def DEFAULT_MAX_RATE_def)

lemma once_earns: "earned sample_crypto json_crates once_cfg once_request"
  using once_earned once_auth_type by (auto simp: earned_def once_cfg_def)

theorem earned_request_granted_witness:
  "\<exists>s'. handle_request once_ffi json_crates 5 (request_encode once_request) once_state
    = Some (answer ''gift-0101010101010101'' (Inr (granted once_cfg 7 [])), append_nullifier once_ffi ''p'' once_credential s')"
proof -
  let ?call = "\<lambda>m meth args tmo s :: nat gstate. s\<lparr>calls := calls s @ [(m, meth, args, tmo)], outside := outside s + 1\<rparr>"
  let ?idc = "replicate 32 1 :: bytes"
  let ?s1 = "?call ''k'' VERIFY_METHOD (JArr [JStr once_arg]) AUTH_VERIFY_TIMEOUT_MS once_state"
  let ?s1' = "?s1\<lparr>consumed_nullifiers := Some (insert once_credential (consumed once_state))\<rparr>"
  let ?s2 = "?call RLN_MODULE ''register_member'' (register_args json_crates once_cfg ?idc 100) REGISTER_TIMEOUT_MS ?s1'"
  let ?s3 = "?call RLN_MODULE ''get_membership'' (get_membership_args once_cfg (sample_hex_enc ?idc))
    GET_MEMBERSHIP_TIMEOUT_MS ?s2"
  let ?m = "JObj [(''leaf_index'', JNum (PosInt 7)), (''registered'', JBool True)]"
  have tables: "client_table once_state ''k'' = Some 1" "\<not> on_owner_thread 5 once_state"
    "client_table ?s1' RLN_MODULE = Some 2" "\<not> on_owner_thread 5 ?s1'"
    "client_table ?s2 RLN_MODULE = Some 2" "\<not> on_owner_thread 5 ?s2"
    by (simp_all add: once_state_def client_table_def on_owner_thread_def RLN_MODULE_def)
  have "handle_request once_ffi json_crates 5 (request_encode once_request) once_state
    = Some (answer (request_id once_request) (Inr (granted once_cfg 7 (tx_hash_of json_crates (JObj [])))),
        append_nullifier once_ffi ''p'' (own_credential sample_crypto json_crates once_request) ?s3)"
  proof (rule earned_request_granted [OF once_platform _ once_request_decodes _ once_earns _ once_fields(4)])
    show "server once_state = Some once_cfg" by (simp add: once_state_def)
    show "length (identity_commitment once_request) = 32" by (simp add: once_fields)
    show "own_credential sample_crypto json_crates once_request \<notin> consumed once_state" by (simp add: once_state_def)
    show "js_ser json_crates (verify_request_tree (verify_request_for json_crates once_request
        (effective_rate once_cfg once_request) (vr_config (kc_request 32)))) = Inr once_arg"
      by (simp add: once_fields once_seen)
    show "\<exists>u. js_ser json_crates (verdict_tree v) = Inr u" for v by simp
    show "call_module_json once_ffi json_crates 5 ''k'' VERIFY_METHOD (JArr [JStr once_arg]) AUTH_VERIFY_TIMEOUT_MS once_state
        = (Inr (json_value (verdict_tree once_verdict)), ?s1)"
      by (rule once_call_verify [OF tables(1,2)])
    show "call_module_json once_ffi json_crates 5 RLN_MODULE ''register_member''
        (register_args json_crates once_cfg (identity_commitment once_request) (effective_rate once_cfg once_request))
        REGISTER_TIMEOUT_MS (?s1\<lparr>consumed_nullifiers := Some (insert
          (own_credential sample_crypto json_crates once_request) (consumed once_state))\<rparr>) = (Inr (JObj []), ?s2)"
      unfolding once_fields once_own(2) by (rule once_registry_calls(1) [OF tables(3,4)])
    show "instant_now once_ffi (outside ?s2) = (outside ?s2, outside ?s2)" by (simp add: once_ffi_def sample_ffi_def)
    show "ask_membership once_ffi json_crates 5 once_cfg (hex_enc json_crates (identity_commitment once_request))
        (?s2\<lparr>outside := outside ?s2\<rparr>) = (Inr ?m, ?s3)"
      using once_registry_calls(2) [OF tables(5,6)] by (simp add: once_fields del: sample_hex_enc.simps)
    show "confirmed_leaf ?m = Some 7" by (simp add: confirmed_leaf_def get_bool_def get_u64_def)
  qed
  then show ?thesis by (auto simp: once_fields once_own(2) tx_hash_of_def get_str_def)
qed

end
