(* ===== verification/Conformance.thy ===== *)
theory Conformance
  imports Sample_Gift
begin

text \<open>
  The repository's own unit tests, run on the model: a test is the conjunction of its assertions, as a
  function of the libraries and the outside it uses, and a lemma says that it passes. A document that
  a test writes as a JSON literal is given as its tree and printed; \<open>unwrap\<close> and \<open>unwrap_err\<close> on the
  wrong case fail the test.
\<close>

section \<open>Assertions\<close>

text \<open>\<open>str::contains\<close>.\<close>

fun contains :: "string \<Rightarrow> string \<Rightarrow> bool" where
  "contains [] pat = (pat = [])"
| "contains (c # s) pat = (take (length pat) (c # s) = pat \<or> contains s pat)"

lemma contains_prefix [simp]: "contains (pat @ s) pat"
  by (cases "pat @ s") (simp_all del: append_eq_Cons_conv, metis append_eq_conv_conj)

lemma contains_suffix [simp]: "contains s pat \<Longrightarrow> contains (t @ s) pat"
  by (induction t) simp_all

definition unwrap :: "'e + 'a \<Rightarrow> ('a \<Rightarrow> bool) \<Rightarrow> bool" where
  "unwrap r P \<longleftrightarrow> (case r of Inr x \<Rightarrow> P x | Inl _ \<Rightarrow> False)"

definition unwrap_err :: "'e + 'a \<Rightarrow> ('e \<Rightarrow> bool) \<Rightarrow> bool" where
  "unwrap_err r P \<longleftrightarrow> (case r of Inl e \<Rightarrow> P e | Inr _ \<Rightarrow> False)"

lemma unwrap_simps [simp]:
  "unwrap (Inr x) P = P x" "unwrap (Inl e) P = False"
  "unwrap_err (Inl e) Q = Q e" "unwrap_err (Inr x) Q = False"
  by (simp_all add: unwrap_def unwrap_err_def)

text \<open>Printing and serialising documents without floating-point numbers, read back (\<open>serde_json\<close>).\<close>

definition json_print_laws :: "crates \<Rightarrow> bool" where
  "json_print_laws C \<longleftrightarrow>
     (\<forall>t. float_free t \<longrightarrow> js_parse C (js_print C t) = Inr t \<and> js_ser C t = Inr (js_print C t))"

lemma from_str_print:
  "json_print_laws C \<Longrightarrow> float_free t \<Longrightarrow> from_str C (js_print C t) = Inr (json_value t)"
  by (simp add: json_print_laws_def from_str_def)

text \<open>
  The \<open>hex\<close> crate is the hexadecimal notation, two digits per byte, letters in either case when read
  and small when written.
\<close>

definition hex_exact :: "crates \<Rightarrow> bool" where
  "hex_exact C \<longleftrightarrow> hex_enc C = sample_hex_enc \<and> (\<forall>s b. hex_dec C s = Inr b \<longleftrightarrow> sample_hex_dec s = Inr b)"

lemma hex_exact_laws: "hex_exact C \<Longrightarrow> hex_laws C"
  using sample_hex_laws_enc sample_hex_laws_dec sample_hex_roundtrip by (simp add: hex_exact_def hex_laws_def)

lemma hex_exact_dec:
  assumes "hex_exact C"
  shows "sample_hex_dec s = Inr b \<Longrightarrow> hex_dec C s = Inr b"
    and "sample_hex_dec s = Inl e \<Longrightarrow> \<exists>e'. hex_dec C s = Inl e'"
  using assms by (simp add: hex_exact_def) (metis assms hex_exact_def old.sum.exhaust sum.distinct(1))

lemma hex_dec_zz: "hex_exact C \<Longrightarrow> \<exists>e. hex_dec C ''zz'' = Inl e"
proof -
  have "sample_hex_dec ''zz'' = Inl ''Invalid character''" by code_simp
  then show "hex_exact C \<Longrightarrow> \<exists>e. hex_dec C ''zz'' = Inl e" by (rule hex_exact_dec(2) [rotated])
qed

section \<open>wire.rs\<close>

definition test_request_roundtrip :: bool where
  "test_request_roundtrip \<longleftrightarrow>
     (let req = \<lparr>request_id = ''abc123'', authentication_type = as_bytes ''any-vector-string'',
                 authentication_payload = [1, 2, 3, 4], identity_commitment = replicate 32 9,
                 rate_limit = Some 100\<rparr>
      in unwrap (request_decode (request_encode req)) (\<lambda>dec.
           request_id dec = ''abc123'' \<and> authentication_type dec = as_bytes ''any-vector-string''
           \<and> authentication_payload dec = [1, 2, 3, 4] \<and> identity_commitment dec = replicate 32 9
           \<and> rate_limit dec = Some 100))"

definition test_response_success_roundtrip :: bool where
  "test_response_success_roundtrip \<longleftrightarrow>
     (let resp = \<lparr>resp_request_id = ''r1'', auth_success = True, resp_error = None,
                  success = Some \<lparr>leaf_index = 56, merkle_root = replicate 32 7, block_number = 1234,
                    transaction_hash = [0xab, 0xcd], config_account_id = Some ''cfgAccount''\<rparr>,
                  failure = None\<rparr>
      in unwrap (response_decode (response_encode resp)) (\<lambda>dec.
           auth_success dec \<and>
           (case success dec of
              None \<Rightarrow> False
            | Some s \<Rightarrow> leaf_index s = 56 \<and> block_number s = 1234 \<and> transaction_hash s = [0xab, 0xcd]
                \<and> config_account_id s = Some ''cfgAccount'')))"

definition test_known_request_wire_bytes :: bool where
  "test_known_request_wire_bytes \<longleftrightarrow>
     request_encode \<lparr>request_id = ''x'', authentication_type = [], authentication_payload = [],
       identity_commitment = [0xff], rate_limit = Some 1\<rparr>
     = [0x0A, 0x01] @ as_bytes ''x'' @ [0x12, 0x00, 0x1A, 0x00, 0x22, 0x01, 0xff, 0x28, 0x01]"

lemma wire_tests_pass:
  "test_request_roundtrip" "test_response_success_roundtrip" "test_known_request_wire_bytes"
proof -
  show "test_known_request_wire_bytes"
    unfolding test_known_request_wire_bytes_def by code_simp
  let ?req = "\<lparr>request_id = ''abc123'', authentication_type = as_bytes ''any-vector-string'',
    authentication_payload = [1, 2, 3, 4], identity_commitment = replicate 32 9, rate_limit = Some 100\<rparr>"
  have "length (request_encode ?req) < vec_limit"
    using length_field_bytes_le(1) [of 1 "as_bytes ''abc123''"]
      length_field_bytes_le(1) [of 2 "as_bytes ''any-vector-string''"]
      length_field_bytes_le(1) [of 3 "[1, 2, 3, 4]"] length_field_bytes_le(1) [of 4 "replicate 32 9"]
      length_field_bytes_le(2) [of 5 100]
    by (simp add: request_encode_fields request_fields_def vec_limit_def del: field_bytes.simps)
  then have "request_decode (request_encode ?req) = Inr ?req"
    by (intro request_msg.decode_encode) (simp_all add: request_wf_def valid_str_ascii)
  then show "test_request_roundtrip" by (simp add: test_request_roundtrip_def)
  let ?g = "\<lparr>leaf_index = 56, merkle_root = replicate 32 7, block_number = 1234,
    transaction_hash = [0xab, 0xcd], config_account_id = Some ''cfgAccount''\<rparr>"
  let ?resp = "\<lparr>resp_request_id = ''r1'', auth_success = True, resp_error = None, success = Some ?g, failure = None\<rparr>"
  have g: "length (success_encode ?g) < 400"
    using length_field_bytes_le(2) [of 1 56] length_field_bytes_le(1) [of 2 "replicate 32 7"]
      length_field_bytes_le(2) [of 3 1234] length_field_bytes_le(1) [of 4 "[0xab, 0xcd]"]
      length_field_bytes_le(1) [of 100 "as_bytes ''cfgAccount''"]
    by (simp add: success_encode_fields success_fields_def del: field_bytes.simps)
  have "length (response_encode ?resp) < vec_limit"
    using g length_field_bytes_le(1) [of 1 "as_bytes ''r1''"] length_field_bytes_le(2) [of 2 1]
      length_field_bytes_le(1) [of 4 "success_encode ?g"]
    by (simp add: response_encode_fields response_fields_def vec_limit_def del: field_bytes.simps)
  then have "response_decode (response_encode ?resp) = Inr ?resp"
    by (intro response_msg.decode_encode) (simp_all add: response_wf_def success_wf_def valid_str_ascii)
  then show "test_response_success_roundtrip" by (simp add: test_response_success_roundtrip_def)
qed

section \<open>auth.rs\<close>

definition tmp_file :: "string \<Rightarrow> 'w gstate \<Rightarrow> 'w gstate" where
  "tmp_file path s = s\<lparr>files := (files s)(path := None)\<rparr>"

definition test_append_then_load_round_trips :: "'w ffi \<Rightarrow> crates \<Rightarrow> string \<Rightarrow> 'w gstate \<Rightarrow> bool" where
  "test_append_then_load_round_trips F C path s \<longleftrightarrow>
     (let s1 = append_nullifier F path ''keycard-attestation:aa11'' (tmp_file path s);
          s2 = append_nullifier F path ''eth-allowlist:0xdead'' s1;
          set = load_nullifiers F C path s2
      in ''keycard-attestation:aa11'' \<in> set \<and> ''eth-allowlist:0xdead'' \<in> set \<and> card set = 2)"

definition test_load_normalizes_case_and_whitespace :: "'w ffi \<Rightarrow> crates \<Rightarrow> string \<Rightarrow> 'w gstate \<Rightarrow> bool" where
  "test_load_normalizes_case_and_whitespace F C path s \<longleftrightarrow>
     (let s1 = tmp_file path s;
          s2 = s1\<lparr>files := (files s1)(path \<mapsto> as_bytes (''  KEYCARD-ATTESTATION:AA11 '' @ [LF, LF]))\<rparr>;
          set = load_nullifiers F C path s2
      in ''keycard-attestation:aa11'' \<in> set \<and> card set = 1)"

definition test_empty_path_is_a_no_op_store :: "'w ffi \<Rightarrow> crates \<Rightarrow> 'w gstate \<Rightarrow> bool" where
  "test_empty_path_is_a_no_op_store F C s \<longleftrightarrow>
     load_nullifiers F C '''' (append_nullifier F '''' ''x'' s) = {}"

lemma store_tests_pass:
  assumes "path \<noteq> []" "steady_disk F path"
  shows "test_append_then_load_round_trips F C path s"
    and "test_load_normalizes_case_and_whitespace F C path s"
    and "test_empty_path_is_a_no_op_store F C s"
proof -
  show "test_empty_path_is_a_no_op_store F C s"
    by (simp add: test_empty_path_is_a_no_op_store_def load_nullifiers_def)
  let ?a = "''keycard-attestation:aa11''" and ?b = "''eth-allowlist:0xdead''"
  have ready: "store_ready F path (tmp_file path s)"
    using assms by (simp add: store_ready_def store_ok_def writable_def steady_disk_def tmp_file_def)
  have plain: "plain ?a" "plain ?b" by (simp_all add: ascii_lower_def)
  then have st: "storable C ?a" "storable C ?b" by (simp_all add: plain_storable del: plain_simps)
  have norm: "lowercase C (trim ?a) = ?a" "lowercase C (trim ?b) = ?b"
    using plain by (simp_all add: plain_trim plain_lowercase del: plain_simps)
  have empty: "load_nullifiers F C path (tmp_file path s) = {}"
    by (simp add: load_nullifiers_def read_to_string_def tmp_file_def)
  note r1 = nullifier_store.ready_append [OF ready st(1)]
  have "load_nullifiers F C path (append_nullifier F path ?b (append_nullifier F path ?a (tmp_file path s)))
      = {?a, ?b}"
    unfolding nullifier_store.load_append [OF r1 st(2)] nullifier_store.load_append [OF ready st(1)] norm empty
    by auto
  then show "test_append_then_load_round_trips F C path s"
    by (simp add: test_append_then_load_round_trips_def)
  let ?line = "''  KEYCARD-ATTESTATION:AA11 ''"
  have lo: "lowercase C (trim ?line) = ?a"
  proof -
    have t: "trim ?line = ''KEYCARD-ATTESTATION:AA11''"
      by (subst trim_ascii) (simp_all add: trim_by_def is_whitespace_def)
    show ?thesis unfolding t by (simp add: lowercase_def to_lowercase_def) code_simp
  qed
  have "lines ((?line @ [LF]) @ [LF]) = [?line, '''']"
    using lines_append [of "?line @ [LF]" "[LF]"] lines_line [of ?line] lines_line [of "''''"]
    by (simp add: strip_cr_def)
  moreover have "lowercase C (trim '''') = ''''"
    by (simp add: trim_ascii trim_by_def lowercase_def to_lowercase_def)
  ultimately have l: "nullifier_lines C (?line @ [LF, LF]) = [?a]"
    using lo by (simp add: nullifier_lines_def)
  have "valid_str (?line @ [LF, LF])" by (simp add: valid_str_ascii)
  then have "utf8_valid (as_bytes (?line @ [LF, LF]))" by (simp only: valid_str_def)
  with assms l show "test_load_normalizes_case_and_whitespace F C path s"
    unfolding test_load_normalizes_case_and_whitespace_def Let_def load_nullifiers_def read_to_string_def
    by (simp add: steady_disk_def del: as_bytes_append as_bytes_simps append.simps)
qed

section \<open>server.rs\<close>

definition test_only_a_registered_membership_has_a_confirmed_leaf :: bool where
  "test_only_a_registered_membership_has_a_confirmed_leaf \<longleftrightarrow>
     confirmed_leaf (json_value (JObj [(''registered'', JBool True), (''leaf_index'', JNum (PosInt 7)),
       (''state'', JStr ''active'')])) = Some 7
     \<and> confirmed_leaf (json_value (JObj [(''registered'', JBool False)])) = None
     \<and> confirmed_leaf (json_value (JObj [(''registered'', JBool True)])) = None
     \<and> confirmed_leaf (JStr '''') = None"

text \<open>The FFI of the test build: no client can be opened and every call fails.\<close>

definition stub_ffi :: "'w ffi \<Rightarrow> 'w ffi" where
  "stub_ffi F = F\<lparr>lp_client_create := (\<lambda>_ w. (0, w)), lp_invoke := (\<lambda>_ _ _ _ w. ((-3, None, None), w)),
     lp_invoke_async := (\<lambda>_ _ _ _ w. ((-3, None), w))\<rparr>"

definition serve_doc :: "json \<Rightarrow> json" where
  "serve_doc verifiers = JObj [(''config'', JStr ''c''), (''wallet'', JStr ''w''), (''authVerifiers'', verifiers)]"

definition test_serve_fails_loudly :: "'w ffi \<Rightarrow> crates \<Rightarrow> nat \<Rightarrow> 'w gstate \<Rightarrow> bool" where
  "test_serve_fails_loudly F C tid s \<longleftrightarrow>
     unwrap_err (fst (serve (stub_ffi F) C tid
         (js_print C (serve_doc (JObj [(''t'', JObj [(''module'', JStr ''nope_module'')])]))) s))
       (\<lambda>e. contains e (''authVerifiers['' @ quoted ''t'' @ '']''))"

definition test_serve_rejects_malformed_auth_verifiers :: "'w ffi \<Rightarrow> crates \<Rightarrow> nat \<Rightarrow> 'w gstate \<Rightarrow> bool" where
  "test_serve_rejects_malformed_auth_verifiers F C tid s \<longleftrightarrow>
     unwrap_err (fst (serve (stub_ffi F) C tid (js_print C (serve_doc (JStr ''oops''))) s))
       (\<lambda>e. contains e ''must be an object'')
     \<and> unwrap_err (fst (serve (stub_ffi F) C tid (js_print C (serve_doc (JObj [(''t'', JObj [])]))) s))
       (\<lambda>e. contains e ''needs a module'')"

lemma stub_no_client: "client_table s t = None \<Longrightarrow> \<exists>e. ensure_client (stub_ffi F) tid t s = (Inl e, s)"
  unfolding ensure_client_def have_client Let_def
  by (auto simp: create_client_def stub_ffi_def Let_def)

lemma serve_doc_value:
  "json_value (serve_doc v) = JObj [(''authVerifiers'', json_value v), (''config'', JStr ''c''), (''wallet'', JStr ''w'')]"
  by (simp add: serve_doc_def json_value.simps(6) less_list_code)

lemma serve_verifiers_error:
  assumes "json_print_laws C" "float_free v"
    and "parse_verifiers F tid (Some (json_value v)) s = (Inl e, s1)"
  shows "serve F C tid (js_print C (serve_doc v)) s = (Inl e, s1)"
  using from_str_print [OF assms(1), of "serve_doc v"] assms(2,3)
  by (simp add: serve_doc_value) (simp add: serve_def call_then_def call_lift_def some_or_def serve_doc_def)

lemma server_tests_pass:
  shows "test_only_a_registered_membership_has_a_confirmed_leaf"
    and "json_print_laws C \<Longrightarrow> client_table s ''nope_module'' = None \<Longrightarrow> test_serve_fails_loudly F C tid s"
    and "json_print_laws C \<Longrightarrow> test_serve_rejects_malformed_auth_verifiers F C tid s"
proof -
  show "test_only_a_registered_membership_has_a_confirmed_leaf"
    by (simp add: test_only_a_registered_membership_has_a_confirmed_leaf_def confirmed_leaf_def
        json_value.simps(6) less_list_code get_bool_def)
  assume laws: "json_print_laws C"
  show "test_serve_fails_loudly F C tid s" if none: "client_table s ''nope_module'' = None"
  proof -
    obtain e where e: "ensure_client (stub_ffi F) tid ''nope_module'' s = (Inl e, s)"
      using stub_no_client [OF none] by blast
    have "parse_verifiers (stub_ffi F) tid (Some (json_value (JObj [(''t'', JObj [(''module'', JStr ''nope_module'')])]))) s
        = (Inl (''authVerifiers['' @ quoted ''t'' @ '']: '' @ e), s)"
      by (simp add: parse_verifiers_def json_value.simps(6) e)
    note r = serve_verifiers_error [OF laws _ this]
    show ?thesis unfolding test_serve_fails_loudly_def
      by (subst r) (simp_all add: contains_prefix [of "''authVerifiers['' @ quoted ''t'' @ '']''", simplified])
  qed
  have "parse_verifiers (stub_ffi F) tid (Some (json_value (JStr ''oops''))) s
      = (Inl ''authVerifiers must be an object of {type: {module, config?}}'', s)"
    "parse_verifiers (stub_ffi F) tid (Some (json_value (JObj [(''t'', JObj [])]))) s
      = (Inl (''authVerifiers['' @ quoted ''t'' @ ''] needs a module''), s)"
    by (simp_all add: parse_verifiers_def json_value.simps(6) get_str_def)
  note r = serve_verifiers_error [OF laws _ this(1)] serve_verifiers_error [OF laws _ this(2)]
  show "test_serve_rejects_malformed_auth_verifiers F C tid s"
    unfolding test_serve_rejects_malformed_auth_verifiers_def
    by (subst r, simp, subst r, simp) (simp add: quoted_def)
qed

section \<open>client.rs\<close>

definition test_err :: "(string, 'a) outcome \<Rightarrow> (string \<Rightarrow> bool) \<Rightarrow> bool" where
  "test_err r P \<longleftrightarrow> (case r of Err e \<Rightarrow> P e | _ \<Rightarrow> False)"

definition test_ok :: "(string, 'a) outcome \<Rightarrow> ('a \<Rightarrow> bool) \<Rightarrow> bool" where
  "test_ok r P \<longleftrightarrow> (case r of Ok x \<Rightarrow> P x | _ \<Rightarrow> False)"

lemma test_err_simps [simp]: "test_err (Err e) P = P e" "test_ok (Ok x) Q = Q x"
  by (simp_all add: test_err_def test_ok_def)

definition client_req :: "'w ffi \<Rightarrow> crates \<Rightarrow> nat \<Rightarrow> 'w gstate \<Rightarrow> (string \<times> json) list \<Rightarrow> (string, json) outcome" where
  "client_req F C tid s extra =
     fst (request (stub_ffi F) C tid (js_print C (JObj (
       [(''gifterPeerId'', JStr ''12D3KooWTest''), (''gifterMultiaddr'', JStr ''/ip4/127.0.0.1/tcp/1''),
        (''identityCommitment'', JStr (concat (replicate 32 ''ab'')))] @ extra @ [(''rate'', JNum (PosInt 100))]))) s)"

definition test_payload_and_provider_are_mutually_exclusive :: "'w ffi \<Rightarrow> crates \<Rightarrow> nat \<Rightarrow> 'w gstate \<Rightarrow> bool" where
  "test_payload_and_provider_are_mutually_exclusive F C tid s \<longleftrightarrow>
     test_err (client_req F C tid s [(''authType'', JStr ''voucher-v1''), (''authPayload'', JStr ''aa''),
       (''authProvider'', JStr ''m'')]) (\<lambda>e. contains e ''mutually exclusive'')"

definition test_payload_material_needs_an_explicit_auth_type :: "'w ffi \<Rightarrow> crates \<Rightarrow> nat \<Rightarrow> 'w gstate \<Rightarrow> bool" where
  "test_payload_material_needs_an_explicit_auth_type F C tid s \<longleftrightarrow>
     list_all (\<lambda>extra. test_err (client_req F C tid s extra) (\<lambda>e. contains e ''need an explicit authType''))
       [[(''authPayload'', JStr ''aa'')], [(''authProvider'', JStr ''m'')]]"

definition test_named_vector_needs_a_payload_source :: "'w ffi \<Rightarrow> crates \<Rightarrow> nat \<Rightarrow> 'w gstate \<Rightarrow> bool" where
  "test_named_vector_needs_a_payload_source F C tid s \<longleftrightarrow>
     test_err (client_req F C tid s [(''authType'', JStr ''voucher-v1'')])
       (\<lambda>e. contains e ''needs authPayload or authProvider'')"

definition test_bad_payload_hex_is_rejected_before_any_io :: "'w ffi \<Rightarrow> crates \<Rightarrow> nat \<Rightarrow> 'w gstate \<Rightarrow> bool" where
  "test_bad_payload_hex_is_rejected_before_any_io F C tid s \<longleftrightarrow>
     test_err (client_req F C tid s [(''authType'', JStr ''voucher-v1''), (''authPayload'', JStr ''zz'')])
       (\<lambda>e. contains e ''authPayload hex'')"

definition test_commitment_is_lowercased_for_the_producer_contract :: "'w ffi \<Rightarrow> crates \<Rightarrow> nat \<Rightarrow> 'w gstate \<Rightarrow> bool" where
  "test_commitment_is_lowercased_for_the_producer_contract F C tid s \<longleftrightarrow>
     test_err (fst (request (stub_ffi F) C tid (js_print C (JObj
       [(''gifterPeerId'', JStr ''p''), (''gifterMultiaddr'', JStr ''/m''),
        (''identityCommitment'', JStr (concat (replicate 32 ''AB''))), (''authType'', JStr ''t''),
        (''authProvider'', JStr ''m'')])) s)) (\<lambda>e. \<not> contains e ''id_commitment hex'')"

text \<open>Once the commitment is read, a failing payload is the result of the request.\<close>

lemma request_payload_error:
  assumes "from_str C args = Inr a" "parse_client_args C a = Inr ca"
    and "auth_payload_of F C tid a (id_commitment_hex ca) s = (Inl e, s1)"
  shows "fst (request F C tid args s) = Err e"
  using assms by (simp add: request_def act_then_def act_lift_def act_call_def)

lemma test_commitment_hex:
  "trim_0x (concat (replicate 32 ''ab'')) = concat (replicate 32 ''ab'')"
  "lowercase C (concat (replicate 32 ''ab'')) = concat (replicate 32 ''ab'')"
  "trim_0x (concat (replicate 32 ''AB'')) = concat (replicate 32 ''AB'')"
  "lowercase C (concat (replicate 32 ''AB'')) = concat (replicate 32 ''ab'')"
proof -
  show "lowercase C (concat (replicate 32 ''ab'')) = concat (replicate 32 ''ab'')"
    by (simp add: lowercase_def to_lowercase_def) code_simp
  show "lowercase C (concat (replicate 32 ''AB'')) = concat (replicate 32 ''ab'')"
    by (simp add: lowercase_def to_lowercase_def) code_simp
qed code_simp+

lemma test_commitment_decodes:
  "hex_exact C \<Longrightarrow> hex_dec C (concat (replicate 32 ''ab'')) = Inr (replicate 32 0xab)"
proof -
  have "sample_hex_dec (concat (replicate 32 ''ab'')) = Inr (replicate 32 0xab)" by code_simp
  then show "hex_exact C \<Longrightarrow> hex_dec C (concat (replicate 32 ''ab'')) = Inr (replicate 32 0xab)"
    by (rule hex_exact_dec(1) [rotated])
qed

lemma client_req_error:
  fixes F :: "'w ffi" and C extra
  defines "a \<equiv> json_value (JObj ([(''gifterPeerId'', JStr ''12D3KooWTest''),
      (''gifterMultiaddr'', JStr ''/ip4/127.0.0.1/tcp/1''),
      (''identityCommitment'', JStr (concat (replicate 32 ''ab'')))] @ extra @ [(''rate'', JNum (PosInt 100))]))"
  assumes "json_print_laws C" "hex_exact C" "list_all (\<lambda>kv. float_free (snd kv)) extra"
    and "distinct (map fst extra)"
      "set (map fst extra) \<inter> {''gifterPeerId'', ''gifterMultiaddr'', ''identityCommitment'', ''rate''} = {}"
    and "auth_payload_of (stub_ffi F) C tid a (concat (replicate 32 ''ab'')) s = (Inl e, s1)"
  shows "client_req F C tid s extra = Err e"
proof -
  let ?kvs = "[(''gifterPeerId'', JStr ''12D3KooWTest''),
      (''gifterMultiaddr'', JStr ''/ip4/127.0.0.1/tcp/1''),
      (''identityCommitment'', JStr (concat (replicate 32 ''ab'')))] @ extra @ [(''rate'', JNum (PosInt 100))]"
  have d: "distinct (map fst ?kvs)" using assms(5,6) by auto
  note b = test_commitment_decodes [OF assms(3)]
  have "get_str a ''gifterPeerId'' = Some ''12D3KooWTest''"
    "get_str a ''gifterMultiaddr'' = Some ''/ip4/127.0.0.1/tcp/1''"
    "get_str a ''identityCommitment'' = Some (concat (replicate 32 ''ab''))"
    unfolding a_def get_str_def jget_json_value [OF d] by (simp_all del: concat.simps replicate.simps)
  then obtain ca where ca: "parse_client_args C a = Inr ca" "id_commitment_hex ca = concat (replicate 32 ''ab'')"
    using b test_commitment_hex(1) test_commitment_hex(2) [of C]
    by (auto simp: parse_client_args_def some_or_def str_or_def Let_def simp del: concat.simps replicate.simps)
  have "from_str C (js_print C (JObj ?kvs)) = Inr a"
    unfolding a_def by (rule from_str_print [OF assms(2)]) (use assms(4) in simp)
  from request_payload_error [OF this ca(1)] ca(2) assms(7) show ?thesis
    unfolding client_req_def by simp
qed

lemma extra_field:
  "distinct (map fst kvs) \<Longrightarrow> str_or (json_value (JObj kvs)) k d
     = (case Option.bind (map_of kvs k) as_str of Some s \<Rightarrow> s | None \<Rightarrow> d)"
proof -
  assume d: "distinct (map fst kvs)"
  have "Option.bind (map_option json_value x) as_str = Option.bind x as_str" for x
    by (cases x) (auto split: json.split, metis as_str.simps json.exhaust json_value.simps)
  then show ?thesis by (simp add: str_or_def get_str_def jget_json_value [OF d])
qed

lemma client_tests_pass:
  assumes "json_print_laws C" "hex_exact C"
  shows "test_payload_and_provider_are_mutually_exclusive F C tid s"
    and "test_payload_material_needs_an_explicit_auth_type F C tid s"
    and "test_named_vector_needs_a_payload_source F C tid s"
    and "test_bad_payload_hex_is_rejected_before_any_io F C tid s"
proof -
  note payload = auth_payload_of_def Let_def call_lift_def
  note req = client_req_error [OF assms]
  show "test_payload_and_provider_are_mutually_exclusive F C tid s"
    unfolding test_payload_and_provider_are_mutually_exclusive_def
    by (subst req [where e = "''authPayload and authProvider are mutually exclusive''" and ?s1.0 = s])
       (simp_all add: payload extra_field del: json_value.simps)
  have "client_req F C tid s [(k, v)] = Err ''authPayload/authProvider need an explicit authType''"
    if "(k, v) \<in> {(''authPayload'', JStr ''aa''), (''authProvider'', JStr ''m'')}" for k v
    by (rule req [where ?s1.0 = s]) (use that in \<open>auto simp: payload extra_field simp del: json_value.simps\<close>)
  then show "test_payload_material_needs_an_explicit_auth_type F C tid s"
    unfolding test_payload_material_needs_an_explicit_auth_type_def by simp
  show "test_named_vector_needs_a_payload_source F C tid s"
    unfolding test_named_vector_needs_a_payload_source_def
    by (subst req [where e = "''authType '' @ quoted ''voucher-v1'' @ '' needs authPayload or authProvider''" and ?s1.0 = s])
       (simp_all add: payload extra_field quoted_def del: json_value.simps)
  obtain e where z: "hex_dec C ''zz'' = Inl e" using hex_dec_zz [OF assms(2)] by blast
  show "test_bad_payload_hex_is_rejected_before_any_io F C tid s"
    unfolding test_bad_payload_hex_is_rejected_before_any_io_def
    by (subst req [where e = "''authPayload hex: '' @ e" and ?s1.0 = s])
       (simp_all add: payload extra_field z del: json_value.simps)
qed

lemma stub_call: "client_table s m = None \<Longrightarrow>
  call_module_json (stub_ffi F) C tid m meth a t s = (Inl (''no lp client for '' @ m), s)"
proof -
  assume none: "client_table s m = None"
  have "create_client (stub_ffi F) m s = (False, s)" by (simp add: create_client_def stub_ffi_def Let_def)
  with none have "client_ptr (stub_ffi F) tid m s = (None, s)"
    by (simp add: client_ptr_def Let_def bind_client)
  then show ?thesis by (simp add: call_module_json_def call_then_def call_json_def)
qed

lemma client_lowercase_test_passes:
  assumes "json_print_laws C" "hex_exact C" "client_table s ''m'' = None"
  shows "test_commitment_is_lowercased_for_the_producer_contract F C tid s"
proof -
  let ?kvs = "[(''gifterPeerId'', JStr ''p''), (''gifterMultiaddr'', JStr ''/m''),
    (''identityCommitment'', JStr (concat (replicate 32 ''AB''))), (''authType'', JStr ''t''),
    (''authProvider'', JStr ''m'')]"
  let ?a = "json_value (JObj ?kvs)"
  have d: "distinct (map fst ?kvs)" by simp
  have g: "get_str ?a ''gifterPeerId'' = Some ''p''" "get_str ?a ''gifterMultiaddr'' = Some ''/m''"
    "get_str ?a ''identityCommitment'' = Some (concat (replicate 32 ''AB''))" "jget ?a ''authArgs'' = None"
    unfolding get_str_def jget_json_value [OF d] by (simp_all del: concat.simps replicate.simps)
  note b = test_commitment_decodes [OF assms(2)]
  obtain ca where ca: "parse_client_args C ?a = Inr ca"
    using g b test_commitment_hex(3) test_commitment_hex(4) [of C]
    by (auto simp: parse_client_args_def some_or_def str_or_def Let_def simp del: concat.simps replicate.simps json_value.simps)
  have "js_ser C (produce_request_tree \<lparr>pr_auth_type = ''t'', pr_id_commitment_hex = h, pr_args = None\<rparr>)
      = Inr (js_print C (produce_request_tree \<lparr>pr_auth_type = ''t'', pr_id_commitment_hex = h, pr_args = None\<rparr>))" for h
    using assms(1) by (simp add: json_print_laws_def produce_request_tree_def opt_field_def)
  then have "auth_payload_of (stub_ffi F) C tid ?a (id_commitment_hex ca) s = (Inl ''no lp client for m'', s)"
    using stub_call [OF assms(3), of F C tid] g(4)
    by (simp add: auth_payload_of_def Let_def extra_field call_then_def call_lift_def
        del: json_value.simps concat.simps replicate.simps)
  from request_payload_error [OF _ ca this] from_str_print [OF assms(1), of "JObj ?kvs"]
  have "fst (request (stub_ffi F) C tid (js_print C (JObj ?kvs)) s) = Err ''no lp client for m''" by simp
  then show ?thesis unfolding test_commitment_is_lowercased_for_the_producer_contract_def by simp
qed

end
