(* ===== verification/Conformance_Vectors.thy ===== *)
theory Conformance_Vectors
  imports Conformance
begin

unbundle bit_operations_syntax

text \<open>
  The unit tests of the auth-vector contract, of the two verifier modules and of the attestation
  crate, run on the model.
\<close>

section \<open>rln-auth-vector\<close>

















section \<open>keycard-auth-module\<close>







section \<open>keycard-attest\<close>

text \<open>The golden vector of the card vendor's own library.\<close>

definition GOLDEN_TLV :: string where
  "GOLDEN_TLV =
     ''a081ab8a620365c18485fe7018e11cb992011426803aa8e843c63aab9657aed7d3ee4b85a62a1118'' @
     ''8ada267db3312a84e1be27c01c736a89da7a1fe4f7e90ce297e74f00008e2bfdb06058374abfc1c0'' @
     ''26386d16ead7bbc19bc0645d2e7acf7b953169bbc1ac0130450220364c5ca937b7ca42861978f086'' @
     ''d206cc569ef0bb2ea4c7de08929c2fcca7434d022100c87699ce4f977e6a7a4800343db9b6842b91'' @
     ''ca873e56dfe3327d19a2d01af14e''"

definition GOLDEN_CHALLENGE :: string where
  "GOLDEN_CHALLENGE = ''63acd6e02a8b5783551ff2836a9cbdf237c115c3ff018b943f044e6a69b19fe7''"

definition TEST_CA :: string where
  "TEST_CA = ''02fc929321aa94fea085b166994aa66590116252cf0235a03accaa2c8ab4595de5''"

definition IDENT_PUB :: string where
  "IDENT_PUB = ''0365c18485fe7018e11cb992011426803aa8e843c63aab9657aed7d3ee4b85a62a''"

text \<open>Its parts as bytes.\<close>

definition golden_cert :: bytes where
  "golden_cert =
     [0x03, 0x65, 0xc1, 0x84, 0x85, 0xfe, 0x70, 0x18, 0xe1, 0x1c, 0xb9, 0x92, 0x01, 0x14, 0x26, 0x80,
      0x3a, 0xa8, 0xe8, 0x43, 0xc6, 0x3a, 0xab, 0x96, 0x57, 0xae, 0xd7, 0xd3, 0xee, 0x4b, 0x85, 0xa6,
      0x2a, 0x11, 0x18, 0x8a, 0xda, 0x26, 0x7d, 0xb3, 0x31, 0x2a, 0x84, 0xe1, 0xbe, 0x27, 0xc0, 0x1c,
      0x73, 0x6a, 0x89, 0xda, 0x7a, 0x1f, 0xe4, 0xf7, 0xe9, 0x0c, 0xe2, 0x97, 0xe7, 0x4f, 0x00, 0x00,
      0x8e, 0x2b, 0xfd, 0xb0, 0x60, 0x58, 0x37, 0x4a, 0xbf, 0xc1, 0xc0, 0x26, 0x38, 0x6d, 0x16, 0xea,
      0xd7, 0xbb, 0xc1, 0x9b, 0xc0, 0x64, 0x5d, 0x2e, 0x7a, 0xcf, 0x7b, 0x95, 0x31, 0x69, 0xbb, 0xc1,
      0xac, 0x01]"

definition golden_der :: bytes where
  "golden_der =
     [0x02, 0x20, 0x36, 0x4c, 0x5c, 0xa9, 0x37, 0xb7, 0xca, 0x42, 0x86, 0x19, 0x78, 0xf0, 0x86, 0xd2,
      0x06, 0xcc, 0x56, 0x9e, 0xf0, 0xbb, 0x2e, 0xa4, 0xc7, 0xde, 0x08, 0x92, 0x9c, 0x2f, 0xcc, 0xa7,
      0x43, 0x4d, 0x02, 0x21, 0x00, 0xc8, 0x76, 0x99, 0xce, 0x4f, 0x97, 0x7e, 0x6a, 0x7a, 0x48, 0x00,
      0x34, 0x3d, 0xb9, 0xb6, 0x84, 0x2b, 0x91, 0xca, 0x87, 0x3e, 0x56, 0xdf, 0xe3, 0x32, 0x7d, 0x19,
      0xa2, 0xd0, 0x1a, 0xf1, 0x4e]"

definition golden_challenge :: bytes where
  "golden_challenge =
     [0x63, 0xac, 0xd6, 0xe0, 0x2a, 0x8b, 0x57, 0x83, 0x55, 0x1f, 0xf2, 0x83, 0x6a, 0x9c, 0xbd, 0xf2,
      0x37, 0xc1, 0x15, 0xc3, 0xff, 0x01, 0x8b, 0x94, 0x3f, 0x04, 0x4e, 0x6a, 0x69, 0xb1, 0x9f, 0xe7]"

definition golden_ca :: bytes where
  "golden_ca =
     [0x02, 0xfc, 0x92, 0x93, 0x21, 0xaa, 0x94, 0xfe, 0xa0, 0x85, 0xb1, 0x66, 0x99, 0x4a, 0xa6, 0x65,
      0x90, 0x11, 0x62, 0x52, 0xcf, 0x02, 0x35, 0xa0, 0x3a, 0xcc, 0xaa, 0x2c, 0x8a, 0xb4, 0x59, 0x5d,
      0xe5]"

lemma golden_bytes:
  "sample_hex_dec GOLDEN_TLV = Inr (tlv 0xA0 (tlv 0x8A golden_cert @ tlv 0x30 golden_der))"
  "sample_hex_dec GOLDEN_CHALLENGE = Inr golden_challenge"
  "sample_hex_dec TEST_CA = Inr golden_ca"
  "sample_hex_enc (take 33 golden_cert) = IDENT_PUB"
  "length golden_cert = 98" "length golden_der = 69"
  by code_simp+

text \<open>\<open>hex::decode(s).unwrap().try_into().unwrap()\<close> into an array of \<open>n\<close> bytes.\<close>

definition arr :: "crates \<Rightarrow> nat \<Rightarrow> string \<Rightarrow> (bytes \<Rightarrow> bool) \<Rightarrow> bool" where
  "arr C n s P \<longleftrightarrow> unwrap (hex_dec C s) (\<lambda>b. length b = n \<and> P b)"

definition golden_attestation :: "('sig, 'vk) crypto \<Rightarrow> crates \<Rightarrow> ('sig attestation \<Rightarrow> bool) \<Rightarrow> bool" where
  "golden_attestation E C P \<longleftrightarrow> unwrap (hex_dec C GOLDEN_TLV) (\<lambda>b. unwrap (parse_attestation E b) P)"

definition test_parses_ident_pub :: "('sig, 'vk) crypto \<Rightarrow> crates \<Rightarrow> bool" where
  "test_parses_ident_pub E C \<longleftrightarrow> golden_attestation E C (\<lambda>att. hex_enc C (ident_pub att) = IDENT_PUB)"

definition test_golden_vector_verifies_raw_challenge :: "('sig, 'vk) crypto \<Rightarrow> crates \<Rightarrow> bool" where
  "test_golden_vector_verifies_raw_challenge E C \<longleftrightarrow>
     golden_attestation E C (\<lambda>att. arr C 33 TEST_CA (\<lambda>ca. arr C 32 GOLDEN_CHALLENGE (\<lambda>challenge.
       unwrap (verify_attestation E att [ca] challenge) (\<lambda>null. null = nullifier E (ident_pub att)))))"

definition test_untrusted_ca_rejected :: "('sig, 'vk) crypto \<Rightarrow> crates \<Rightarrow> bool" where
  "test_untrusted_ca_rejected E C \<longleftrightarrow>
     golden_attestation E C (\<lambda>att. arr C 32 GOLDEN_CHALLENGE (\<lambda>challenge.
       unwrap_err (verify_attestation E att [replicate 33 2] challenge)
         (\<lambda>err. case err of Backend _ \<Rightarrow> True | _ \<Rightarrow> False)))"

definition test_tampered_challenge_rejected :: "('sig, 'vk) crypto \<Rightarrow> crates \<Rightarrow> bool" where
  "test_tampered_challenge_rejected E C \<longleftrightarrow>
     golden_attestation E C (\<lambda>att. arr C 33 TEST_CA (\<lambda>ca. arr C 32 GOLDEN_CHALLENGE (\<lambda>challenge.
       unwrap_err (verify_attestation E att [ca] (challenge[0 := challenge ! 0 XOR 1])) (\<lambda>err. err = InvalidSignature)
       \<and> unwrap_err (verify_attestation E att [ca] (bound_challenge E (replicate 32 0x11))) (\<lambda>_. True))))"

definition test_bound_challenge_is_deterministic_and_commitment_specific :: "('sig, 'vk) crypto \<Rightarrow> bool" where
  "test_bound_challenge_is_deterministic_and_commitment_specific E \<longleftrightarrow>
     bound_challenge E (replicate 32 0xAB) = bound_challenge E (replicate 32 0xAB)
     \<and> bound_challenge E (replicate 32 0xAB) \<noteq> bound_challenge E (replicate 32 0xAC)"

text \<open>
  What the cryptographic crates compute on the golden vector: the CA signature recovers the test CA,
  and the card's signature verifies for the challenge and not for the other two digests of the tests.
\<close>

definition golden_crypto :: "('sig, 'vk) crypto \<Rightarrow> bool" where
  "golden_crypto E \<longleftrightarrow>
     (\<exists>sig recid casig ca ident. sig_from_der E (tlv 0x30 golden_der) = Inr sig
        \<and> recovery_id E (golden_cert ! 97) = Some recid
        \<and> sig_from_slice E (take 64 (drop 33 golden_cert)) = Inr casig
        \<and> recover E (sha256 E (take 33 golden_cert)) casig recid = Inr ca
        \<and> point_bytes E True ca = golden_ca
        \<and> from_sec1 E (take 33 golden_cert) = Inr ident
        \<and> (let low = (case normalize_s E sig of Some s \<Rightarrow> s | None \<Rightarrow> sig) in
             verify_prehash E ident golden_challenge low
             \<and> \<not> verify_prehash E ident (golden_challenge[0 := golden_challenge ! 0 XOR 1]) low
             \<and> \<not> verify_prehash E ident (bound_challenge E (replicate 32 0x11)) low))"

lemma golden_parsed:
  assumes "hex_exact C" "sig_from_der E (tlv 0x30 golden_der) = Inr sig"
  shows "golden_attestation E C P \<longleftrightarrow>
    P \<lparr>ident_pub = take 33 golden_cert, ca_sig = drop 33 golden_cert, challenge_sig = sig\<rparr>"
proof -
  note len = golden_bytes(5,6)
  have t: "length (tlv 0x8A golden_cert @ tlv 0x30 golden_der @ []) < 65536"
    using len by (simp add: tlv_def len_bytes_def)
  have "length (tlvs [] @ tlv 0xA0 (tlv 0x8A golden_cert @ tlv 0x30 golden_der @ []) @ []) < vec_limit"
    using len by (simp add: tlv_def len_bytes_def tlvs_def vec_limit_def)
  from attestation_roundtrip [OF len(1) _ assms(2) t _ this] len(2)
  have "parse_attestation E (tlv 0xA0 (tlv 0x8A golden_cert @ tlv 0x30 golden_der))
      = Inr \<lparr>ident_pub = take 33 golden_cert, ca_sig = drop 33 golden_cert, challenge_sig = sig\<rparr>"
    by (simp add: tlvs_def)
  with hex_exact_dec(1) [OF assms(1) golden_bytes(1)] show ?thesis by (simp add: golden_attestation_def)
qed

lemma golden_arr:
  assumes "hex_exact C"
  shows "arr C 33 TEST_CA P \<longleftrightarrow> P golden_ca" "arr C 32 GOLDEN_CHALLENGE P \<longleftrightarrow> P golden_challenge"
proof -
  have "length golden_ca = 33" "length golden_challenge = 32" by code_simp+
  with hex_exact_dec(1) [OF assms golden_bytes(2)] hex_exact_dec(1) [OF assms golden_bytes(3)]
  show "arr C 33 TEST_CA P \<longleftrightarrow> P golden_ca" "arr C 32 GOLDEN_CHALLENGE P \<longleftrightarrow> P golden_challenge"
    by (simp_all add: arr_def)
qed

lemma attestation_tests_pass:
  assumes "hex_exact C" "golden_crypto E"
  shows "test_parses_ident_pub E C" "test_golden_vector_verifies_raw_challenge E C"
    "test_untrusted_ca_rejected E C" "test_tampered_challenge_rejected E C"
    "bound_challenge E (replicate 32 0xAB) \<noteq> bound_challenge E (replicate 32 0xAC) \<Longrightarrow>
       test_bound_challenge_is_deterministic_and_commitment_specific E"
proof -
  from assms(2) obtain sig recid casig ca ident where g: "sig_from_der E (tlv 0x30 golden_der) = Inr sig"
    "recovery_id E (golden_cert ! 97) = Some recid" "sig_from_slice E (take 64 (drop 33 golden_cert)) = Inr casig"
    "recover E (sha256 E (take 33 golden_cert)) casig recid = Inr ca" "point_bytes E True ca = golden_ca"
    "from_sec1 E (take 33 golden_cert) = Inr ident"
    and v: "let low = (case normalize_s E sig of Some s \<Rightarrow> s | None \<Rightarrow> sig) in
             verify_prehash E ident golden_challenge low
             \<and> \<not> verify_prehash E ident (golden_challenge[0 := golden_challenge ! 0 XOR 1]) low
             \<and> \<not> verify_prehash E ident (bound_challenge E (replicate 32 0x11)) low"
    unfolding golden_crypto_def by blast
  note parsed = golden_parsed [OF assms(1) g(1)]
  have last: "drop 33 golden_cert ! 64 = golden_cert ! 97" using golden_bytes(5) by simp
  have untrusted: "replicate 33 2 \<noteq> golden_ca" by code_simp
  note run = parsed golden_arr [OF assms(1)] verify_attestation_def some_or_def g last Let_def
  show "test_parses_ident_pub E C"
    using assms(1) golden_bytes(4) by (simp add: test_parses_ident_pub_def parsed hex_exact_def)
  show "test_golden_vector_verifies_raw_challenge E C"
    using v by (cases "normalize_s E sig") (simp_all add: test_golden_vector_verifies_raw_challenge_def run)
  show "test_untrusted_ca_rejected E C"
    using untrusted by (simp add: test_untrusted_ca_rejected_def run)
  show "test_tampered_challenge_rejected E C"
    using v by (cases "normalize_s E sig") (simp_all add: test_tampered_challenge_rejected_def run)
qed (simp add: test_bound_challenge_is_deterministic_and_commitment_specific_def)

section \<open>eth-auth-module\<close>




















section \<open>All of them\<close>




end
