(* ===== verification/Apdu.thy ===== *)
theory Apdu
  imports Keycard_Attest
begin

text \<open>
  APDU commands and BER-TLV responses, \<open>crates/keycard-client/src/apdu.rs\<close>. The reader of this file
  adds a length read from the card to an index without a check: in a release build the sum wraps at
  64 bits, and the model keeps the wrap-around. Its loop need not end, so it is a partial function:
  \<open>None\<close> is a run that does not return.
\<close>

section \<open>Commands and responses\<close>

definition CLA_GP :: u8 where "CLA_GP = 0x80"

record command =
  cla :: u8
  ins :: u8
  p1 :: u8
  p2 :: u8
  cmd_data :: bytes
  le :: "u8 option"

record response =
  resp_data :: bytes
  sw :: u16

definition new_command :: "u8 \<Rightarrow> u8 \<Rightarrow> u8 \<Rightarrow> u8 \<Rightarrow> bytes \<Rightarrow> command" where
  "new_command c i a b d = \<lparr>cla = c, ins = i, p1 = a, p2 = b, cmd_data = d, le = None\<rparr>"

text \<open>\<open>len() as u8\<close> keeps the low eight bits.\<close>

definition serialize :: "command \<Rightarrow> bytes" where
  "serialize c =
     [cla c, ins c, p1 c, p2 c]
     @ (if cmd_data c \<noteq> [] then of_nat (length (cmd_data c)) # cmd_data c else [])
     @ (case le c of Some b \<Rightarrow> [b] | None \<Rightarrow> [])"

definition parse_response :: "bytes \<Rightarrow> response" where
  "parse_response raw =
     (let n = length raw in
      if n < 2 then \<lparr>resp_data = [], sw = 0\<rparr>
      else \<lparr>resp_data = take (n - 2) raw,
            sw = push_bit 8 (ucast (raw ! (n - 2))) OR ucast (raw ! (n - 1))\<rparr>)"

section \<open>The TLV reader\<close>

definition wrapping_add :: "nat \<Rightarrow> nat \<Rightarrow> nat" where
  "wrapping_add a b = (a + b) mod usize_limit"

text \<open>The bytes of a long length, most significant first: \<open>len = (len << 8) | byte\<close> in 64 bits.\<close>

fun apdu_len_loop :: "bytes \<Rightarrow> nat \<Rightarrow> nat \<Rightarrow> nat \<Rightarrow> (nat \<times> nat) option" where
  "apdu_len_loop data 0 i len = Some (len, i)"
| "apdu_len_loop data (Suc n) i len =
     (if length data \<le> i then None
      else apdu_len_loop data n (i + 1) (len * 256 mod usize_limit + unat (data ! i)))"

definition apdu_read_len :: "bytes \<Rightarrow> nat \<Rightarrow> (nat \<times> nat) option" where
  "apdu_read_len data i =
     (let b = data ! i in
      if b < 0x80 then Some (unat b, i + 1)
      else apdu_len_loop data (unat (b AND 0x7F)) (i + 1) 0)"

partial_function (option) apdu_find_tag_from ::
  "bytes \<Rightarrow> u8 \<Rightarrow> nat \<Rightarrow> (string, bytes option) outcome option" where
  "apdu_find_tag_from data tag i =
     (if i < length data then
        (let t = data ! i in
         if length data \<le> i + 1 then Some (Ok None)
         else
           (case apdu_read_len data (i + 1) of
              None \<Rightarrow> Some (Ok None)
            | Some (len, j) \<Rightarrow>
                if length data < wrapping_add j len then Some (Ok None)
                else if t = tag then
                  Some (and_then (subslice data j (wrapping_add j len)) (\<lambda>v. Ok (Some v)))
                else apdu_find_tag_from data tag (wrapping_add j len)))
      else Some (Ok None))"

definition apdu_find_tag :: "bytes \<Rightarrow> u8 \<Rightarrow> (string, bytes option) outcome option" where
  "apdu_find_tag data tag = apdu_find_tag_from data tag 0"

section \<open>Correctness\<close>

lemma parse_response_append [simp]:
  "parse_response (d @ [hi, lo]) = \<lparr>resp_data = d, sw = push_bit 8 (ucast hi) OR ucast lo\<rparr>"
  by (simp add: parse_response_def Let_def nth_append)

lemma apdu_read_len_tlv:
  assumes "drop i data = len_bytes n @ rest" and "n < 65536"
  shows "apdu_read_len data i = Some (n, i + length (len_bytes n))"
proof -
  note g = get_at_plus [OF assms(1)]
  have at: "data ! (i + k) = len_bytes n ! k" "i + k < length data" if "k < length (len_bytes n)" for k
    using get_at_SomeD [OF g [OF that]] by auto
  consider (short) "n < 128" | (mid) "128 \<le> n" "n < 256" | (long) "256 \<le> n" by linarith
  then show ?thesis
  proof cases
    case short
    then have "data ! i = of_nat n" using at(1) [of 0] by (simp add: len_bytes_def)
    with short show ?thesis by (simp add: apdu_read_len_def byte_less unat_byte len_bytes_def)
  next
    case mid
    then have "data ! i = 0x81" "data ! (i + 1) = of_nat n" "i + 1 < length data"
      using at [of 0] at [of 1] by (simp_all add: len_bytes_def)
    moreover have "unat (0x81 AND 0x7F :: u8) = Suc 0" by simp
    ultimately show ?thesis
      using mid by (simp add: apdu_read_len_def Let_def unat_byte len_bytes_def del: and_numerals)
  next
    case long
    then have "data ! i = 0x82" "data ! (i + 1) = of_nat (n div 256)" "i + 1 < length data"
      "data ! (i + 2) = of_nat (n mod 256)" "i + 2 < length data"
      using at [of 0] at [of 1] at [of 2] by (simp_all add: len_bytes_def)
    moreover have "n div 256 < 256" using assms(2) by (simp add: less_mult_imp_div_less)
    moreover have "n div 256 * 256 mod usize_limit = n div 256 * 256"
      using assms(2) by (intro mod_less) (simp add: usize_limit_def)
    moreover have "unat (0x82 AND 0x7F :: u8) = Suc (Suc 0)" by simp
    ultimately show ?thesis using long
      by (simp add: apdu_read_len_def Let_def unat_byte len_bytes_def del: and_numerals)
  qed
qed


lemma apdu_find_tag_from_tlv:
  assumes "drop i data = tlv t v @ rest" and "length v < 65536" and "length data < vec_limit"
  shows "apdu_find_tag_from data tag i
    = (if t = tag then Some (Ok (Some v)) else apdu_find_tag_from data tag (i + length (tlv t v)))"
proof -
  let ?h = "length (len_bytes (length v))"
  let ?j = "i + 1 + ?h"
  have d: "drop (i + 1) data = len_bytes (length v) @ v @ rest"
    using assms(1) drop_Suc_Cons_eq [of i data t] by (simp add: tlv_def)
  note rl = apdu_read_len_tlv [OF d assms(2)]
  have le: "i + length (tlv t v) \<le> length data"
    using drop_length_le [OF assms(1)] by (simp add: tlv_def)
  have h: "1 \<le> ?h" by (simp add: len_bytes_def)
  have e: "?j + length v = i + length (tlv t v)" by (simp add: tlv_def)
  have wrap: "wrapping_add ?j (length v) = ?j + length v"
    using le e assms(3) by (simp add: wrapping_add_def vec_limit_def usize_limit_def)
  have t: "data ! i = t" using get_at_drop [of i data t] assms(1) by (auto simp: tlv_def dest: get_at_SomeD)
  have "(subslice data ?j (?j + length v) :: (string, bytes) outcome) = Ok v"
    using subslice_drop [of ?j data v rest] drop_append_eq [OF d] le e by simp
  with rl wrap t le e h show ?thesis
    by (subst apdu_find_tag_from.simps) (simp add: Let_def tlv_def add.assoc)
qed

lemma apdu_find_tag_from_items:
  assumes "drop i data = tlvs items @ tlv tag v @ rest" and "\<forall>(t, u) \<in> set items. t \<noteq> tag \<and> length u < 65536"
    and "length v < 65536" and "length data < vec_limit"
  shows "apdu_find_tag_from data tag i = Some (Ok (Some v))"
  using assms(1,2)
proof (induction items arbitrary: i)
  case Nil
  then show ?case using apdu_find_tag_from_tlv [of i data tag v rest] assms(3,4) by (simp add: tlvs_def)
next
  case (Cons x items)
  obtain t u where x: "x = (t, u)" by fastforce
  have d: "drop i data = tlv t u @ tlvs items @ tlv tag v @ rest" using Cons.prems(1) x by (simp add: tlvs_def)
  have "apdu_find_tag_from data tag i = apdu_find_tag_from data tag (i + length (tlv t u))"
    using apdu_find_tag_from_tlv [OF d] Cons.prems(2) x assms(4) by auto
  also have "\<dots> = Some (Ok (Some v))"
    using Cons.IH [OF drop_append_eq [OF d]] Cons.prems(2) by simp
  finally show ?case .
qed

lemma apdu_find_tag_items:
  assumes "\<forall>(t, u) \<in> set items. t \<noteq> tag \<and> length u < 65536" and "length v < 65536"
    and "length (tlvs items @ tlv tag v @ rest) < vec_limit"
  shows "apdu_find_tag (tlvs items @ tlv tag v @ rest) tag = Some (Ok (Some v))"
  unfolding apdu_find_tag_def using assms by (intro apdu_find_tag_from_items) simp_all

text \<open>
  C33. The client's reader on well-formed data: it returns, with the value of the first element that
  carries the tag, whatever elements come before and whatever bytes come after.
\<close>

theorem apdu_find_tag_first:
  assumes "\<forall>(t, u) \<in> set items. t \<noteq> tag \<and> length u < 65536" and "length v < 65536"
    and "length (tlvs items @ tlv tag v @ rest) < vec_limit"
  shows "apdu_find_tag (tlvs items @ tlv tag v @ rest) tag = Some (Ok (Some v))"
  by (rule apdu_find_tag_items [OF assms])

theorem apdu_find_tag_first_witness:
  "apdu_find_tag (tlvs [(0x8F, [1, 2])] @ tlv 0x80 [4, 5, 6] @ [7]) 0x80 = Some (Ok (Some [4, 5, 6]))"
  by (rule apdu_find_tag_first) (simp_all add: tlvs_def tlv_def len_bytes_def vec_limit_def)

section \<open>What a hostile card can do\<close>

text \<open>An element of tag 1 whose length sends the index back to the element itself.\<close>

definition looping_data :: bytes where
  "looping_data = [0x01, 0x88, 0xFF, 0xFF, 0xFF, 0xFF, 0xFF, 0xFF, 0xFF, 0xF6]"

lemma looping_len: "apdu_read_len looping_data 1 = Some (2 ^ 64 - 10, 10)"
proof -
  have "unat (0x88 AND 0x7F :: u8) = Suc (Suc (Suc (Suc (Suc (Suc (Suc (Suc 0)))))))" by simp
  then show ?thesis
    by (simp add: apdu_read_len_def looping_data_def Let_def usize_limit_def del: and_numerals)
qed

lemma looping_length [simp]: "length looping_data = 10" "looping_data ! 0 = 1"
  by (simp_all add: looping_data_def)

text \<open>
  C37. The unchecked addition in the client's reader: on ten bytes a card may send, the search for
  any tag but the first never returns, and the search for that tag panics.
\<close>

theorem apdu_find_tag_hangs:
  "apdu_find_tag looping_data tag = (if tag = 1 then Some Panic else None)"
proof (cases "tag = 1")
  case True
  then show ?thesis
    using looping_len
    by (simp add: apdu_find_tag_def apdu_find_tag_from.simps wrapping_add_def usize_limit_def subslice_def)
next
  case False
  have "i \<noteq> 0" if "apdu_find_tag_from d t i = Some r" "d = looping_data" "t \<noteq> 1" for d t i r
    using that(2,3)
  proof (induction rule: apdu_find_tag_from.raw_induct [OF _ that(1)])
    case 1
    then show ?case using looping_len by (intro notI) (auto simp: wrapping_add_def usize_limit_def)
  qed
  with False show ?thesis by (cases "apdu_find_tag_from looping_data tag 0") (auto simp: apdu_find_tag_def)
qed

end
