(* ===== verification/Kc_Crypto.thy ===== *)
theory Kc_Crypto
  imports Rust_Std
begin

text \<open>
  The cryptography of the card's secure channel, \<open>crates/keycard-client/src/crypto.rs\<close>: padding,
  CBC encryption, the CBC-MAC, session keys and pairing secrets. The primitives of the \<open>aes\<close>,
  \<open>sha2\<close>, \<open>pbkdf2\<close>, \<open>k256\<close> and \<open>unicode-normalization\<close> crates are the record \<open>suite\<close>, a parameter.
  A slice or an array conversion of the wrong length is a panic.
\<close>

section \<open>Parameters\<close>

text \<open>
  \<^item> \<open>sha2_256\<close>, \<open>sha2_512\<close>: the digests of the whole input;
  \<^item> \<open>pbkdf2_sha256\<close>: \<open>pbkdf2_hmac_array::<Sha256, 32>\<close> on password, salt and rounds;
  \<^item> \<open>nfkd_str\<close>: \<open>s.nfkd().collect::<String>()\<close>;
  \<^item> \<open>aes_enc\<close>, \<open>aes_dec\<close>: \<open>Aes256::encrypt_block\<close>, \<open>decrypt_block\<close> under a 32-byte key;
  \<^item> \<open>pk_from_sec1\<close>: \<open>PublicKey::from_sec1_bytes\<close>; \<open>dh\<close>: \<open>diffie_hellman(..).raw_secret_bytes()\<close>;
    \<open>eph_point\<close>: the uncompressed point of a secret key;
  \<^item> \<open>random_secret\<close>, \<open>fill_bytes\<close>: \<open>SecretKey::random\<close> and \<open>fill_bytes\<close> on the thread's generator,
    whose state is part of the outside \<open>'w\<close>.
\<close>

record ('w, 'sk, 'pk) suite =
  sha2_256 :: "bytes \<Rightarrow> bytes"
  sha2_512 :: "bytes \<Rightarrow> bytes"
  pbkdf2_sha256 :: "bytes \<Rightarrow> bytes \<Rightarrow> nat \<Rightarrow> bytes"
  nfkd_str :: "string \<Rightarrow> string"
  aes_enc :: "bytes \<Rightarrow> bytes \<Rightarrow> bytes"
  aes_dec :: "bytes \<Rightarrow> bytes \<Rightarrow> bytes"
  pk_from_sec1 :: "bytes \<Rightarrow> string + 'pk"
  dh :: "'sk \<Rightarrow> 'pk \<Rightarrow> bytes"
  eph_point :: "'sk \<Rightarrow> bytes"
  random_secret :: "'w \<Rightarrow> 'sk \<times> 'w"
  fill_bytes :: "nat \<Rightarrow> 'w \<Rightarrow> bytes \<times> 'w"

text \<open>
  What the crates document: digests and derived keys have their fixed sizes, a block cipher maps
  blocks to blocks and decryption inverts encryption, and the generator fills what it is asked for.
\<close>

definition aes_laws :: "('w, 'sk, 'pk) suite \<Rightarrow> bool" where
  "aes_laws K \<longleftrightarrow>
     (\<forall>key b. length key = 32 \<longrightarrow> length b = 16 \<longrightarrow>
        length (aes_enc K key b) = 16 \<and> length (aes_dec K key b) = 16 \<and> aes_dec K key (aes_enc K key b) = b)"

definition suite_laws :: "('w, 'sk, 'pk) suite \<Rightarrow> bool" where
  "suite_laws K \<longleftrightarrow> aes_laws K \<and> (\<forall>x. length (sha2_256 K x) = 32) \<and> (\<forall>x. length (sha2_512 K x) = 64)
     \<and> (\<forall>p s n. length (pbkdf2_sha256 K p s n) = 32) \<and> (\<forall>n w. length (fst (fill_bytes K n w)) = n)"

section \<open>Keys\<close>

definition PAIRING_TOKEN_SALT :: string where
  "PAIRING_TOKEN_SALT = ''Keycard Pairing Password Salt''"

definition sha256_parts :: "('w, 'sk, 'pk) suite \<Rightarrow> bytes list \<Rightarrow> bytes" where
  "sha256_parts K parts = sha2_256 K (concat parts)"

definition ecdh_generate ::
  "('w, 'sk, 'pk) suite \<Rightarrow> bytes \<Rightarrow> ('w, string, bytes \<times> bytes) action" where
  "ecdh_generate K card_pub_bytes w =
     (let (eph, w') = random_secret K w in
      (case pk_from_sec1 K card_pub_bytes of
         Inl e \<Rightarrow> Err (''card pubkey: '' @ e)
       | Inr card_pub \<Rightarrow>
           let secret = dh K eph card_pub in
           if length secret \<noteq> 32 then Err ''ecdh len'' else Ok (secret, eph_point K eph),
       w'))"

definition nfkd :: "('w, 'sk, 'pk) suite \<Rightarrow> string \<Rightarrow> bytes" where
  "nfkd K s = as_bytes (nfkd_str K s)"

definition pairing_secret_hash :: "('w, 'sk, 'pk) suite \<Rightarrow> string \<Rightarrow> bytes" where
  "pairing_secret_hash K pairing_pass =
     pbkdf2_sha256 K (nfkd K pairing_pass) (nfkd K PAIRING_TOKEN_SALT) 50000"

definition derive_session_keys ::
  "('w, 'sk, 'pk) suite \<Rightarrow> bytes \<Rightarrow> bytes \<Rightarrow> bytes \<Rightarrow> (string, bytes \<times> bytes \<times> bytes) outcome" where
  "derive_session_keys K secret pairing_key card_data =
     and_then (subslice card_data 0 32) (\<lambda>salt.
     and_then (subslice card_data 32 48) (\<lambda>iv.
       let data = sha2_512 K (secret @ pairing_key @ salt) in
       and_then (subslice data 0 32) (\<lambda>enc.
       and_then (subslice data 32 64) (\<lambda>mac. Ok (enc, mac, iv)))))"

section \<open>Padding\<close>

definition append_padding :: "bytes \<Rightarrow> bytes" where
  "append_padding data =
     (let pad = 16 - length data mod 16 in data @ [0x80] @ replicate (pad - 1) 0)"

fun padding_start :: "bytes \<Rightarrow> nat \<Rightarrow> nat" where
  "padding_start data 0 = 0"
| "padding_start data (Suc i) = (if data ! i = 0x80 then i else padding_start data i)"

definition remove_padding :: "bytes \<Rightarrow> bytes" where
  "remove_padding data = take (padding_start data (length data)) data"

section \<open>Cipher block chaining\<close>

definition xor16 :: "bytes \<Rightarrow> bytes \<Rightarrow> (string, bytes) outcome" where
  "xor16 a b =
     (if 16 \<le> length a \<and> 16 \<le> length b then Ok (map2 (XOR) (take 16 a) (take 16 b)) else Panic)"

text \<open>\<open>data.chunks(16)\<close>: the last chunk may be shorter.\<close>

function chunks16 :: "bytes \<Rightarrow> bytes list" where
  "chunks16 data = (if data = [] then [] else take 16 data # chunks16 (drop 16 data))"
  by pat_completeness auto
termination
  by (relation "measure length") auto

declare chunks16.simps [simp del]

fun cbc_encrypt_blocks :: "('w, 'sk, 'pk) suite \<Rightarrow> bytes \<Rightarrow> bytes \<Rightarrow> bytes list \<Rightarrow> (string, bytes) outcome" where
  "cbc_encrypt_blocks K key prev [] = Ok []"
| "cbc_encrypt_blocks K key prev (chunk # chunks) =
     and_then (xor16 chunk prev) (\<lambda>x.
       let b = aes_enc K key x in
       and_then (cbc_encrypt_blocks K key b chunks) (\<lambda>out. Ok (b @ out)))"

definition cbc_encrypt_raw :: "('w, 'sk, 'pk) suite \<Rightarrow> bytes \<Rightarrow> bytes \<Rightarrow> bytes \<Rightarrow> (string, bytes) outcome" where
  "cbc_encrypt_raw K key iv data =
     (if length iv \<noteq> 16 then Panic else cbc_encrypt_blocks K key iv (chunks16 data))"

fun cbc_decrypt_blocks :: "('w, 'sk, 'pk) suite \<Rightarrow> bytes \<Rightarrow> bytes \<Rightarrow> bytes list \<Rightarrow> (string, bytes) outcome" where
  "cbc_decrypt_blocks K key prev [] = Ok []"
| "cbc_decrypt_blocks K key prev (chunk # chunks) =
     (if length chunk \<noteq> 16 then Panic
      else
        and_then (xor16 (aes_dec K key chunk) prev) (\<lambda>p.
        and_then (cbc_decrypt_blocks K key chunk chunks) (\<lambda>out. Ok (p @ out))))"

definition cbc_decrypt_raw :: "('w, 'sk, 'pk) suite \<Rightarrow> bytes \<Rightarrow> bytes \<Rightarrow> bytes \<Rightarrow> (string, bytes) outcome" where
  "cbc_decrypt_raw K key iv data =
     (if length iv \<noteq> 16 then Panic else cbc_decrypt_blocks K key iv (chunks16 data))"

text \<open>\<open>Aes256::new_from_slice(key).unwrap()\<close> panics on a key of the wrong length.\<close>

definition encrypt_data :: "('w, 'sk, 'pk) suite \<Rightarrow> bytes \<Rightarrow> bytes \<Rightarrow> bytes \<Rightarrow> (string, bytes) outcome" where
  "encrypt_data K data enc_key iv =
     (if length enc_key \<noteq> 32 then Panic else cbc_encrypt_raw K enc_key iv (append_padding data))"

definition decrypt_data :: "('w, 'sk, 'pk) suite \<Rightarrow> bytes \<Rightarrow> bytes \<Rightarrow> bytes \<Rightarrow> (string, bytes) outcome" where
  "decrypt_data K data enc_key iv =
     (if length enc_key \<noteq> 32 then Panic
      else and_then (cbc_decrypt_raw K enc_key iv data) (\<lambda>p. Ok (remove_padding p)))"

definition calculate_mac :: "('w, 'sk, 'pk) suite \<Rightarrow> bytes \<Rightarrow> bytes \<Rightarrow> bytes \<Rightarrow> (string, bytes) outcome" where
  "calculate_mac K meta data mac_key =
     (if length mac_key \<noteq> 32 then Panic
      else
        and_then (cbc_encrypt_raw K mac_key (replicate 16 0) (meta @ append_padding data)) (\<lambda>ct.
          let n = length ct in
          if n < 32 then Panic else subslice ct (n - 32) (n - 16)))"


section \<open>Padding is invertible\<close>

lemma padding_start_at:
  "i < n \<Longrightarrow> data ! i = 0x80 \<Longrightarrow> \<forall>j. i < j \<and> j < n \<longrightarrow> data ! j \<noteq> 0x80 \<Longrightarrow> padding_start data n = i"
proof (induction n)
  case (Suc n)
  then show ?case by (cases "i = n") simp_all
qed simp

lemma remove_marker: "remove_padding (data @ [0x80] @ replicate k 0) = data"
proof -
  have "padding_start (data @ [0x80] @ replicate k 0) (length data + 1 + k) = length data"
    by (rule padding_start_at) (auto simp: nth_append nth_Cons')
  then show ?thesis by (simp add: remove_padding_def)
qed

lemma remove_append_padding [simp]: "remove_padding (append_padding data) = data"
  unfolding append_padding_def Let_def by (rule remove_marker)

lemma length_append_padding: "length (append_padding data) = 16 * (length data div 16 + 1)"
proof -
  have "length data mod 16 < 16" by simp
  then have "length (append_padding data) = length data + 16 - length data mod 16"
    by (simp add: append_padding_def Let_def)
  also have "\<dots> = 16 * (length data div 16 + 1)" by presburger
  finally show ?thesis .
qed

section \<open>Chaining is invertible\<close>

definition xor_block :: "bytes \<Rightarrow> bytes \<Rightarrow> bytes" where
  "xor_block a b = map2 (XOR) a b"

lemma length_xor_block [simp]: "length (xor_block a b) = min (length a) (length b)"
  by (simp add: xor_block_def)

lemma xor_block_cancel: "length a = length b \<Longrightarrow> xor_block (xor_block a b) b = a"
  by (induction a b rule: list_induct2) (simp_all add: xor_block_def xor.assoc)

lemma xor16_block [simp]: "length a = 16 \<Longrightarrow> length b = 16 \<Longrightarrow> xor16 a b = Ok (xor_block a b)"
  by (simp add: xor16_def xor_block_def)

lemma chunks16_Nil [simp]: "chunks16 [] = []"
  by (simp add: chunks16.simps)

lemma chunks16_block [simp]: "length b = 16 \<Longrightarrow> chunks16 (b @ rest) = b # chunks16 rest"
  by (subst chunks16.simps) auto

lemma chunks16_one [simp]: "length b = 16 \<Longrightarrow> chunks16 b = [b]"
  using chunks16_block [of b "[]"] by simp

text \<open>A sequence of whole blocks, taken apart at the front.\<close>

lemma blocks_induct [consumes 1, case_names Nil Block]:
  assumes "length data = 16 * n" and "P []"
    and "\<And>b rest m. length b = 16 \<Longrightarrow> length rest = 16 * m \<Longrightarrow> P rest \<Longrightarrow> P (b @ rest)"
  shows "P data"
  using assms(1)
proof (induction n arbitrary: data)
  case 0
  with assms(2) show ?case by simp
next
  case (Suc n)
  then have "P (drop 16 data)" by simp
  with Suc.prems assms(3) [of "take 16 data" "drop 16 data" n] show ?case by simp
qed

lemma aes_enc_block:
  assumes "aes_laws K" "length key = 32" "length b = 16"
  shows "length (aes_enc K key b) = 16" "aes_dec K key (aes_enc K key b) = b"
  using assms by (auto simp: aes_laws_def)

lemma cbc_blocks_roundtrip:
  assumes "aes_laws K" "length key = 32" "length data = 16 * n" "length prev = 16"
  shows "\<exists>c. cbc_encrypt_blocks K key prev (chunks16 data) = Ok c \<and> length c = length data
    \<and> cbc_decrypt_blocks K key prev (chunks16 c) = Ok data"
  using assms(3,4)
proof (induction data arbitrary: prev rule: blocks_induct)
  case (Block b rest m)
  let ?b = "aes_enc K key (xor_block b prev)"
  have l: "length ?b = 16" "aes_dec K key ?b = xor_block b prev"
    using aes_enc_block [OF assms(1,2), of "xor_block b prev"] Block by simp_all
  obtain c where "cbc_encrypt_blocks K key ?b (chunks16 rest) = Ok c" "length c = length rest"
    "cbc_decrypt_blocks K key ?b (chunks16 c) = Ok rest" using Block.IH [OF l(1)] by auto
  then show ?case using Block.hyps Block.prems l
    by (simp add: xor_block_cancel)
qed simp

lemma encrypt_data_Ok:
  assumes "aes_laws K" "length key = 32" "length iv = 16"
  obtains c where "encrypt_data K data key iv = Ok c" "length c = 16 * (length data div 16 + 1)"
    "decrypt_data K c key iv = Ok data"
proof -
  obtain c where c: "cbc_encrypt_blocks K key iv (chunks16 (append_padding data)) = Ok c"
    "length c = length (append_padding data)"
    "cbc_decrypt_blocks K key iv (chunks16 c) = Ok (append_padding data)"
    using cbc_blocks_roundtrip [OF assms(1,2) length_append_padding assms(3)] by blast
  show thesis
    by (rule that [of c])
      (use c assms in \<open>simp_all add: encrypt_data_def decrypt_data_def cbc_encrypt_raw_def cbc_decrypt_raw_def
        length_append_padding\<close>)
qed

text \<open>
  C30. Encryption round trip: under a 32-byte key and a 16-byte vector, encrypting any data
  succeeds, the ciphertext is whole blocks, at least one byte and at most sixteen longer than the
  data, and decrypting it under the same key and vector gives the data back.
\<close>

theorem encrypt_roundtrip:
  assumes "aes_laws K" and "length key = 32" and "length iv = 16"
  shows "\<exists>c. encrypt_data K data key iv = Ok c \<and> 16 dvd length c
    \<and> length data < length c \<and> length c \<le> length data + 16 \<and> decrypt_data K c key iv = Ok data"
proof -
  obtain c where c: "encrypt_data K data key iv = Ok c" "length c = 16 * (length data div 16 + 1)"
    "decrypt_data K c key iv = Ok data" using encrypt_data_Ok [OF assms] by blast
  moreover have "length data < 16 * (length data div 16 + 1)" "16 * (length data div 16 + 1) \<le> length data + 16"
    by presburger+
  ultimately show ?thesis by auto
qed


section \<open>The message authentication code\<close>

text \<open>The textbook CBC-MAC: the cipher chained over the blocks from a zero vector.\<close>

definition cbc_chain :: "('w, 'sk, 'pk) suite \<Rightarrow> bytes \<Rightarrow> bytes list \<Rightarrow> bytes \<Rightarrow> bytes" where
  "cbc_chain K key blocks iv = fold (\<lambda>b prev. aes_enc K key (xor_block b prev)) blocks iv"

definition cbc_mac :: "('w, 'sk, 'pk) suite \<Rightarrow> bytes \<Rightarrow> bytes \<Rightarrow> bytes" where
  "cbc_mac K key data = cbc_chain K key (chunks16 data) (replicate 16 0)"

lemma cbc_chain_block:
  assumes "aes_laws K" "length key = 32" "length data = 16 * n" "length iv = 16"
  shows "length (cbc_chain K key (chunks16 data) iv) = 16"
  using assms(3,4)
proof (induction data arbitrary: iv rule: blocks_induct)
  case (Block b rest m)
  then show ?case using aes_enc_block(1) [OF assms(1,2)] by (simp add: cbc_chain_def)
qed (simp add: cbc_chain_def)

text \<open>What CBC encryption writes ends in the chained value.\<close>

lemma cbc_encrypt_last:
  assumes "aes_laws K" "length key = 32" "length data = 16 * n" "length prev = 16" "length b = 16"
  shows "\<exists>c. cbc_encrypt_blocks K key prev (chunks16 (data @ b))
      = Ok (c @ aes_enc K key (xor_block b (cbc_chain K key (chunks16 data) prev)))
    \<and> length c = length data \<and> (data \<noteq> [] \<longrightarrow> drop (length c - 16) c = cbc_chain K key (chunks16 data) prev)"
  using assms(3,4)
proof (induction data arbitrary: prev rule: blocks_induct)
  case Nil
  then show ?case using assms(5) by (simp add: cbc_chain_def)
next
  case (Block a rest m)
  let ?a = "aes_enc K key (xor_block a prev)"
  have l: "length ?a = 16" using aes_enc_block(1) [OF assms(1,2)] Block by simp
  obtain c where c: "cbc_encrypt_blocks K key ?a (chunks16 (rest @ b))
      = Ok (c @ aes_enc K key (xor_block b (cbc_chain K key (chunks16 rest) ?a)))" "length c = length rest"
    "rest \<noteq> [] \<longrightarrow> drop (length c - 16) c = cbc_chain K key (chunks16 rest) ?a" using Block.IH [OF l] by blast
  have "drop (length (?a @ c) - 16) (?a @ c) = cbc_chain K key (chunks16 (a @ rest)) prev"
    using c(2,3) l Block.hyps by (cases m) (auto simp: cbc_chain_def)
  with c(1,2) l Block.hyps Block.prems show ?case
    by (intro exI [of _ "?a @ c"]) (simp add: cbc_chain_def Let_def)
qed

lemma append_padding_split:
  obtains pad where "append_padding data = take (16 * (length data div 16)) data @ pad" "length pad = 16"
proof
  let ?k = "16 * (length data div 16)"
  have le: "?k \<le> length data" by simp
  show "append_padding data = take ?k data @ drop ?k (append_padding data)"
    using append_take_drop_id [of ?k "append_padding data"] le by (simp add: append_padding_def Let_def)
  show "length (drop ?k (append_padding data)) = 16" by (simp add: length_append_padding)
qed

lemma calculate_mac_Ok:
  assumes "aes_laws K" "length key = 32" "length meta = 16"
  shows "calculate_mac K meta data key = Ok (cbc_mac K key (meta @ take (16 * (length data div 16)) data))"
proof -
  let ?whole = "take (16 * (length data div 16)) data"
  obtain pad where pad: "append_padding data = ?whole @ pad" "length pad = 16"
    by (rule append_padding_split)
  have len: "length (meta @ ?whole) = 16 * (length data div 16 + 1)" using assms(3) by simp
  obtain c where c: "cbc_encrypt_blocks K key (replicate 16 0) (chunks16 ((meta @ ?whole) @ pad))
      = Ok (c @ aes_enc K key (xor_block pad (cbc_mac K key (meta @ ?whole))))"
    "length c = length (meta @ ?whole)" "drop (length c - 16) c = cbc_mac K key (meta @ ?whole)"
    using cbc_encrypt_last [OF assms(1,2) len, of "replicate 16 0" pad] pad(2) assms(3)
    unfolding cbc_mac_def by fastforce
  have "length (cbc_mac K key (meta @ ?whole)) = 16"
    unfolding cbc_mac_def by (rule cbc_chain_block [OF assms(1,2) len]) simp
  moreover have "length (aes_enc K key (xor_block pad (cbc_mac K key (meta @ ?whole)))) = 16"
    using aes_enc_block(1) [OF assms(1,2)] pad(2) calculation by simp
  ultimately show ?thesis
    using c pad(1) len assms(2,3)
    by (simp add: calculate_mac_def cbc_encrypt_raw_def Let_def subslice_def)
qed

lemma length_cbc_mac:
  "aes_laws K \<Longrightarrow> length key = 32 \<Longrightarrow> 16 dvd length data \<Longrightarrow> length (cbc_mac K key data) = 16"
  unfolding cbc_mac_def dvd_def using cbc_chain_block by (metis length_replicate)

text \<open>
  C31. The message authentication code of the channel is a CBC-MAC: \<open>calculate_mac\<close>, which pads,
  encrypts everything and cuts out the last block but one, never panics and returns the textbook
  chaining value over the metadata block and the whole blocks of the data. On a ciphertext, which
  is whole blocks, that is all of it; a trailing partial block would not be covered.
\<close>

theorem calculate_mac_is_cbc_mac:
  assumes "aes_laws K" and "length key = 32" and "length meta = 16"
  shows "calculate_mac K meta data key = Ok (cbc_mac K key (meta @ take (16 * (length data div 16)) data))
    \<and> (16 dvd length data \<longrightarrow> calculate_mac K meta data key = Ok (cbc_mac K key (meta @ data)))"
  using calculate_mac_Ok [OF assms, of data] by (auto simp: dvd_def)

end
