(* ===== verification/Keycard_Client.thy ===== *)
theory Keycard_Client
  imports Apdu Kc_Crypto
begin

text \<open>
  The card client, \<open>crates/keycard-client/src/client.rs\<close>: reader polling, the connection, the secure
  channel and the commands sent over it. The \<open>pcsc\<close> crate is the record \<open>pcsc\<close>, a parameter; \<open>'w\<close> is
  the outside (reader, card and random generator). A command runs on the client and the outside; the
  handles that Rust drops at the end of a scope are released explicitly.
\<close>

section \<open>Parameters\<close>

text \<open>
  \<^item> \<open>establish\<close>, \<open>list_readers\<close>, \<open>connect_card\<close>: \<open>Context::establish(Scope::User)\<close>, \<open>list_readers\<close> and
    \<open>connect(reader, Shared, ANY)\<close>, with the text of the error;
  \<^item> \<open>status_change\<close>: \<open>get_status_change\<close> within 200 ms from \<open>State::UNAWARE\<close>: whether the new state
    has \<open>PRESENT\<close>, a timeout, or another error;
  \<^item> \<open>transmit_card\<close>: \<open>Card::transmit\<close> with a receive buffer of the given size;
  \<^item> \<open>release_ctx\<close>, \<open>disconnect_card\<close>: the drop of a context and of a card.
\<close>

datatype status_event = Changed bool | Timeout | StatusError string

record ('w, 'ctx, 'card) pcsc =
  establish :: "('w, 'ctx) call"
  list_readers :: "'ctx \<Rightarrow> ('w, string list) call"
  status_change :: "'ctx \<Rightarrow> string \<Rightarrow> 'w \<Rightarrow> status_event \<times> 'w"
  connect_card :: "'ctx \<Rightarrow> string \<Rightarrow> ('w, 'card) call"
  transmit_card :: "'card \<Rightarrow> bytes \<Rightarrow> nat \<Rightarrow> ('w, bytes) call"
  release_ctx :: "'ctx \<Rightarrow> 'w \<Rightarrow> 'w"
  disconnect_card :: "'card \<Rightarrow> 'w \<Rightarrow> 'w"

definition call_error :: "string \<Rightarrow> ('w, 'a) call \<Rightarrow> ('w, 'a) call" where
  "call_error prefix m w = (case m w of (r, w') \<Rightarrow> (map_sum ((@) prefix) id r, w'))"

section \<open>Reader polling\<close>

definition reader_card_present :: "('w, 'ctx, 'card) pcsc \<Rightarrow> ('w, bool) call" where
  "reader_card_present R =
     call_then (call_error ''pcsc ctx: '' (establish R)) (\<lambda>ctx w.
       let (r, w') =
         call_then (call_error ''readers: '' (list_readers R ctx)) (\<lambda>readers.
           case readers of
             [] \<Rightarrow> call_lift (Inr False)
           | reader # _ \<Rightarrow>
               (\<lambda>w1. case status_change R ctx reader w1 of
                  (Changed present, w2) \<Rightarrow> (Inr present, w2)
                | (Timeout, w2) \<Rightarrow> (Inr False, w2)
                | (StatusError e, w2) \<Rightarrow> (Inl (''status change: '' @ e), w2))) w
       in (r, release_ctx R ctx w'))"

section \<open>Constants and state\<close>

definition KEYCARD_INSTANCE_AID :: bytes where
  "KEYCARD_INSTANCE_AID = [0xA0, 0x00, 0x00, 0x08, 0x04, 0x00, 0x01, 0x01, 0x01]"

definition STEALTH_EXPORT_PATH :: string where
  "STEALTH_EXPORT_PATH =
     ''m/43'' @ [CHR 0x27] @ ''/60'' @ [CHR 0x27] @ ''/1581'' @ [CHR 0x27] @ ''/0'' @ [CHR 0x27] @ ''/0'' @ [CHR 0x27]"

definition INS_SELECT :: u8 where "INS_SELECT = 0xA4"
definition INS_OPEN_SECURE_CHANNEL :: u8 where "INS_OPEN_SECURE_CHANNEL = 0x10"
definition INS_MUTUALLY_AUTHENTICATE :: u8 where "INS_MUTUALLY_AUTHENTICATE = 0x11"
definition INS_PAIR :: u8 where "INS_PAIR = 0x12"
definition INS_UNPAIR :: u8 where "INS_UNPAIR = 0x13"
definition INS_IDENTIFY :: u8 where "INS_IDENTIFY = 0x14"
definition INS_VERIFY_PIN :: u8 where "INS_VERIFY_PIN = 0x20"
definition INS_EXPORT_KEY :: u8 where "INS_EXPORT_KEY = 0xC2"

definition P1_PAIR_FIRST :: u8 where "P1_PAIR_FIRST = 0x00"
definition P1_PAIR_FINAL :: u8 where "P1_PAIR_FINAL = 0x01"
definition P1_EXPORT_DERIVE :: u8 where "P1_EXPORT_DERIVE = 0x01"
definition P2_EXPORT_PRIV_AND_PUB :: u8 where "P2_EXPORT_PRIV_AND_PUB = 0x00"

definition SW_OK :: u16 where "SW_OK = 0x9000"

record secure_channel =
  sc_open :: bool
  sc_secret :: bytes
  sc_eph_pub :: bytes
  sc_enc_key :: bytes
  sc_mac_key :: bytes
  sc_iv :: bytes

record ('ctx, 'card) keycard =
  kc_ctx :: 'ctx
  kc_card :: 'card
  kc_sc :: secure_channel
  initialized :: bool
  instance_uid :: bytes
  pairing_index :: u8
  pairing_key :: bytes

type_synonym ('w, 'ctx, 'card, 'a) kc_action = "(('ctx, 'card) keycard \<times> 'w, string, 'a) action"

definition connect :: "('w, 'ctx, 'card) pcsc \<Rightarrow> ('w, ('ctx, 'card) keycard) call" where
  "connect R =
     call_then (call_error ''pcsc ctx: '' (establish R)) (\<lambda>ctx w.
       case
         call_then (call_error ''readers: '' (list_readers R ctx)) (\<lambda>readers.
         call_then (call_lift (some_or (get_at readers 0) ''no reader'')) (\<lambda>reader.
           call_error ''connect (card inserted?): '' (connect_card R ctx reader))) w of
         (Inl e, w') \<Rightarrow> (Inl e, release_ctx R ctx w')
       | (Inr handle, w') \<Rightarrow>
           (Inr \<lparr>kc_ctx = ctx, kc_card = handle,
                 kc_sc = \<lparr>sc_open = False, sc_secret = replicate 32 0, sc_eph_pub = [],
                          sc_enc_key = replicate 32 0, sc_mac_key = replicate 32 0, sc_iv = replicate 16 0\<rparr>,
                 initialized = False, instance_uid = [], pairing_index = 0, pairing_key = []\<rparr>,
            w'))"

text \<open>The drop of a \<open>Keycard\<close>: the card holds the context, which goes last.\<close>

definition drop_keycard :: "('w, 'ctx, 'card) pcsc \<Rightarrow> ('ctx, 'card) keycard \<Rightarrow> 'w \<Rightarrow> 'w" where
  "drop_keycard R kc w = release_ctx R (kc_ctx kc) (disconnect_card R (kc_card kc) w)"

section \<open>The secure channel\<close>

definition transmit :: "('w, 'ctx, 'card) pcsc \<Rightarrow> command \<Rightarrow> ('w, 'ctx, 'card, response) kc_action" where
  "transmit R cmd = (\<lambda>(kc, w).
     case call_error ''transmit: '' (transmit_card R (kc_card kc) (serialize cmd) 1024) w of
       (Inl e, w') \<Rightarrow> (Err e, (kc, w'))
     | (Inr raw, w') \<Rightarrow> (Ok (parse_response raw), (kc, w')))"

text \<open>The outgoing half: the command's data encrypted, the MAC of header and ciphertext in front; the
  MAC is the next initialisation vector.\<close>

definition sc_wrap :: "('w, 'sk, 'pk) suite \<Rightarrow> secure_channel \<Rightarrow> command \<Rightarrow> (string, secure_channel \<times> command) outcome" where
  "sc_wrap K sc cmd =
     and_then (encrypt_data K (cmd_data cmd) (sc_enc_key sc) (sc_iv sc)) (\<lambda>enc.
       let meta = [cla cmd, ins cmd, p1 cmd, p2 cmd, of_nat (length enc + 16)] @ replicate 11 0 in
       and_then (calculate_mac K meta enc (sc_mac_key sc)) (\<lambda>mac.
         Ok (sc\<lparr>sc_iv := mac\<rparr>, cmd\<lparr>cmd_data := mac @ enc\<rparr>)))"

text \<open>The incoming half.\<close>

definition sc_unwrap :: "('w, 'sk, 'pk) suite \<Rightarrow> secure_channel \<Rightarrow> response \<Rightarrow> (string, secure_channel \<times> response) outcome" where
  "sc_unwrap K sc resp =
     (if sw resp \<noteq> SW_OK then Err (''secure channel outer SW '' @ hex_04X (sw resp))
      else
        and_then (subslice (resp_data resp) 0 16) (\<lambda>rmac.
        and_then (subslice (resp_data resp) 16 (length (resp_data resp))) (\<lambda>rdata.
        and_then (decrypt_data K rdata (sc_enc_key sc) (sc_iv sc)) (\<lambda>plain.
          let rmeta = of_nat (length (resp_data resp)) # replicate 15 0 in
          and_then (calculate_mac K rmeta rdata (sc_mac_key sc)) (\<lambda>new_iv.
            if new_iv \<noteq> rmac then Err ''invalid response MAC''
            else Ok (sc\<lparr>sc_iv := new_iv\<rparr>, parse_response plain))))))"

definition set_kc :: "(('ctx, 'card) keycard \<Rightarrow> ('ctx, 'card) keycard) \<Rightarrow> ('w, 'ctx, 'card, unit) kc_action" where
  "set_kc f = (\<lambda>(kc, w). (Ok (), (f kc, w)))"

definition send_sc ::
  "('w, 'sk, 'pk) suite \<Rightarrow> ('w, 'ctx, 'card) pcsc \<Rightarrow> command \<Rightarrow> ('w, 'ctx, 'card, response) kc_action" where
  "send_sc K R cmd = (\<lambda>(kc, w).
     if sc_open (kc_sc kc) then
       act_then (act_lift (sc_wrap K (kc_sc kc) cmd)) (\<lambda>(sc, cmd').
       act_then (set_kc (kc_sc_update (\<lambda>_. sc))) (\<lambda>_.
       act_then (transmit R cmd') (\<lambda>resp.
       act_then (act_lift (sc_unwrap K sc resp)) (\<lambda>(sc', r).
       act_then (set_kc (kc_sc_update (\<lambda>_. sc'))) (\<lambda>_. act_lift (Ok r)))))) (kc, w)
     else transmit R cmd (kc, w))"

definition check_sw :: "string \<Rightarrow> response \<Rightarrow> (string, response) outcome" where
  "check_sw what resp =
     (if sw resp \<noteq> SW_OK then Err (what @ '' SW '' @ hex_04X (sw resp)) else Ok resp)"

text \<open>\<open>find_tag(data, tag).ok_or(err)\<close>.\<close>

definition require_tag :: "bytes \<Rightarrow> u8 \<Rightarrow> string \<Rightarrow> (string, bytes) outcome" where
  "require_tag data tag err = and_then (returned (apdu_find_tag data tag)) (\<lambda>v. ok_or v err)"


section \<open>Commands\<close>

definition select :: "('w, 'sk, 'pk) suite \<Rightarrow> ('w, 'ctx, 'card) pcsc \<Rightarrow> ('w, 'ctx, 'card, unit) kc_action" where
  "select K R =
     act_then (transmit R ((new_command 0x00 INS_SELECT 0x04 0x00 KEYCARD_INSTANCE_AID)\<lparr>le := Some 0\<rparr>)) (\<lambda>resp.
     act_then (act_lift (check_sw ''SELECT'' resp)) (\<lambda>_.
     act_then
       (if get_at (resp_data resp) 0 = Some 0x80 then
          act_then (set_kc (\<lambda>kc. kc\<lparr>initialized := False, instance_uid := []\<rparr>)) (\<lambda>_.
            act_lift (subslice (resp_data resp) 2 (length (resp_data resp))))
        else
          act_then (act_lift (require_tag (resp_data resp) 0xA4 ''no A4 app-info template'')) (\<lambda>tpl.
          act_then (set_kc (\<lambda>kc. kc\<lparr>initialized := True\<rparr>)) (\<lambda>_.
          act_then (act_lift (require_tag tpl 0x8F ''no instance uid'')) (\<lambda>uid.
          act_then (set_kc (\<lambda>kc. kc\<lparr>instance_uid := uid\<rparr>)) (\<lambda>_.
            act_lift (require_tag tpl 0x80 ''no secure-channel pubkey''))))))
       (\<lambda>card_pub.
     act_then (\<lambda>(kc, w). case ecdh_generate K card_pub w of (r, w') \<Rightarrow> (r, (kc, w'))) (\<lambda>(secret, eph_pub).
       set_kc (\<lambda>kc. kc\<lparr>kc_sc := (kc_sc kc)\<lparr>sc_secret := secret, sc_eph_pub := eph_pub, sc_open := False\<rparr>\<rparr>)))))"

definition draw_bytes :: "('w, 'sk, 'pk) suite \<Rightarrow> nat \<Rightarrow> ('w, 'ctx, 'card, bytes) kc_action" where
  "draw_bytes K n = (\<lambda>(kc, w). case fill_bytes K n w of (b, w') \<Rightarrow> (Ok b, (kc, w')))"

definition pair ::
  "('w, 'sk, 'pk) suite \<Rightarrow> ('w, 'ctx, 'card) pcsc \<Rightarrow> string \<Rightarrow> ('w, 'ctx, 'card, unit) kc_action" where
  "pair K R pairing_pass =
     act_then (draw_bytes K 32) (\<lambda>challenge.
     act_then (transmit R (new_command CLA_GP INS_PAIR P1_PAIR_FIRST 0 challenge)) (\<lambda>resp.
       if sw resp = 0x6A84 then act_lift (Err ''no available pairing slots'')
       else
         act_then (act_lift (check_sw ''PAIR step1'' resp)) (\<lambda>_.
         act_then (act_lift (subslice (resp_data resp) 0 32)) (\<lambda>card_cryptogram.
         act_then (act_lift (subslice (resp_data resp) 32 64)) (\<lambda>card_challenge.
           let secret_hash = pairing_secret_hash K pairing_pass in
           if sha256_parts K [secret_hash, challenge] \<noteq> card_cryptogram then
             act_lift (Err ''invalid card cryptogram (wrong pairing password?)'')
           else
             let client_cryptogram = sha256_parts K [secret_hash, card_challenge] in
             act_then (transmit R (new_command CLA_GP INS_PAIR P1_PAIR_FINAL 0 client_cryptogram)) (\<lambda>resp2.
             act_then (act_lift (check_sw ''PAIR step2'' resp2)) (\<lambda>_.
             act_then (act_lift (index (resp_data resp2) 0)) (\<lambda>idx.
             act_then (set_kc (\<lambda>kc. kc\<lparr>pairing_index := idx\<rparr>)) (\<lambda>_.
             act_then (act_lift (subslice (resp_data resp2) 1 (length (resp_data resp2)))) (\<lambda>salt.
               set_kc (\<lambda>kc. kc\<lparr>pairing_key := sha256_parts K [secret_hash, salt]\<rparr>)))))))))))"

definition open_secure_channel ::
  "('w, 'sk, 'pk) suite \<Rightarrow> ('w, 'ctx, 'card) pcsc \<Rightarrow> ('w, 'ctx, 'card, unit) kc_action" where
  "open_secure_channel K R = (\<lambda>(kc, w).
     act_then (transmit R (new_command CLA_GP INS_OPEN_SECURE_CHANNEL (pairing_index kc) 0 (sc_eph_pub (kc_sc kc)))) (\<lambda>resp.
     act_then (act_lift (check_sw ''OPEN_SECURE_CHANNEL'' resp)) (\<lambda>_.
     act_then (act_lift (derive_session_keys K (sc_secret (kc_sc kc)) (pairing_key kc) (resp_data resp))) (\<lambda>(enc, mac, iv).
     act_then (set_kc (\<lambda>kc. kc\<lparr>kc_sc := (kc_sc kc)\<lparr>sc_enc_key := enc, sc_mac_key := mac, sc_iv := iv, sc_open := True\<rparr>\<rparr>)) (\<lambda>_.
     act_then (draw_bytes K 32) (\<lambda>data.
     act_then (send_sc K R (new_command CLA_GP INS_MUTUALLY_AUTHENTICATE 0 0 data)) (\<lambda>resp2.
     act_then (act_lift (check_sw ''MUTUALLY_AUTHENTICATE'' resp2)) (\<lambda>_. act_lift (Ok ())))))))) (kc, w))"

definition verify_pin ::
  "('w, 'sk, 'pk) suite \<Rightarrow> ('w, 'ctx, 'card) pcsc \<Rightarrow> string \<Rightarrow> ('w, 'ctx, 'card, unit) kc_action" where
  "verify_pin K R pin =
     act_then (send_sc K R (new_command CLA_GP INS_VERIFY_PIN 0 0 (as_bytes pin))) (\<lambda>resp.
       if sw resp \<noteq> SW_OK then
         if (sw resp AND 0x63C0) = 0x63C0 then
           act_lift (Err (''wrong PIN, '' @ dec (unat (sw resp AND 0x000F)) @ '' attempts left''))
         else act_lift (Err (''VERIFY_PIN SW '' @ hex_04X (sw resp)))
       else act_lift (Ok ()))"

text \<open>\<open>str::split\<close> at a character, \<open>trim_end_matches\<close> and \<open>parse::<u32>\<close>, which takes an optional plus
  sign and at least one decimal digit, and refuses a number that does not fit.\<close>

fun split_on :: "char \<Rightarrow> string \<Rightarrow> string list" where
  "split_on c [] = [[]]"
| "split_on c (x # xs) =
     (if x = c then [] # split_on c xs
      else case split_on c xs of p # ps \<Rightarrow> (x # p) # ps | [] \<Rightarrow> [[x]])"

definition hardened_mark :: "char \<Rightarrow> bool" where
  "hardened_mark c \<longleftrightarrow> c = CHR 0x27 \<or> c = CHR ''h'' \<or> c = CHR ''H''"

definition trim_end :: "(char \<Rightarrow> bool) \<Rightarrow> string \<Rightarrow> string" where
  "trim_end P s = rev (dropWhile P (rev s))"

definition is_digit :: "char \<Rightarrow> bool" where
  "is_digit c \<longleftrightarrow> 48 \<le> (of_char c :: nat) \<and> (of_char c :: nat) \<le> 57"

definition digits_value :: "string \<Rightarrow> nat" where
  "digits_value s = foldl (\<lambda>n c. n * 10 + (of_char c - 48)) 0 s"

definition parse_u32 :: "string \<Rightarrow> u32 option" where
  "parse_u32 s =
     (let ds = (case s of c # cs \<Rightarrow> if c = CHR ''+'' then cs else s | [] \<Rightarrow> s) in
      if ds \<noteq> [] \<and> list_all is_digit ds \<and> digits_value ds < 2 ^ 32 then Some (of_nat (digits_value ds)) else None)"

fun decode_segments :: "string list \<Rightarrow> string + u32 list" where
  "decode_segments [] = Inr []"
| "decode_segments (p # parts) =
     (if p = [] then decode_segments parts
      else
        let hardened = hardened_mark (last p) in
        try_then (some_or (parse_u32 (trim_end hardened_mark p)) (''bad path segment '' @ p)) (\<lambda>n.
        try_then (decode_segments parts) (\<lambda>out.
          Inr ((if hardened then n OR 0x80000000 else n) # out))))"

definition decode_path :: "string \<Rightarrow> string + u32 list" where
  "decode_path path =
     (case split_on CHR ''/'' path of
        [] \<Rightarrow> Inl ''empty path''
      | head # parts \<Rightarrow>
          if head \<noteq> ''m'' \<and> head \<noteq> ''M'' then Inl ''only master-rooted paths (m/...) supported''
          else decode_segments parts)"

definition to_be_bytes :: "u32 \<Rightarrow> bytes" where
  "to_be_bytes n = map (\<lambda>k. ucast (drop_bit (8 * k) n)) [3, 2, 1, 0]"

definition export_key ::
  "('w, 'sk, 'pk) suite \<Rightarrow> ('w, 'ctx, 'card) pcsc \<Rightarrow> string \<Rightarrow> ('w, 'ctx, 'card, bytes) kc_action" where
  "export_key K R path =
     act_then (act_lift (of_sum (decode_path path))) (\<lambda>segments.
     act_then (send_sc K R (new_command CLA_GP INS_EXPORT_KEY P1_EXPORT_DERIVE P2_EXPORT_PRIV_AND_PUB
                 (concat (map to_be_bytes segments)))) (\<lambda>resp.
     act_then (act_lift (check_sw ''EXPORT_KEY'' resp)) (\<lambda>_.
     act_then (act_lift (require_tag (resp_data resp) 0xA1 ''no A1 export template'')) (\<lambda>tpl.
       act_lift (require_tag tpl 0x81 ''no private key in export'')))))"

definition identify ::
  "('w, 'sk, 'pk) suite \<Rightarrow> ('w, 'ctx, 'card) pcsc \<Rightarrow> bytes \<Rightarrow> ('w, 'ctx, 'card, bytes) kc_action" where
  "identify K R challenge =
     act_then (send_sc K R (new_command CLA_GP INS_IDENTIFY 0 0 challenge)) (\<lambda>resp.
     act_then (act_lift (check_sw ''IDENTIFY'' resp)) (\<lambda>_. act_lift (Ok (resp_data resp))))"

definition unpair ::
  "('w, 'sk, 'pk) suite \<Rightarrow> ('w, 'ctx, 'card) pcsc \<Rightarrow> u8 \<Rightarrow> ('w, 'ctx, 'card, unit) kc_action" where
  "unpair K R slot =
     act_then (send_sc K R (new_command CLA_GP INS_UNPAIR slot 0 [])) (\<lambda>resp.
     act_then (act_lift (check_sw ''UNPAIR'' resp)) (\<lambda>_. act_lift (Ok ())))"

end
