(* ===== verification/Card_Path.thy ===== *)
theory Card_Path
  imports Keycard_Client
begin

text \<open>
  Derivation paths: \<open>decode_path\<close> reads back what a printer of the usual notation writes, so a key is
  exported for the path that was asked for.
\<close>

section \<open>Decimal numbers\<close>

lemma digit_char_value: "d < 10 \<Longrightarrow> (of_char (digit_char d) :: nat) = 48 + d"
  by (simp add: digit_char_def)

lemma dec_digits: "list_all is_digit (dec n) \<and> dec n \<noteq> [] \<and> digits_value (dec n) = n"
proof (induction n rule: dec.induct)
  case (1 n)
  show ?case
  proof (cases "n < 10")
    case True
    then show ?thesis by (simp add: dec.simps [of n] is_digit_def digits_value_def digit_char_value)
  next
    case False
    with 1 have "list_all is_digit (dec (n div 10))" "digits_value (dec (n div 10)) = n div 10" by simp_all
    moreover have m: "n mod 10 < 10" by simp
    then have "is_digit (digit_char (n mod 10))" unfolding is_digit_def digit_char_value [OF m] by simp
    ultimately show ?thesis
      using False by (simp add: dec.simps [of n] digits_value_def digit_char_value)
  qed
qed

lemma dec_chars: "c \<in> set (dec n) \<Longrightarrow> is_digit c"
  using dec_digits [of n] by (simp add: list_all_iff)

lemma digit_not_special:
  "is_digit c \<Longrightarrow> c \<noteq> CHR ''/'' \<and> c \<noteq> CHR ''+'' \<and> \<not> hardened_mark c"
  by (auto simp: is_digit_def hardened_mark_def)

lemma parse_dec: "n < 2 ^ 32 \<Longrightarrow> parse_u32 (dec n) = Some (of_nat n)"
proof -
  assume n: "n < 2 ^ 32"
  obtain c cs where c: "dec n = c # cs" using dec_digits [of n] by (cases "dec n") auto
  then have "c \<noteq> CHR ''+''" using digit_not_special [of c] dec_chars [of c n] by simp
  then show ?thesis using dec_digits [of n] n unfolding parse_u32_def c by simp
qed

section \<open>Segments\<close>

lemma split_on_none: "c \<notin> set s \<Longrightarrow> split_on c s = [s]"
  by (induction s) auto

lemma split_on_append: "c \<notin> set s \<Longrightarrow> split_on c (s @ c # rest) = s # split_on c rest"
  by (induction s) auto

definition segment_text :: "nat \<times> bool \<Rightarrow> string" where
  "segment_text = (\<lambda>(n, hard). dec n @ (if hard then [CHR 0x27] else []))"

definition render_path :: "(nat \<times> bool) list \<Rightarrow> string" where
  "render_path segs = ''m'' @ concat (map (\<lambda>seg. CHR ''/'' # segment_text seg) segs)"

lemma segment_no_slash: "CHR ''/'' \<notin> set (segment_text seg)"
  using digit_not_special dec_chars by (fastforce simp: segment_text_def split: prod.splits)

lemma split_segments:
  "CHR ''/'' \<notin> set s \<Longrightarrow>
     split_on CHR ''/'' (s @ concat (map (\<lambda>seg. CHR ''/'' # segment_text seg) segs)) = s # map segment_text segs"
proof (induction segs arbitrary: s)
  case Nil
  then show ?case by (simp add: split_on_none)
next
  case (Cons seg segs)
  then show ?case
    using Cons.IH [OF segment_no_slash [of seg]] by (simp add: split_on_append)
qed

lemma trim_digits: "list_all is_digit s \<Longrightarrow> trim_end hardened_mark s = s"
  using digit_not_special by (cases s rule: rev_cases) (auto simp: trim_end_def)

lemma trim_segment: "trim_end hardened_mark (segment_text (n, hard)) = dec n"
  using trim_digits [of "dec n"] dec_digits [of n]
  by (simp add: segment_text_def trim_end_def hardened_mark_def)

lemma last_segment: "hardened_mark (last (segment_text (n, hard))) = hard"
proof (cases hard)
  case False
  then show ?thesis
    using digit_not_special dec_chars [of "last (dec n)" n] dec_digits [of n] by (simp add: segment_text_def)
qed (simp add: segment_text_def hardened_mark_def)

definition segment_value :: "nat \<times> bool \<Rightarrow> u32" where
  "segment_value = (\<lambda>(n, hard). of_nat (if hard then 2 ^ 31 + n else n))"

lemma hardened_or: "n < 2 ^ 31 \<Longrightarrow> (of_nat n :: u32) OR 0x80000000 = of_nat (2 ^ 31 + n)"
proof -
  assume n: "n < 2 ^ 31"
  have bit31: "\<not> bit n 31" using n by (simp add: bit_iff_odd)
  have "(of_nat n :: u32) AND 2 ^ 31 = 0"
    by (rule bit_word_eqI, unfold bit_and_iff bit_exp_iff bit_of_nat_iff) (use bit31 in auto)
  then have "(of_nat n :: u32) OR 2 ^ 31 = of_nat n + 2 ^ 31" by (simp add: disjunctive_add_eq_or)
  then show ?thesis by simp
qed


lemma decode_segments_text:
  "\<forall>(n, hard) \<in> set segs. n < 2 ^ 31 \<Longrightarrow>
     decode_segments (map segment_text segs) = Inr (map segment_value segs)"
proof (induction segs)
  case (Cons seg segs)
  obtain n hard where seg: "seg = (n, hard)" by fastforce
  from Cons.prems seg have n: "n < 2 ^ 31" by simp
  then have "parse_u32 (dec n) = Some (of_nat n)" by (intro parse_dec) simp
  moreover have "segment_text seg \<noteq> []" using dec_digits [of n] by (simp add: seg segment_text_def)
  moreover have "(if hard then of_nat n OR 0x80000000 else of_nat n) = segment_value seg"
    using hardened_or [OF n] by (simp add: seg segment_value_def)
  ultimately show ?case
    using Cons.IH Cons.prems by (simp add: seg trim_segment last_segment Let_def del: of_nat_add)
qed simp

text \<open>
  C32. Derivation paths round trip: the decoder reads a path in the usual notation, decimal numbers
  below 2^31 with an apostrophe on the hardened ones, as exactly those numbers, the hardened ones
  with the top bit set, so the card derives the key that was asked for.
\<close>

theorem decode_path_roundtrip:
  assumes "\<forall>(n, hard) \<in> set segs. n < 2 ^ 31"
  shows "decode_path (render_path segs) = Inr (map segment_value segs)"
proof -
  have "split_on CHR ''/'' (render_path segs) = ''m'' # map segment_text segs"
    unfolding render_path_def by (rule split_segments) simp
  then show ?thesis using decode_segments_text [OF assms] by (simp add: decode_path_def)
qed

theorem decode_path_roundtrip_witness:
  "decode_path STEALTH_EXPORT_PATH = Inr [0x8000002B, 0x8000003C, 0x8000062D, 0x80000000, 0x80000000]"
proof -
  let ?segs = "[(43, True), (60, True), (1581, True), (0, True), (0, True)]"
  have "render_path ?segs = STEALTH_EXPORT_PATH" by code_simp
  then show ?thesis using decode_path_roundtrip [of ?segs] by (simp add: segment_value_def)
qed

end
