(* ===== verification/Channel.thy ===== *)
theory Channel
  imports Keycard_Client
begin

text \<open>
  The secure channel against a card that keeps its side of it: commands arrive decrypted, answers
  come back as the card's application gave them, and both sides hold the same vector afterwards.
  What a client accepts is authenticated, whatever the card.
\<close>

section \<open>How the halves compute\<close>

definition cmd_meta :: "command \<Rightarrow> nat \<Rightarrow> bytes" where
  "cmd_meta c n = [cla c, ins c, p1 c, p2 c, of_nat n] @ replicate 11 0"

definition resp_meta :: "nat \<Rightarrow> bytes" where
  "resp_meta n = of_nat n # replicate 15 0"

lemma length_meta [simp]: "length (cmd_meta c n) = 16" "length (resp_meta n) = 16"
  by (simp_all add: cmd_meta_def resp_meta_def)

definition sc_sized :: "secure_channel \<Rightarrow> bool" where
  "sc_sized sc \<longleftrightarrow> length (sc_secret sc) = 32 \<and> length (sc_enc_key sc) = 32 \<and> length (sc_mac_key sc) = 32
     \<and> length (sc_iv sc) = 16"

lemma sc_wrap_Ok:
  assumes "aes_laws K" and "sc_sized sc"
  obtains enc mac where "sc_wrap K sc c = Ok (sc\<lparr>sc_iv := mac\<rparr>, c\<lparr>cmd_data := mac @ enc\<rparr>)"
    "encrypt_data K (cmd_data c) (sc_enc_key sc) (sc_iv sc) = Ok enc"
    "length enc = 16 * (length (cmd_data c) div 16 + 1)" "decrypt_data K enc (sc_enc_key sc) (sc_iv sc) = Ok (cmd_data c)"
    "mac = cbc_mac K (sc_mac_key sc) (cmd_meta c (length enc + 16) @ enc)" "length mac = 16"
proof -
  obtain enc where enc: "encrypt_data K (cmd_data c) (sc_enc_key sc) (sc_iv sc) = Ok enc"
    "length enc = 16 * (length (cmd_data c) div 16 + 1)"
    "decrypt_data K enc (sc_enc_key sc) (sc_iv sc) = Ok (cmd_data c)"
    using encrypt_data_Ok [OF assms(1), of "sc_enc_key sc" "sc_iv sc"] assms(2) unfolding sc_sized_def by blast
  let ?mac = "cbc_mac K (sc_mac_key sc) (cmd_meta c (length enc + 16) @ enc)"
  have mac: "calculate_mac K (cmd_meta c (length enc + 16)) enc (sc_mac_key sc) = Ok ?mac"
    using calculate_mac_Ok [OF assms(1), of "sc_mac_key sc" "cmd_meta c (length enc + 16)" enc] assms(2) enc(2)
    by (simp add: sc_sized_def)
  have "length ?mac = 16" by (rule length_cbc_mac [OF assms(1)]) (use assms(2) enc(2) in \<open>simp_all add: sc_sized_def\<close>)
  then show thesis
    using enc mac by (intro that [of ?mac enc]) (simp_all add: sc_wrap_def Let_def cmd_meta_def)
qed

lemma sc_unwrap_mac:
  assumes "aes_laws K" and "sc_sized sc"
    and "resp_data resp = rmac @ rdata" "length rmac = 16" "sw resp = SW_OK"
    and "decrypt_data K rdata (sc_enc_key sc) (sc_iv sc) = Ok plain" "16 dvd length rdata"
  shows "sc_unwrap K sc resp =
    (if cbc_mac K (sc_mac_key sc) (resp_meta (length rdata + 16) @ rdata) \<noteq> rmac then Err ''invalid response MAC''
     else Ok (sc\<lparr>sc_iv := rmac\<rparr>, parse_response plain))"
proof -
  have "calculate_mac K (resp_meta (length rdata + 16)) rdata (sc_mac_key sc)
      = Ok (cbc_mac K (sc_mac_key sc) (resp_meta (length rdata + 16) @ rdata))"
    using calculate_mac_Ok [OF assms(1), of "sc_mac_key sc" "resp_meta (length rdata + 16)" rdata] assms(2,7)
    by (auto simp: sc_sized_def dvd_def)
  then show ?thesis
    using assms by (auto simp: sc_unwrap_def subslice_def Let_def resp_meta_def add.commute)
qed

lemma cbc_decrypt_whole:
  "cbc_decrypt_blocks K key prev (chunks16 data) = Ok p \<Longrightarrow> 16 dvd length data"
proof (induction data arbitrary: prev p rule: chunks16.induct)
  case (1 data)
  show ?case
  proof (cases "data = []")
    case False
    with "1.prems" have l: "length (take 16 data) = 16"
      and "\<exists>p'. cbc_decrypt_blocks K key (take 16 data) (chunks16 (drop 16 data)) = Ok p'"
      by (auto simp: chunks16.simps [of data] outcome_simps split: if_splits)
    with False "1.IH" have "16 dvd length (drop 16 data)" by blast
    moreover have "length data = 16 + length (drop 16 data)" using l by simp
    ultimately show ?thesis by (metis dvd_add_triv_left_iff)
  qed simp
qed

lemma decrypt_whole: "decrypt_data K data key iv = Ok p \<Longrightarrow> 16 dvd length data"
  by (auto simp: decrypt_data_def cbc_decrypt_raw_def outcome_simps split: if_splits dest: cbc_decrypt_whole)


section \<open>A card that keeps its side\<close>

text \<open>
  The card's side of an open channel, as the Keycard protocol documents it: the session keys and the
  vector it holds (\<open>view\<close>), and the plain answer of its application, data and status word
  (\<open>answer\<close>). Whenever the command's MAC is right and the ciphertext decrypts, the card answers the
  decrypted command (SELECT, PAIR and OPEN SECURE CHANNEL apart, which are never sent over the
  channel): the answer encrypted under the command's MAC as the vector, its own MAC in
  front, which becomes the next vector, and the outer status 9000.
\<close>

definition secured :: "command \<Rightarrow> bool" where
  "secured c \<longleftrightarrow> ins c \<notin> {INS_SELECT, INS_PAIR, INS_OPEN_SECURE_CHANNEL}"

record peer =
  peer_enc :: bytes
  peer_mac :: bytes
  peer_iv :: bytes

definition honest_peer ::
  "('w, 'sk, 'pk) suite \<Rightarrow> ('w, 'ctx, 'card) pcsc \<Rightarrow> 'card \<Rightarrow> ('w \<Rightarrow> peer) \<Rightarrow> ('w \<Rightarrow> command \<Rightarrow> bytes) \<Rightarrow> bool" where
  "honest_peer K R h view answer \<longleftrightarrow>
     (\<forall>w c mac enc.
        secured c \<longrightarrow> length mac = 16 \<longrightarrow> length (mac @ enc) < 256 \<longrightarrow>
        calculate_mac K (cmd_meta c (length (mac @ enc))) enc (peer_mac (view w)) = Ok mac \<longrightarrow>
        decrypt_data K enc (peer_enc (view w)) (peer_iv (view w)) = Ok (cmd_data c) \<longrightarrow>
        (\<exists>enc' mac' w'.
           encrypt_data K (answer w c) (peer_enc (view w)) mac = Ok enc'
         \<and> calculate_mac K (resp_meta (length (mac' @ enc'))) enc' (peer_mac (view w)) = Ok mac' \<and> length mac' = 16
         \<and> transmit_card R h (serialize (c\<lparr>cmd_data := mac @ enc\<rparr>)) 1024 w = (Inr (mac' @ enc' @ [0x90, 0x00]), w')
         \<and> view w' = (view w)\<lparr>peer_iv := mac'\<rparr>))"

definition in_sync :: "secure_channel \<Rightarrow> peer \<Rightarrow> bool" where
  "in_sync sc v \<longleftrightarrow> sc_open sc \<and> sc_sized sc
     \<and> peer_enc v = sc_enc_key sc \<and> peer_mac v = sc_mac_key sc \<and> peer_iv v = sc_iv sc"

lemma ok_status [simp]: "(push_bit 8 (ucast (0x90 :: u8)) OR ucast (0x00 :: u8) :: u16) = SW_OK"
  by (simp add: SW_OK_def)

lemma send_sc_open:
  assumes "sc_open (kc_sc kc)" "sc_wrap K (kc_sc kc) c = Ok (sc, c')"
    and "transmit_card R (kc_card kc) (serialize c') 1024 w = (Inr raw, w')"
    and "sc_unwrap K sc (parse_response raw) = Ok (sc', r)"
  shows "send_sc K R c (kc, w) = (Ok r, (kc\<lparr>kc_sc := sc'\<rparr>, w'))"
  using assms by (simp add: send_sc_def set_kc_def transmit_def call_error_def act_then_def act_lift_def)

lemma unwrap_answer:
  assumes "aes_laws K" "sc_sized sc" and "encrypt_data K a (sc_enc_key sc) (sc_iv sc) = Ok enc"
    and "calculate_mac K (resp_meta (length (mac @ enc))) enc (sc_mac_key sc) = Ok mac" "length mac = 16"
  shows "sc_unwrap K sc (parse_response (mac @ enc @ [0x90, 0x00])) = Ok (sc\<lparr>sc_iv := mac\<rparr>, parse_response a)"
proof -
  obtain e where "encrypt_data K a (sc_enc_key sc) (sc_iv sc) = Ok e" "length e = 16 * (length a div 16 + 1)"
    "decrypt_data K e (sc_enc_key sc) (sc_iv sc) = Ok a"
    using encrypt_data_Ok [OF assms(1), of "sc_enc_key sc" "sc_iv sc"] assms(2) unfolding sc_sized_def by blast
  with assms(3) have enc: "length enc = 16 * (length a div 16 + 1)"
    "decrypt_data K enc (sc_enc_key sc) (sc_iv sc) = Ok a" by simp_all
  then have whole: "16 dvd length enc" by simp
  have mac: "mac = cbc_mac K (sc_mac_key sc) (resp_meta (length enc + 16) @ enc)"
    using calculate_mac_Ok [OF assms(1), of "sc_mac_key sc" "resp_meta (length (mac @ enc))" enc] assms(2,4,5) enc(1)
    by (simp add: sc_sized_def add.commute)
  have resp: "parse_response (mac @ enc @ [0x90, 0x00]) = \<lparr>resp_data = mac @ enc, sw = SW_OK\<rparr>"
    using parse_response_append [of "mac @ enc" "0x90" "0x00"] unfolding ok_status by simp
  show ?thesis
    unfolding resp by (subst sc_unwrap_mac [OF assms(1,2) _ assms(5) _ enc(2) whole]) (simp_all add: mac [symmetric])
qed

lemma send_sc_transparent:
  assumes "aes_laws K" and "honest_peer K R (kc_card kc) view answer"
    and "in_sync (kc_sc kc) (view w)" and "secured c" and "length (cmd_data c) < 224"
  shows "\<exists>mac w'. send_sc K R c (kc, w)
      = (Ok (parse_response (answer w c)), (kc\<lparr>kc_sc := (kc_sc kc)\<lparr>sc_iv := mac\<rparr>\<rparr>, w'))
    \<and> in_sync ((kc_sc kc)\<lparr>sc_iv := mac\<rparr>) (view w')"
proof -
  let ?sc = "kc_sc kc"
  from assms(3) have sync: "sc_open ?sc" "sc_sized ?sc" "peer_enc (view w) = sc_enc_key ?sc"
    "peer_mac (view w) = sc_mac_key ?sc" "peer_iv (view w) = sc_iv ?sc" by (simp_all add: in_sync_def)
  obtain enc mac where wrap: "sc_wrap K ?sc c = Ok (?sc\<lparr>sc_iv := mac\<rparr>, c\<lparr>cmd_data := mac @ enc\<rparr>)"
    "length enc = 16 * (length (cmd_data c) div 16 + 1)" "decrypt_data K enc (sc_enc_key ?sc) (sc_iv ?sc) = Ok (cmd_data c)"
    "mac = cbc_mac K (sc_mac_key ?sc) (cmd_meta c (length enc + 16) @ enc)" "length mac = 16"
    using sc_wrap_Ok [OF assms(1) sync(2)] by blast
  have "length (mac @ enc) < 256" using wrap(2,5) assms(5) by simp
  moreover have "calculate_mac K (cmd_meta c (length (mac @ enc))) enc (sc_mac_key ?sc) = Ok mac"
    using calculate_mac_Ok [OF assms(1), of "sc_mac_key ?sc" "cmd_meta c (length (mac @ enc))" enc] sync(2) wrap(2,4,5)
    by (simp add: sc_sized_def add.commute)
  ultimately obtain enc' mac' w' where card:
    "encrypt_data K (answer w c) (sc_enc_key ?sc) mac = Ok enc'"
    "calculate_mac K (resp_meta (length (mac' @ enc'))) enc' (sc_mac_key ?sc) = Ok mac'" "length mac' = 16"
    "transmit_card R (kc_card kc) (serialize (c\<lparr>cmd_data := mac @ enc\<rparr>)) 1024 w = (Inr (mac' @ enc' @ [0x90, 0x00]), w')"
    "view w' = (view w)\<lparr>peer_iv := mac'\<rparr>"
    using assms(2) [unfolded honest_peer_def, rule_format, OF assms(4), of mac enc w] wrap(3,5) unfolding sync(3-5) by blast
  have "sc_unwrap K (?sc\<lparr>sc_iv := mac\<rparr>) (parse_response (mac' @ enc' @ [0x90, 0x00]))
      = Ok (?sc\<lparr>sc_iv := mac'\<rparr>, parse_response (answer w c))"
    using unwrap_answer [OF assms(1), of "?sc\<lparr>sc_iv := mac\<rparr>" "answer w c" enc' mac'] sync(2) wrap(5) card(1-3)
    by (simp add: sc_sized_def)
  then have "send_sc K R c (kc, w) = (Ok (parse_response (answer w c)), (kc\<lparr>kc_sc := ?sc\<lparr>sc_iv := mac'\<rparr>\<rparr>, w'))"
    using send_sc_open [OF sync(1) wrap(1) card(4)] by simp
  moreover have "in_sync (?sc\<lparr>sc_iv := mac'\<rparr>) (view w')"
    using sync card(3,5) by (simp add: in_sync_def sc_sized_def)
  ultimately show ?thesis by blast
qed


text \<open>
  C26. The secure channel is transparent: against a card that keeps its side, with both sides in
  sync, sending a command of up to 223 bytes returns exactly the answer of the card's application
  to that command, and both sides are in sync again; the client changes nothing but its vector.
\<close>

theorem secure_channel_transparent:
  assumes "aes_laws K" and "honest_peer K R (kc_card kc) view answer"
    and "in_sync (kc_sc kc) (view w)" and "secured c" and "length (cmd_data c) < 224"
  shows "\<exists>mac w'. send_sc K R c (kc, w)
      = (Ok (parse_response (answer w c)), (kc\<lparr>kc_sc := (kc_sc kc)\<lparr>sc_iv := mac\<rparr>\<rparr>, w'))
    \<and> in_sync ((kc_sc kc)\<lparr>sc_iv := mac\<rparr>) (view w')"
  by (rule send_sc_transparent [OF assms])

section \<open>Whatever the card\<close>

lemma status_bytes:
  fixes hi lo :: u8
  shows "ucast (push_bit 8 (ucast hi) OR ucast lo :: u16) = lo"
    "ucast (drop_bit 8 (push_bit 8 (ucast hi) OR ucast lo :: u16)) = hi"
  by (rule bit_word_eqI, auto simp: bit_simps dest: bit_imp_le_length)+

lemma parse_response_OK:
  assumes "sw (parse_response raw) = SW_OK"
  shows "raw = resp_data (parse_response raw) @ [0x90, 0x00]"
proof -
  have n: "2 \<le> length raw"
    using assms by (cases "length raw < 2") (auto simp: parse_response_def SW_OK_def Let_def)
  let ?d = "take (length raw - 2) raw" and ?hi = "raw ! (length raw - 2)" and ?lo = "raw ! (length raw - 1)"
  have "drop (length raw - 2) raw = [?hi, ?lo]"
    using n by (intro nth_equalityI) (auto simp: nth_Cons' Suc_diff_Suc numeral_2_eq_2 less_Suc_eq)
  then have raw: "raw = ?d @ [?hi, ?lo]" by (metis append_take_drop_id)
  have p: "parse_response raw = \<lparr>resp_data = ?d, sw = push_bit 8 (ucast ?hi) OR ucast ?lo\<rparr>"
    by (subst raw) (rule parse_response_append)
  have "?lo = ucast SW_OK" "?hi = ucast (drop_bit 8 SW_OK)"
    using assms status_bytes [of ?hi ?lo] by (simp_all add: p)
  then have "?lo = 0x00" "?hi = 0x90" by (simp_all add: SW_OK_def)
  with raw p show ?thesis by simp
qed

lemma map_sum_Inr [simp]: "map_sum f id x = Inr y \<longleftrightarrow> x = Inr y"
  by (cases x) auto

lemma sc_unwrap_inv:
  assumes "aes_laws K" "sc_sized sc" and "sc_unwrap K sc (parse_response raw) = Ok (sc', r)"
  obtains rmac rdata plain where "raw = rmac @ rdata @ [0x90, 0x00]" "16 dvd length rdata"
    "rmac = cbc_mac K (sc_mac_key sc) (resp_meta (length rdata + 16) @ rdata)"
    "decrypt_data K rdata (sc_enc_key sc) (sc_iv sc) = Ok plain"
    "sc' = sc\<lparr>sc_iv := rmac\<rparr>" "r = parse_response plain"
proof -
  let ?resp = "parse_response raw"
  from assms(3) have swok: "sw ?resp = SW_OK" by (simp add: sc_unwrap_def split: if_splits)
  let ?rmac = "take 16 (resp_data ?resp)" and ?rdata = "drop 16 (resp_data ?resp)"
  from assms(3) swok obtain plain where l: "length ?rmac = 16"
    and d: "decrypt_data K ?rdata (sc_enc_key sc) (sc_iv sc) = Ok plain"
    by (auto simp: sc_unwrap_def subslice_def outcome_simps split: if_splits)
  note whole = decrypt_whole [OF d]
  have "sc_unwrap K sc ?resp =
    (if cbc_mac K (sc_mac_key sc) (resp_meta (length ?rdata + 16) @ ?rdata) \<noteq> ?rmac then Err ''invalid response MAC''
     else Ok (sc\<lparr>sc_iv := ?rmac\<rparr>, parse_response plain))"
    by (rule sc_unwrap_mac [OF assms(1,2) _ l swok d whole]) simp
  with assms(3) have m: "?rmac = cbc_mac K (sc_mac_key sc) (resp_meta (length ?rdata + 16) @ ?rdata)"
    and r: "sc' = sc\<lparr>sc_iv := ?rmac\<rparr>" "r = parse_response plain" by (auto split: if_splits)
  show thesis
  proof (rule that [OF _ whole m d r])
    show "raw = ?rmac @ ?rdata @ [0x90, 0x00]"
      using parse_response_OK [OF swok] by (metis append.assoc append_take_drop_id)
  qed
qed

text \<open>
  C28. What the client accepts is authenticated, whatever the card sends: if a command on an open
  channel returns a response, then the client sent the encrypted command under its MAC, the card's
  reply ended in 9000, and its first sixteen bytes are the CBC-MAC, under the session's MAC key, of
  the reply's length and of all of its ciphertext; the response is the decryption of that ciphertext
  under the command's MAC, and the reply's MAC is the next vector.
\<close>

theorem send_sc_authentic:
  assumes "aes_laws K" and "sc_open (kc_sc kc)" and "sc_sized (kc_sc kc)"
    and "send_sc K R c (kc, w) = (Ok r, (kc', w'))"
  shows "\<exists>enc mac rmac rdata plain.
      decrypt_data K enc (sc_enc_key (kc_sc kc)) (sc_iv (kc_sc kc)) = Ok (cmd_data c)
    \<and> mac = cbc_mac K (sc_mac_key (kc_sc kc)) (cmd_meta c (length enc + 16) @ enc)
    \<and> transmit_card R (kc_card kc) (serialize (c\<lparr>cmd_data := mac @ enc\<rparr>)) 1024 w = (Inr (rmac @ rdata @ [0x90, 0x00]), w')
    \<and> rmac = cbc_mac K (sc_mac_key (kc_sc kc)) (resp_meta (length rdata + 16) @ rdata) \<and> 16 dvd length rdata
    \<and> decrypt_data K rdata (sc_enc_key (kc_sc kc)) mac = Ok plain \<and> r = parse_response plain
    \<and> kc' = kc\<lparr>kc_sc := (kc_sc kc)\<lparr>sc_iv := rmac\<rparr>\<rparr>"
proof -
  obtain enc mac where wrap: "sc_wrap K (kc_sc kc) c = Ok ((kc_sc kc)\<lparr>sc_iv := mac\<rparr>, c\<lparr>cmd_data := mac @ enc\<rparr>)"
    "decrypt_data K enc (sc_enc_key (kc_sc kc)) (sc_iv (kc_sc kc)) = Ok (cmd_data c)"
    "mac = cbc_mac K (sc_mac_key (kc_sc kc)) (cmd_meta c (length enc + 16) @ enc)" "length mac = 16"
    using sc_wrap_Ok [OF assms(1,3)] by blast
  obtain raw sc' where t: "transmit_card R (kc_card kc) (serialize (c\<lparr>cmd_data := mac @ enc\<rparr>)) 1024 w = (Inr raw, w')"
    and u: "sc_unwrap K ((kc_sc kc)\<lparr>sc_iv := mac\<rparr>) (parse_response raw) = Ok (sc', r)"
    and kc': "kc' = kc\<lparr>kc_sc := sc'\<rparr>"
    using assms(2,4) wrap(1)
    by (auto simp: send_sc_def set_kc_def transmit_def call_error_def act_then_def act_lift_def
        split: prod.splits sum.splits outcome.splits)
  have "sc_sized ((kc_sc kc)\<lparr>sc_iv := mac\<rparr>)" using assms(3) wrap(4) by (simp add: sc_sized_def)
  from sc_unwrap_inv [OF assms(1) this u] obtain rmac rdata plain where
    "raw = rmac @ rdata @ [0x90, 0x00]" "16 dvd length rdata"
    "rmac = cbc_mac K (sc_mac_key (kc_sc kc)) (resp_meta (length rdata + 16) @ rdata)"
    "decrypt_data K rdata (sc_enc_key (kc_sc kc)) mac = Ok plain"
    "sc' = (kc_sc kc)\<lparr>sc_iv := rmac\<rparr>" "r = parse_response plain" by auto
  with t kc' wrap(2,3) show ?thesis by blast
qed

end
