(* ===== verification/Card_Session.thy ===== *)
theory Card_Session
  imports Channel
begin

text \<open>
  The card client's state over its life: which operations keep it well formed, what every reachable
  state satisfies, and when a reply makes the client panic.
\<close>

section \<open>Actions that keep an invariant\<close>

text \<open>Every run of the action from a state with \<open>I\<close> ends in one, and a value it returns satisfies \<open>Q\<close>.\<close>

definition keeps :: "('s \<Rightarrow> bool) \<Rightarrow> ('s, 'e, 'a) action \<Rightarrow> ('a \<Rightarrow> bool) \<Rightarrow> bool" where
  "keeps I m Q \<longleftrightarrow> (\<forall>s r s'. I s \<longrightarrow> m s = (r, s') \<longrightarrow> I s' \<and> (\<forall>v. r = Ok v \<longrightarrow> Q v))"

lemma keeps_then:
  "keeps I m P \<Longrightarrow> (\<And>v. P v \<Longrightarrow> keeps I (k v) Q) \<Longrightarrow> keeps I (act_then m k) Q"
  unfolding keeps_def by (intro allI impI) (erule act_then_cases; blast)

lemma keeps_then_any: "keeps I m (\<lambda>_. True) \<Longrightarrow> (\<And>v. keeps I (k v) Q) \<Longrightarrow> keeps I (act_then m k) Q"
  by (rule keeps_then)

lemma keeps_lift: "(\<And>v. m = Ok v \<Longrightarrow> Q v) \<Longrightarrow> keeps I (act_lift m) Q"
  by (auto simp: keeps_def)

lemma keeps_lift_then: "(\<And>v. m = Ok v \<Longrightarrow> keeps I (k v) Q) \<Longrightarrow> keeps I (act_then (act_lift m) k) Q"
  by (rule keeps_then [OF keeps_lift]) auto

lemma keeps_lift_any: "keeps I (act_lift m) (\<lambda>_. True)"
  by (simp add: keeps_lift)

section \<open>Well-formed clients\<close>

text \<open>The arrays have their sizes, a pairing key is a digest, an uninitialised card has no instance
  identifier, and the handles are those of the connection.\<close>

definition kc_ok :: "'ctx \<Rightarrow> 'card \<Rightarrow> ('ctx, 'card) keycard \<Rightarrow> bool" where
  "kc_ok x h kc \<longleftrightarrow> sc_sized (kc_sc kc) \<and> pairing_key kc \<in> {[]} \<union> {k. length k = 32}
     \<and> (\<not> initialized kc \<longrightarrow> instance_uid kc = []) \<and> kc_ctx kc = x \<and> kc_card kc = h"

definition kc_wf :: "'ctx \<Rightarrow> 'card \<Rightarrow> ('ctx, 'card) keycard \<times> 'w \<Rightarrow> bool" where
  "kc_wf x h = (\<lambda>(kc, w). kc_ok x h kc)"

lemma keeps_set_kc: "(\<And>kc. kc_ok x h kc \<Longrightarrow> kc_ok x h (f kc)) \<Longrightarrow> keeps (kc_wf x h) (set_kc f) (\<lambda>_. True)"
  by (auto simp: keeps_def set_kc_def kc_wf_def)

lemma keeps_transmit: "keeps (kc_wf x h) (transmit R c) (\<lambda>_. True)"
  by (auto simp: keeps_def transmit_def kc_wf_def split: prod.splits sum.splits)

lemma keeps_draw: "keeps (kc_wf x h) (draw_bytes K n) (\<lambda>_. True)"
  by (auto simp: keeps_def draw_bytes_def kc_wf_def split: prod.splits)

lemma sc_unwrap_sized:
  assumes "aes_laws K" "sc_sized sc" "sc_unwrap K sc (parse_response raw) = Ok (sc', r)"
  shows "sc_sized sc'"
proof -
  obtain rmac rdata plain where "16 dvd length rdata"
    "rmac = cbc_mac K (sc_mac_key sc) (resp_meta (length rdata + 16) @ rdata)" "sc' = sc\<lparr>sc_iv := rmac\<rparr>"
    using sc_unwrap_inv [OF assms] by metis
  then show ?thesis using assms(1,2) length_cbc_mac [OF assms(1)] by (simp add: sc_sized_def)
qed

lemma keeps_send_sc:
  assumes "aes_laws K"
  shows "keeps (kc_wf x h) (send_sc K R c) (\<lambda>_. True)"
proof -
  have "kc_wf x h (kc', w')" if wf: "kc_wf x h (kc, w)" and run: "send_sc K R c (kc, w) = (r, (kc', w'))" for kc w r kc' w'
  proof (cases "sc_open (kc_sc kc)")
    case False
    with wf run keeps_transmit [of x h R c] show ?thesis unfolding keeps_def send_sc_def by auto
  next
    case True
    from wf have sized: "sc_sized (kc_sc kc)" by (simp add: kc_wf_def kc_ok_def)
    obtain enc mac where wrap: "sc_wrap K (kc_sc kc) c = Ok ((kc_sc kc)\<lparr>sc_iv := mac\<rparr>, c\<lparr>cmd_data := mac @ enc\<rparr>)"
      "length mac = 16" using sc_wrap_Ok [OF assms sized] by blast
    then have sized': "sc_sized ((kc_sc kc)\<lparr>sc_iv := mac\<rparr>)" using sized by (simp add: sc_sized_def)
    show ?thesis
      using wf run True wrap(1) sc_unwrap_sized [OF assms sized'] sized'
      by (auto simp: send_sc_def set_kc_def transmit_def call_error_def act_then_def act_lift_def kc_wf_def kc_ok_def
          split: prod.splits sum.splits outcome.splits)
  qed
  then show ?thesis by (auto simp: keeps_def)
qed


section \<open>The operations\<close>

lemma keeps_if:
  "(b \<Longrightarrow> keeps I m Q) \<Longrightarrow> (\<not> b \<Longrightarrow> keeps I n Q) \<Longrightarrow> keeps I (if b then m else n) Q"
  by simp

lemma keeps_set_sc:
  "(\<And>sc. sc_sized sc \<Longrightarrow> sc_sized (f sc)) \<Longrightarrow> keeps (kc_wf x h) (set_kc (\<lambda>kc. kc\<lparr>kc_sc := f (kc_sc kc)\<rparr>)) (\<lambda>_. True)"
  by (rule keeps_set_kc) (simp add: kc_ok_def)

lemma keeps_set_flags:
  "keeps (kc_wf x h) (set_kc (\<lambda>kc. kc\<lparr>initialized := False, instance_uid := []\<rparr>)) (\<lambda>_. True)"
  "keeps (kc_wf x h) (set_kc (\<lambda>kc. kc\<lparr>initialized := True\<rparr>)) (\<lambda>_. True)"
  "keeps (kc_wf x h) (set_kc (\<lambda>kc. kc\<lparr>pairing_index := i\<rparr>)) (\<lambda>_. True)"
  by (rule keeps_set_kc, simp add: kc_ok_def)+

lemma keeps_ecdh_then:
  assumes "\<And>secret eph. length secret = 32 \<Longrightarrow> keeps (kc_wf x h) (k (secret, eph)) Q"
  shows "keeps (kc_wf x h) (act_then (\<lambda>(kc, w). case ecdh_generate K p w of (r, w') \<Rightarrow> (r, (kc, w'))) k) Q"
proof (rule keeps_then [where P = "\<lambda>(secret, _). length secret = 32"])
  show "keeps (kc_wf x h) (\<lambda>(kc, w). case ecdh_generate K p w of (r, w') \<Rightarrow> (r, (kc, w'))) (\<lambda>(secret, _). length secret = 32)"
    by (auto simp: keeps_def kc_wf_def ecdh_generate_def Let_def split: prod.splits sum.splits if_splits)
qed (use assms in auto)

lemma set_kc_then [simp]: "act_then (set_kc f) k (kc, w) = k () (f kc, w)"
  by (simp add: set_kc_def act_then_def)

lemma keeps_flag_then:
  assumes "keeps (\<lambda>(kc, w). kc_ok x h kc \<and> initialized kc) m Q"
  shows "keeps (kc_wf x h) (act_then (set_kc (\<lambda>kc. kc\<lparr>initialized := True\<rparr>)) (\<lambda>_. m)) Q"
  unfolding keeps_def
proof (intro allI impI)
  fix s r s'
  assume wf: "kc_wf x h s" and run: "act_then (set_kc (\<lambda>kc. kc\<lparr>initialized := True\<rparr>)) (\<lambda>_. m) s = (r, s')"
  obtain kc w where s: "s = (kc, w)" by fastforce
  have "kc_ok x h (kc\<lparr>initialized := True\<rparr>)" using wf s by (simp add: kc_wf_def kc_ok_def)
  with run s assms [unfolded keeps_def, rule_format, of "(kc\<lparr>initialized := True\<rparr>, w)" r s']
  show "kc_wf x h s' \<and> (\<forall>v. r = Ok v \<longrightarrow> Q v)" by (auto simp: kc_wf_def)
qed

lemmas keeps_rules = keeps_lift_then keeps_ecdh_then keeps_flag_then keeps_if keeps_then_any keeps_lift_any
  keeps_set_flags keeps_transmit keeps_draw

lemma keeps_set_uid:
  "keeps (\<lambda>(kc, w). kc_ok x h kc \<and> initialized kc) (set_kc (\<lambda>kc. kc\<lparr>instance_uid := uid\<rparr>)) (\<lambda>_. True)"
  by (auto simp: keeps_def kc_ok_def set_kc_def)

lemma keeps_select: "keeps (kc_wf x h) (select K R) (\<lambda>_. True)"
  unfolding select_def
  by (rule keeps_rules keeps_set_uid keeps_set_sc
      | simp add: sc_sized_def split: prod.split)+

lemma keeps_pairing_key: "length k = 32 \<Longrightarrow> keeps (kc_wf x h) (set_kc (\<lambda>kc. kc\<lparr>pairing_key := k\<rparr>)) (\<lambda>_. True)"
  by (rule keeps_set_kc) (simp add: kc_ok_def)

lemma keeps_pair: "suite_laws K \<Longrightarrow> keeps (kc_wf x h) (pair K R pass) (\<lambda>_. True)"
  unfolding pair_def Let_def
  by (rule keeps_rules keeps_pairing_key | simp add: suite_laws_def sha256_parts_def)+

lemma derive_sized:
  assumes "suite_laws K" "derive_session_keys K s p d = Ok (enc, mac, iv)"
  shows "length enc = 32 \<and> length mac = 32 \<and> length iv = 16"
proof -
  have "length (sha2_512 K x) = 64" for x using assms(1) by (simp add: suite_laws_def)
  with assms(2) show ?thesis
    by (auto simp: derive_session_keys_def subslice_def outcome_simps Let_def split: if_splits)
qed

lemma keeps_pointwise:
  "(\<And>kc w. keeps I (m kc w) Q) \<Longrightarrow> keeps I (\<lambda>(kc, w). m kc w (kc, w)) Q"
  by (auto simp: keeps_def)

lemma keeps_open:
  assumes "suite_laws K"
  shows "keeps (kc_wf x h) (open_secure_channel K R) (\<lambda>_. True)"
proof -
  have aes: "aes_laws K" using assms by (simp add: suite_laws_def)
  show ?thesis
    unfolding open_secure_channel_def
    by (rule keeps_pointwise)
      (rule keeps_rules keeps_set_sc keeps_send_sc [OF aes]
        | use derive_sized [OF assms] in \<open>auto simp: sc_sized_def split: prod.split\<close>)+
qed

lemma keeps_commands:
  assumes "aes_laws K"
  shows "keeps (kc_wf x h) (verify_pin K R pin) (\<lambda>_. True)" "keeps (kc_wf x h) (export_key K R path) (\<lambda>_. True)"
    "keeps (kc_wf x h) (identify K R ch) (\<lambda>_. True)" "keeps (kc_wf x h) (unpair K R i) (\<lambda>_. True)"
  unfolding verify_pin_def export_key_def identify_def unpair_def
  by (rule keeps_rules keeps_send_sc [OF assms])+


section \<open>Reachable states\<close>

text \<open>One operation of the client, in any order and any number of times; a panic or a call that never
  returns ends the run.\<close>

definition alive :: "('e, 'a) outcome \<Rightarrow> bool" where
  "alive r \<longleftrightarrow> r \<noteq> Panic \<and> r \<noteq> Diverge"

inductive kc_step ::
  "('w, 'sk, 'pk) suite \<Rightarrow> ('w, 'ctx, 'card) pcsc \<Rightarrow> ('ctx, 'card) keycard \<times> 'w \<Rightarrow> ('ctx, 'card) keycard \<times> 'w \<Rightarrow> bool"
  for K R where
  Select: "select K R s = (r, s') \<Longrightarrow> alive r \<Longrightarrow> kc_step K R s s'"
| Pair: "pair K R pass s = (r, s') \<Longrightarrow> alive r \<Longrightarrow> kc_step K R s s'"
| Open: "open_secure_channel K R s = (r, s') \<Longrightarrow> alive r \<Longrightarrow> kc_step K R s s'"
| Verify_pin: "verify_pin K R pin s = (r, s') \<Longrightarrow> alive r \<Longrightarrow> kc_step K R s s'"
| Export_key: "export_key K R path s = (rb, s') \<Longrightarrow> alive rb \<Longrightarrow> kc_step K R s s'"
| Identify: "identify K R challenge s = (rb, s') \<Longrightarrow> alive rb \<Longrightarrow> kc_step K R s s'"
| Unpair: "unpair K R i s = (r, s') \<Longrightarrow> alive r \<Longrightarrow> kc_step K R s s'"

lemma keepsD: "keeps I m Q \<Longrightarrow> m s = (r, s') \<Longrightarrow> I s \<Longrightarrow> I s'"
  unfolding keeps_def by blast

lemma kc_step_wf:
  assumes "kc_step K R s s'" and laws: "suite_laws K" and "kc_wf x h s"
  shows "kc_wf x h s'"
proof -
  have aes: "aes_laws K" using laws by (simp add: suite_laws_def)
  note ops = keepsD [OF keeps_select] keepsD [OF keeps_pair [OF laws]] keepsD [OF keeps_open [OF laws]]
    keepsD [OF keeps_commands(1) [OF aes]] keepsD [OF keeps_commands(2) [OF aes]]
    keepsD [OF keeps_commands(3) [OF aes]] keepsD [OF keeps_commands(4) [OF aes]]
  show ?thesis using assms(1,3) by (induction rule: kc_step.induct) (erule (1) ops)+
qed

lemma connect_wf: "connect R w = (Inr kc, w') \<Longrightarrow> kc_ok (kc_ctx kc) (kc_card kc) kc"
  by (auto simp: connect_def call_then_def kc_ok_def sc_sized_def split: prod.splits sum.splits)

text \<open>
  C29. The client's state stays well formed: whatever sequence of operations follows a successful
  connection, and whatever the card answers, the keys and the vector keep their sizes, a pairing key
  is absent or a digest, a card that is not initialised has no instance identifier, the client still
  holds the handles it connected with, and it can always encrypt and authenticate the next command.
\<close>

theorem card_state_invariant:
  assumes "suite_laws K" and "connect R w0 = (Inr kc0, w1)" and "(kc_step K R)\<^sup>*\<^sup>* (kc0, w1) (kc, w)"
  shows "sc_sized (kc_sc kc) \<and> pairing_key kc \<in> {[]} \<union> {k. length k = 32}
    \<and> (initialized kc \<or> instance_uid kc = [])
    \<and> kc_ctx kc = kc_ctx kc0 \<and> kc_card kc = kc_card kc0
    \<and> (\<exists>sc' c'. sc_wrap K (kc_sc kc) c = Ok (sc', c'))"
proof -
  have "kc_wf (kc_ctx kc0) (kc_card kc0) (kc, w)"
    using assms(3)
  proof (induction "(kc, w)" arbitrary: kc w rule: rtranclp_induct)
    case base
    show ?case using connect_wf [OF assms(2)] by (simp add: kc_wf_def)
  next
    case (step y)
    obtain kc' w' where y: "y = (kc', w')" by fastforce
    from step(2) have "kc_step K R (kc', w') (kc, w)" unfolding y .
    then show ?case by (rule kc_step_wf [OF _ assms(1) step(3) [OF y]])
  qed
  then have ok: "kc_ok (kc_ctx kc0) (kc_card kc0) kc" by (simp add: kc_wf_def)
  have "aes_laws K" "sc_sized (kc_sc kc)" using assms(1) ok by (simp_all add: suite_laws_def kc_ok_def)
  from sc_wrap_Ok [OF this] have "\<exists>sc' c'. sc_wrap K (kc_sc kc) c = Ok (sc', c')" by blast
  with ok show ?thesis by (auto simp: kc_ok_def)
qed

section \<open>When a reply is fatal\<close>

lemma decrypt_Panic_iff:
  assumes "aes_laws K" "length key = 32" "length iv = 16"
  shows "decrypt_data K data key iv = Panic \<longleftrightarrow> \<not> 16 dvd length data"
proof -
  have "cbc_decrypt_blocks K key prev (chunks16 data) = Panic \<longleftrightarrow> \<not> 16 dvd length data" if "length prev = 16" for prev data
    using that
  proof (induction data arbitrary: prev rule: chunks16.induct)
    case (1 data)
    show ?case
    proof (cases "data = []")
      case False
      show ?thesis
      proof (cases "length (take 16 data) = 16")
        case True
        then have "length (aes_dec K key (take 16 data)) = 16" using assms(1,2) by (simp add: aes_laws_def)
        moreover have "length data = 16 + length (drop 16 data)" using True by simp
        then have "16 dvd length data \<longleftrightarrow> 16 dvd length (drop 16 data)" by (metis dvd_add_triv_left_iff)
        ultimately show ?thesis
          using "1.IH" [OF False True] True "1.prems" False
          by (simp add: chunks16.simps [of data] outcome_simps del: length_take length_drop)
      next
        case short: False
        then have "\<not> 16 dvd length data" using False by (auto dest: dvd_imp_le)
        with short False show ?thesis by (simp add: chunks16.simps [of data] del: length_take)
      qed
    qed simp
  qed
  with assms show ?thesis by (simp add: decrypt_data_def cbc_decrypt_raw_def outcome_simps)
qed

lemma decrypt_returns [simp]: "decrypt_data K data key iv \<noteq> Diverge"
proof -
  have "cbc_decrypt_blocks K key prev bs \<noteq> Diverge" for prev bs
    by (induction bs arbitrary: prev) (auto simp: outcome_simps xor16_def)
  then show ?thesis by (simp add: decrypt_data_def cbc_decrypt_raw_def outcome_simps)
qed

text \<open>
  C36. Which replies make the client panic: on an open channel, a reply with status 9000 aborts the
  process exactly when it carries fewer than sixteen bytes or its ciphertext is not whole blocks; no
  reply makes the channel run forever.
\<close>

theorem send_sc_panics_iff:
  assumes "aes_laws K" and "sc_open (kc_sc kc)" and "sc_sized (kc_sc kc)"
    and "\<And>raw. transmit_card R (kc_card kc) raw 1024 w = (Inr (d @ [0x90, 0x00]), w')"
  shows "(fst (send_sc K R c (kc, w)) = Panic \<longleftrightarrow> length d < 16 \<or> \<not> 16 dvd length d)
    \<and> fst (send_sc K R c (kc, w)) \<noteq> Diverge"
proof -
  obtain enc mac where wrap: "sc_wrap K (kc_sc kc) c = Ok ((kc_sc kc)\<lparr>sc_iv := mac\<rparr>, c\<lparr>cmd_data := mac @ enc\<rparr>)"
    "length mac = 16" using sc_wrap_Ok [OF assms(1,3)] by blast
  let ?sc = "(kc_sc kc)\<lparr>sc_iv := mac\<rparr>" and ?resp = "\<lparr>resp_data = d, sw = SW_OK\<rparr> :: response"
  have resp: "parse_response (d @ [0x90, 0x00]) = ?resp" by (simp only: parse_response_append ok_status)
  have "fst (send_sc K R c (kc, w)) = Panic \<longleftrightarrow> sc_unwrap K ?sc ?resp = Panic"
    "fst (send_sc K R c (kc, w)) = Diverge \<longleftrightarrow> sc_unwrap K ?sc ?resp = Diverge"
    using assms(2,4) wrap(1) resp
    by (cases "sc_unwrap K ?sc ?resp", auto simp: send_sc_def set_kc_def transmit_def call_error_def act_then_def act_lift_def)+
  moreover have mac: "calculate_mac K m x (sc_mac_key ?sc) \<notin> {Panic, Diverge}" if "length m = 16" for m x
    using calculate_mac_Ok [OF assms(1) _ that] assms(3) by (simp add: sc_sized_def)
  have "sc_unwrap K ?sc ?resp = Panic \<longleftrightarrow> length d < 16 \<or> decrypt_data K (drop 16 d) (sc_enc_key ?sc) mac = Panic"
    using mac [of "of_nat (length d) # replicate 15 0" "drop 16 d"]
    by (auto simp: sc_unwrap_def subslice_def outcome_simps Let_def split: if_splits)
  moreover have "decrypt_data K (drop 16 d) (sc_enc_key ?sc) mac = Panic \<longleftrightarrow> \<not> 16 dvd length (drop 16 d)"
    by (rule decrypt_Panic_iff [OF assms(1)]) (use assms(3) wrap(2) in \<open>simp_all add: sc_sized_def\<close>)
  moreover have "16 \<le> length d \<Longrightarrow> 16 dvd length (drop 16 d) \<longleftrightarrow> 16 dvd length d"
    by (simp add: dvd_minus_self)
  moreover have "sc_unwrap K ?sc ?resp \<noteq> Diverge"
    using mac [of "of_nat (length d) # replicate 15 0" "drop 16 d"]
    by (auto simp: sc_unwrap_def subslice_def outcome_simps Let_def decrypt_returns split: if_splits)
  ultimately show ?thesis by auto
qed

end
