(* ===== verification/Card_Pairing.thy ===== *)
theory Card_Pairing
  imports Card_Session
begin

text \<open>
  Pairing and the opening of a session, against a card that follows the Keycard protocol and knows
  the pairing password: both succeed, and client and card end with the same session keys.
\<close>

section \<open>The card's side\<close>

text \<open>
  PAIR: the card proves that it knows the pairing secret by a digest over the client's challenge,
  asks for the same over its own, and then names a slot and a salt; the slot's key is the digest of
  secret and salt (\<open>slots\<close>).
\<close>

definition pairing_card ::
  "('w, 'sk, 'pk) suite \<Rightarrow> ('w, 'ctx, 'card) pcsc \<Rightarrow> 'card \<Rightarrow> string \<Rightarrow> ('w \<Rightarrow> u8 \<Rightarrow> bytes option) \<Rightarrow> bool" where
  "pairing_card K R h pass slots \<longleftrightarrow>
     (\<forall>w challenge. length challenge = 32 \<longrightarrow>
       (\<exists>card_challenge w1 slot salt w2. length card_challenge = 32
        \<and> transmit_card R h (serialize (new_command CLA_GP INS_PAIR P1_PAIR_FIRST 0 challenge)) 1024 w
            = (Inr (sha2_256 K (pairing_secret_hash K pass @ challenge) @ card_challenge @ [0x90, 0x00]), w1)
        \<and> transmit_card R h (serialize (new_command CLA_GP INS_PAIR P1_PAIR_FINAL 0
              (sha2_256 K (pairing_secret_hash K pass @ card_challenge)))) 1024 w1
            = (Inr (slot # salt @ [0x90, 0x00]), w2)
        \<and> slots w2 slot = Some (sha2_256 K (pairing_secret_hash K pass @ salt))))"

text \<open>
  OPEN SECURE CHANNEL: the card derives the session keys from the secret it shares with the client's
  ephemeral key (\<open>shared\<close>), the slot's key and a fresh salt, which it sends with the first vector.
\<close>

definition opening_card ::
  "('w, 'sk, 'pk) suite \<Rightarrow> ('w, 'ctx, 'card) pcsc \<Rightarrow> 'card \<Rightarrow> ('w \<Rightarrow> peer) \<Rightarrow> ('w \<Rightarrow> u8 \<Rightarrow> bytes option)
     \<Rightarrow> (bytes \<Rightarrow> bytes) \<Rightarrow> bool" where
  "opening_card K R h view slots shared \<longleftrightarrow>
     (\<forall>w slot key eph. slots w slot = Some key \<longrightarrow>
       (\<exists>salt iv w'. length salt = 32 \<and> length iv = 16
        \<and> transmit_card R h (serialize (new_command CLA_GP INS_OPEN_SECURE_CHANNEL slot 0 eph)) 1024 w
            = (Inr (salt @ iv @ [0x90, 0x00]), w')
        \<and> view w' = \<lparr>peer_enc = take 32 (sha2_512 K (shared eph @ key @ salt)),
                     peer_mac = drop 32 (sha2_512 K (shared eph @ key @ salt)), peer_iv = iv\<rparr>))"

text \<open>MUTUALLY AUTHENTICATE is accepted, and the client's random generator is not part of the card.\<close>

definition accepting_card :: "('w, 'sk, 'pk) suite \<Rightarrow> ('w \<Rightarrow> peer) \<Rightarrow> ('w \<Rightarrow> command \<Rightarrow> bytes) \<Rightarrow> bool" where
  "accepting_card K view answer \<longleftrightarrow>
     (\<forall>w data. \<exists>r. answer w (new_command CLA_GP INS_MUTUALLY_AUTHENTICATE 0 0 data) = r @ [0x90, 0x00])
   \<and> (\<forall>w n. view (snd (fill_bytes K n w)) = view w)"

section \<open>Pairing and opening\<close>

lemma transmit_ok:
  assumes "transmit_card R (kc_card kc) (serialize c) 1024 w = (Inr (d @ [0x90, 0x00]), w')"
  shows "transmit R c (kc, w) = (Ok \<lparr>resp_data = d, sw = SW_OK\<rparr>, (kc, w'))"
  using assms by (simp add: transmit_def call_error_def SW_OK_def)

lemma pair_succeeds:
  assumes "suite_laws K" and "pairing_card K R (kc_card kc) pass slots"
  shows "\<exists>slot key w'. pair K R pass (kc, w) = (Ok (), (kc\<lparr>pairing_index := slot, pairing_key := key\<rparr>, w'))
    \<and> slots w' slot = Some key"
proof -
  obtain challenge w0 where draw: "fill_bytes K 32 w = (challenge, w0)" by fastforce
  then have len: "length challenge = 32" using assms(1) unfolding suite_laws_def by (metis fst_conv)
  let ?hash = "pairing_secret_hash K pass"
  obtain card_challenge w1 slot salt w2 where card: "length card_challenge = 32"
    "transmit_card R (kc_card kc) (serialize (new_command CLA_GP INS_PAIR P1_PAIR_FIRST 0 challenge)) 1024 w0
      = (Inr ((sha2_256 K (?hash @ challenge) @ card_challenge) @ [0x90, 0x00]), w1)"
    "transmit_card R (kc_card kc) (serialize (new_command CLA_GP INS_PAIR P1_PAIR_FINAL 0
        (sha2_256 K (?hash @ card_challenge)))) 1024 w1 = (Inr ((slot # salt) @ [0x90, 0x00]), w2)"
    "slots w2 slot = Some (sha2_256 K (?hash @ salt))"
    using assms(2) len unfolding pairing_card_def by fastforce
  have "length (sha2_256 K x) = 32" for x using assms(1) by (simp add: suite_laws_def)
  with draw card(1) transmit_ok [OF card(2)] transmit_ok [OF card(3)]
  have "pair K R pass (kc, w) = (Ok (), (kc\<lparr>pairing_index := slot, pairing_key := sha2_256 K (?hash @ salt)\<rparr>, w2))"
    by (simp add: pair_def draw_bytes_def act_then_def act_lift_def set_kc_def check_sw_def subslice_def index_def
        sha256_parts_def SW_OK_def Let_def)
  with card(4) show ?thesis by blast
qed

lemma open_succeeds:
  assumes "suite_laws K" and "honest_peer K R (kc_card kc) view answer" and "opening_card K R (kc_card kc) view slots shared"
    and "accepting_card K view answer" and "slots w (pairing_index kc) = Some (pairing_key kc)"
    and "sc_secret (kc_sc kc) = shared (sc_eph_pub (kc_sc kc))" and "length (sc_secret (kc_sc kc)) = 32"
  shows "\<exists>kc' w'. open_secure_channel K R (kc, w) = (Ok (), (kc', w')) \<and> in_sync (kc_sc kc') (view w')"
proof -
  let ?eph = "sc_eph_pub (kc_sc kc)" and ?open = "\<lambda>s. new_command CLA_GP INS_OPEN_SECURE_CHANNEL (pairing_index kc) 0 s"
  obtain salt iv w1 where card: "length salt = 32" "length iv = 16"
    "transmit_card R (kc_card kc) (serialize (?open ?eph)) 1024 w = (Inr ((salt @ iv) @ [0x90, 0x00]), w1)"
    "view w1 = \<lparr>peer_enc = take 32 (sha2_512 K (shared ?eph @ pairing_key kc @ salt)),
                peer_mac = drop 32 (sha2_512 K (shared ?eph @ pairing_key kc @ salt)), peer_iv = iv\<rparr>"
    using assms(3,5) unfolding opening_card_def by fastforce
  let ?d = "sha2_512 K (sc_secret (kc_sc kc) @ pairing_key kc @ salt)"
  have d: "length ?d = 64" using assms(1) by (simp add: suite_laws_def)
  have keys: "derive_session_keys K (sc_secret (kc_sc kc)) (pairing_key kc) (salt @ iv) = Ok (take 32 ?d, drop 32 ?d, iv)"
    using card(1,2) d by (simp add: derive_session_keys_def subslice_def Let_def)
  let ?kc = "kc\<lparr>kc_sc := (kc_sc kc)\<lparr>sc_enc_key := take 32 ?d, sc_mac_key := drop 32 ?d, sc_iv := iv, sc_open := True\<rparr>\<rparr>"
  obtain data w2 where draw: "fill_bytes K 32 w1 = (data, w2)" by fastforce
  then have len: "length data = 32" and v2: "view w2 = view w1"
    using assms(1,4) unfolding suite_laws_def accepting_card_def by (metis fst_conv, metis snd_conv)
  let ?c = "new_command CLA_GP INS_MUTUALLY_AUTHENTICATE 0 0 data"
  have sync: "in_sync (kc_sc ?kc) (view w2)"
    using card(2,4) v2 d assms(6,7) by (simp add: in_sync_def sc_sized_def)
  have "aes_laws K" using assms(1) by (simp add: suite_laws_def)
  moreover have "secured ?c" by (simp add: secured_def new_command_def INS_MUTUALLY_AUTHENTICATE_def INS_SELECT_def
        INS_PAIR_def INS_OPEN_SECURE_CHANNEL_def)
  ultimately obtain mac w3 where send: "send_sc K R ?c (?kc, w2)
      = (Ok (parse_response (answer w2 ?c)), (?kc\<lparr>kc_sc := (kc_sc ?kc)\<lparr>sc_iv := mac\<rparr>\<rparr>, w3))"
    "in_sync ((kc_sc ?kc)\<lparr>sc_iv := mac\<rparr>) (view w3)"
    using send_sc_transparent [of K R ?kc view answer w2 ?c] assms(2) sync len by (auto simp: new_command_def)
  obtain r where "answer w2 ?c = r @ [0x90, 0x00]" using assms(4) unfolding accepting_card_def by blast
  then have "sw (parse_response (answer w2 ?c)) = SW_OK" by (simp only: parse_response_append ok_status) simp
  then have "open_secure_channel K R (kc, w) = (Ok (), (?kc\<lparr>kc_sc := (kc_sc ?kc)\<lparr>sc_iv := mac\<rparr>\<rparr>, w3))"
    using transmit_ok [OF card(3)] keys draw send(1)
    by (simp add: open_secure_channel_def draw_bytes_def act_then_def act_lift_def set_kc_def check_sw_def)
  with send(2) show ?thesis by fastforce
qed


text \<open>
  C27. A session with a genuine card comes up: on a card that follows the protocol and knows the
  pairing password, with the secret agreed at SELECT, \<open>pair\<close> succeeds, \<open>open_secure_channel\<close> then
  succeeds, and afterwards the channel is open and in sync: client and card hold the same session
  keys and the same vector, so every further command travels transparently.
\<close>

theorem session_established:
  assumes "suite_laws K" and "honest_peer K R (kc_card kc) view answer"
    and "pairing_card K R (kc_card kc) pass slots" and "opening_card K R (kc_card kc) view slots shared"
    and "accepting_card K view answer"
    and "sc_secret (kc_sc kc) = shared (sc_eph_pub (kc_sc kc))" and "length (sc_secret (kc_sc kc)) = 32"
  shows "\<exists>kc1 w1 kc2 w2. pair K R pass (kc, w) = (Ok (), (kc1, w1))
    \<and> open_secure_channel K R (kc1, w1) = (Ok (), (kc2, w2)) \<and> in_sync (kc_sc kc2) (view w2)"
proof -
  obtain slot key w1 where p: "pair K R pass (kc, w) = (Ok (), (kc\<lparr>pairing_index := slot, pairing_key := key\<rparr>, w1))"
    "slots w1 slot = Some key" using pair_succeeds [OF assms(1,3)] by blast
  obtain kc2 w2 where "open_secure_channel K R (kc\<lparr>pairing_index := slot, pairing_key := key\<rparr>, w1) = (Ok (), (kc2, w2))"
    "in_sync (kc_sc kc2) (view w2)"
    using open_succeeds [of K R "kc\<lparr>pairing_index := slot, pairing_key := key\<rparr>" view answer slots shared w1] assms p(2) by auto
  with p(1) show ?thesis by blast
qed

end
