(* ===== verification/Keycard_Capture.thy ===== *)
theory Keycard_Capture
  imports Card_Session Keycard_Auth
begin

text \<open>
  The capture module, \<open>rust/keycard-capture-module/rust-lib/src/lib.rs\<close>: it drives the card and hands
  out an attestation bound to the requested commitment. The theory closes the loop of the keycard
  vector: what this half produces, the verifying half accepts.
\<close>

section \<open>The module\<close>

definition parse_hex32 :: "crates \<Rightarrow> string \<Rightarrow> string \<Rightarrow> string + bytes" where
  "parse_hex32 C field val =
     (case hex_dec C (trim_0x val) of
        Inr b \<Rightarrow> if length b = 32 then Inr b else Inl (field @ '' must be 64 hex chars'')
      | Inl _ \<Rightarrow> Inl (field @ '' must be 64 hex chars''))"

definition attest_card ::
  "('w, 'sk, 'pk) suite \<Rightarrow> ('w, 'ctx, 'card) pcsc \<Rightarrow> ('sig, 'vk) crypto \<Rightarrow> bytes \<Rightarrow> ('w, 'ctx, 'card, bytes) kc_action" where
  "attest_card K R E challenge =
     act_then (select K R) (\<lambda>_.
     act_then (\<lambda>(kc, w). (if \<not> initialized kc then Err ''card is not initialized'' else Ok (), (kc, w))) (\<lambda>_.
     act_then (identify K R challenge) (\<lambda>payload.
     act_then (act_lift (map_err (\<lambda>e. ''parse attestation: '' @ attest_error_text e)
                 (of_sum (parse_attestation E payload)))) (\<lambda>att.
     act_then (act_lift (map_err (\<lambda>e. ''attestation not verified: '' @ attest_error_text e)
                 (of_sum (verify_attestation E att [STATUS_PRODUCTION_CA] challenge)))) (\<lambda>_.
       act_lift (Ok payload))))))"

definition capture_produce ::
  "('w, 'sk, 'pk) suite \<Rightarrow> ('w, 'ctx, 'card) pcsc \<Rightarrow> ('sig, 'vk) crypto \<Rightarrow> crates \<Rightarrow>
     produce_request \<Rightarrow> ('w, string, produce_reply) action" where
  "capture_produce K R E C req =
     act_then (act_lift (of_sum (parse_hex32 C ''id_commitment_hex'' (pr_id_commitment_hex req)))) (\<lambda>idc_bytes.
       let challenge = bound_challenge E idc_bytes in
       act_then (act_call (connect R)) (\<lambda>kc w.
         case attest_card K R E challenge (kc, w) of
           (Ok payload, (kc', w')) \<Rightarrow> (Ok \<lparr>rp_payload_hex = hex_enc C payload\<rparr>, drop_keycard R kc' w')
         | (Err e, (kc', w')) \<Rightarrow> (Err e, drop_keycard R kc' w')
         | (Panic, (kc', w')) \<Rightarrow> (Panic, w')
         | (Diverge, (kc', w')) \<Rightarrow> (Diverge, w')))"

definition keycard_capture_vector ::
  "('w, 'sk, 'pk) suite \<Rightarrow> ('w, 'ctx, 'card) pcsc \<Rightarrow> ('sig, 'vk) crypto \<Rightarrow> crates \<Rightarrow> 'w auth_vector" where
  "keycard_capture_vector K R E C =
     \<lparr>av_auth_type = KEYCARD_ATTEST_AUTH_TYPE, av_produce = capture_produce K R E C,
      av_verify = default_verify KEYCARD_ATTEST_AUTH_TYPE\<rparr>"

definition capture_produce_auth ::
  "('w, 'sk, 'pk) suite \<Rightarrow> ('w, 'ctx, 'card) pcsc \<Rightarrow> ('sig, 'vk) crypto \<Rightarrow> crates \<Rightarrow> string \<Rightarrow> ('w, unit, string) action" where
  "capture_produce_auth K R E C args_json = dispatch_produce C args_json [keycard_capture_vector K R E C]"

definition card_status_impl :: "('w, 'ctx, 'card) pcsc \<Rightarrow> crates \<Rightarrow> ('w, string) call" where
  "card_status_impl R C =
     call_then (reader_card_present R) (\<lambda>present.
       call_lift (Inr (js_print C (JObj [(''present'', JBool present)]))))"

definition card_status :: "('w, 'ctx, 'card) pcsc \<Rightarrow> crates \<Rightarrow> 'w \<Rightarrow> string \<times> 'w" where
  "card_status R C w =
     (case card_status_impl R C w of
        (Inr text, w') \<Rightarrow> (text, w')
      | (Inl e, w') \<Rightarrow> (js_print C (JObj [(''error'', JStr e), (''present'', JBool False)]), w'))"

section \<open>Producer and verifier agree\<close>

lemma act_then_Ok: "act_then m k s = (Ok v, s') \<longleftrightarrow> (\<exists>x s1. m s = (Ok x, s1) \<and> k x s1 = (Ok v, s'))"
  by (auto simp: act_then_def split: prod.splits outcome.splits)

lemma Ok_eq [simp]: "Ok v = of_sum m \<longleftrightarrow> m = Inr v" "Ok v = map_err f n \<longleftrightarrow> n = Ok v"
  by (cases m; auto) (cases n; auto)

definition ends :: "('s \<Rightarrow> bool) \<Rightarrow> ('s, 'e, 'a) action \<Rightarrow> bool" where
  "ends J m \<longleftrightarrow> (\<forall>s v s'. m s = (Ok v, s') \<longrightarrow> J s')"

lemma ends_then: "(\<And>v. ends J (k v)) \<Longrightarrow> ends J (act_then m k)"
  unfolding ends_def by (metis act_then_Ok)

lemma select_closes: "select K R s = (Ok u, (kc, w)) \<Longrightarrow> \<not> sc_open (kc_sc kc)"
proof -
  have "ends (\<lambda>(kc, w). \<not> sc_open (kc_sc kc)) (select K R)"
    unfolding select_def by (rule ends_then)+ (auto simp: ends_def set_kc_def split: prod.splits)
  then show "select K R s = (Ok u, (kc, w)) \<Longrightarrow> \<not> sc_open (kc_sc kc)"
    by (cases s) (auto simp: ends_def)
qed

lemma capture_produce_Ok:
  assumes "capture_produce K R E C req w = (Ok reply, w')"
  obtains idc kc w0 payload kc' w3 where "hex_dec C (trim_0x (pr_id_commitment_hex req)) = Inr idc"
    "connect R w = (Inr kc, w0)" "attest_card K R E (bound_challenge E idc) (kc, w0) = (Ok payload, (kc', w3))"
    "rp_payload_hex reply = hex_enc C payload"
proof -
  obtain idc where idc: "parse_hex32 C ''id_commitment_hex'' (pr_id_commitment_hex req) = Inr idc"
    using assms by (auto simp: capture_produce_def act_then_Ok)
  then have "hex_dec C (trim_0x (pr_id_commitment_hex req)) = Inr idc"
    by (auto simp: parse_hex32_def split: sum.splits if_splits)
  moreover from assms idc obtain kc w0 where "connect R w = (Inr kc, w0)"
    and fin: "(case attest_card K R E (bound_challenge E idc) (kc, w0) of
        (Ok t, (kc', w')) \<Rightarrow> (Ok \<lparr>rp_payload_hex = hex_enc C t\<rparr>, drop_keycard R kc' w')
      | (Err e, (kc', w')) \<Rightarrow> (Err e, drop_keycard R kc' w')
      | (Panic, (kc', w')) \<Rightarrow> (Panic, w') | (Diverge, (kc', w')) \<Rightarrow> (Diverge, w')) = (Ok reply, w')"
    unfolding capture_produce_def Let_def act_then_Ok act_call_eq by auto
  moreover obtain res kc' w3 where "attest_card K R E (bound_challenge E idc) (kc, w0) = (res, (kc', w3))"
    by (metis prod.exhaust)
  ultimately show thesis using that by (cases res) auto
qed

lemma identify_clear:
  assumes "\<not> sc_open (kc_sc kc)" and "identify K R challenge (kc, w) = (Ok payload, (kc', w'))"
  shows "transmit_card R (kc_card kc) (serialize (new_command CLA_GP INS_IDENTIFY 0 0 challenge)) 1024 w
    = (Inr (payload @ [0x90, 0x00]), w')"
proof -
  let ?c = "new_command CLA_GP INS_IDENTIFY 0 0 challenge"
  from assms obtain resp where r: "transmit R ?c (kc, w) = (Ok resp, (kc', w'))" "sw resp = SW_OK" "resp_data resp = payload"
    by (auto simp: identify_def send_sc_def act_then_Ok check_sw_def split: if_splits)
  then obtain raw where raw: "transmit_card R (kc_card kc) (serialize ?c) 1024 w = (Inr raw, w')" "resp = parse_response raw"
    by (auto simp: transmit_def call_error_def split: prod.splits sum.splits)
  with r(2,3) parse_response_OK [of raw] show ?thesis by simp
qed

lemma trim_0x_lower_hex: "list_all lower_hex_digit s \<Longrightarrow> trim_0x s = s"
  by (cases s rule: trim_0x.cases) (auto simp: lower_hex_digit_def)

lemma genuine_mono: "genuine E cas idc att \<Longrightarrow> set cas \<subseteq> set cas' \<Longrightarrow> genuine E cas' idc att"
  unfolding genuine_def by blast

lemma captured_accepted:
  assumes "hex_laws C" and "capture_produce K R E C req w = (Ok reply, w')"
    and "parse_trusted_cas C (vr_config r) = Inr cas" and "STATUS_PRODUCTION_CA \<in> set cas"
    and "vr_payload_hex r = rp_payload_hex reply" and "vr_id_commitment_hex r = pr_id_commitment_hex req"
  shows "\<exists>idc kc w0 w1 w2 payload att. hex_dec C (trim_0x (pr_id_commitment_hex req)) = Inr idc
    \<and> connect R w = (Inr kc, w0)
    \<and> transmit_card R (kc_card kc) (serialize (new_command CLA_GP INS_IDENTIFY 0 0 (bound_challenge E idc))) 1024 w1
        = (Inr (payload @ [0x90, 0x00]), w2)
    \<and> rp_payload_hex reply = hex_enc C payload \<and> parse_attestation E payload = Inr att
    \<and> keycard_verify E C r = Ok (verdict_accept (Some (hex_enc C (keccak256 E (ident_pub att)))))"
proof -
  obtain idc kc w0 payload kc' w3 where idc: "hex_dec C (trim_0x (pr_id_commitment_hex req)) = Inr idc"
    and conn: "connect R w = (Inr kc, w0)"
    and run: "attest_card K R E (bound_challenge E idc) (kc, w0) = (Ok payload, (kc', w3))"
    and reply: "rp_payload_hex reply = hex_enc C payload"
    using assms(2) by (rule capture_produce_Ok)
  then obtain kc1 w1 kc2 w2 att nul where sel: "select K R (kc, w0) = (Ok (), (kc1, w1))"
    and idt: "identify K R (bound_challenge E idc) (kc1, w1) = (Ok payload, (kc2, w2))"
    and att: "parse_attestation E payload = Inr att"
      "verify_attestation E att [STATUS_PRODUCTION_CA] (bound_challenge E idc) = Inr nul"
    by (auto simp: attest_card_def act_then_Ok outcome_simps split: if_splits)
  have "kc_card kc1 = kc_card kc"
    using keepsD [OF keeps_select [of "kc_ctx kc" "kc_card kc"] sel] connect_wf [OF conn] by (simp add: kc_wf_def kc_ok_def)
  with identify_clear [OF select_closes [OF sel] idt]
  have sent: "transmit_card R (kc_card kc) (serialize (new_command CLA_GP INS_IDENTIFY 0 0 (bound_challenge E idc))) 1024 w1
      = (Inr (payload @ [0x90, 0x00]), w2)" by simp
  have "genuine E cas idc att"
    using att(2) verify_attestation_Inr genuine_mono assms(4) by (metis empty_set empty_subsetI insert_subset list.simps(15))
  moreover have "hex_dec C (trim_0x (hex_enc C payload)) = Inr payload"
    using assms(1) by (simp add: hex_laws_def trim_0x_lower_hex)
  moreover have "cas \<noteq> []" using assms(4) by auto
  ultimately have "keycard_verify E C r = Ok (verdict_accept (Some (hex_enc C (keccak256 E (ident_pub att)))))"
    using keycard_verify_accepts [OF assms(3)] assms(5,6) idc reply att(1) by auto
  with idc conn sent reply att(1) show ?thesis by blast
qed

text \<open>
  C25. What the capture module produces, the verifier accepts: if \<open>produce\<close> succeeds for a
  commitment, the payload is exactly what the card answered in the clear to one IDENTIFY command with
  the challenge of that commitment (no pairing, no PIN), and every verifier that trusts the Status
  production CA accepts this payload for this commitment.
\<close>

theorem captured_payload_accepted:
  assumes "hex_laws C" and "capture_produce K R E C req w = (Ok reply, w')"
    and "parse_trusted_cas C (vr_config r) = Inr cas" and "STATUS_PRODUCTION_CA \<in> set cas"
    and "vr_payload_hex r = rp_payload_hex reply" and "vr_id_commitment_hex r = pr_id_commitment_hex req"
  shows "\<exists>idc kc w0 w1 w2 payload att. hex_dec C (trim_0x (pr_id_commitment_hex req)) = Inr idc
    \<and> connect R w = (Inr kc, w0)
    \<and> transmit_card R (kc_card kc) (serialize (new_command CLA_GP INS_IDENTIFY 0 0 (bound_challenge E idc))) 1024 w1
        = (Inr (payload @ [0x90, 0x00]), w2)
    \<and> rp_payload_hex reply = hex_enc C payload \<and> parse_attestation E payload = Inr att
    \<and> keycard_verify E C r = Ok (verdict_accept (Some (hex_enc C (keccak256 E (ident_pub att)))))"
  by (rule captured_accepted [OF assms])

section \<open>The contract of a producing and a verifying half\<close>

text \<open>
  What a requester and a gifter rely on when they use the two halves of one vector: under a
  configuration that trusts the producer, whatever it produces for a commitment is accepted for that
  commitment, with a nullifier.
\<close>

locale vector_pair = verifier verify
  for verify :: "verify_request \<Rightarrow> (string, verdict) outcome" +
  fixes produce :: "produce_request \<Rightarrow> ('w, string, produce_reply) action"
    and trusts :: "json option \<Rightarrow> bool"
  assumes agree: "produce req w = (Ok reply, w') \<Longrightarrow> trusts (vr_config r) \<Longrightarrow>
    vr_payload_hex r = rp_payload_hex reply \<Longrightarrow> vr_id_commitment_hex r = pr_id_commitment_hex req \<Longrightarrow>
    \<exists>n. verify r = Ok (verdict_accept (Some n))"
begin

lemma produced_not_rejected:
  "produce req w = (Ok reply, w') \<Longrightarrow> trusts (vr_config r) \<Longrightarrow> vr_payload_hex r = rp_payload_hex reply \<Longrightarrow>
     vr_id_commitment_hex r = pr_id_commitment_hex req \<Longrightarrow> verify r \<noteq> Ok (verdict_reject why)"
  using agree by (fastforce simp: verdict_accept_def verdict_reject_def)

text \<open>Through the verifying module's dispatch, the requester's payload reads back as an acceptance.\<close>

lemma produced_dispatch:
  assumes "produce req w = (Ok reply, w')" and "trusts (vr_config r)" and "vr_payload_hex r = rp_payload_hex reply"
    and "vr_id_commitment_hex r = pr_id_commitment_hex req"
    and "js_parse C text_in = Inr t" and "verify_request_of t = Some r"
    and "\<And>vd. \<exists>out. js_ser C (verdict_tree vd) = Inr out \<and> js_parse C out = Inr (verdict_tree vd)"
    and "vector = \<lparr>av_auth_type = vr_auth_type r, av_produce = p, av_verify = (\<lambda>q. act_lift (verify q))\<rparr>"
  shows "\<exists>n out. dispatch_verify C text_in [vector] s = (Ok out, s)
    \<and> map_sum id (parse_verdict C) (from_str C out) = Inr (Inr (verdict_accept (Some n)))"
proof -
  obtain n where n: "verify r = Ok (verdict_accept (Some n))" using agree [OF assms(1-4)] by blast
  obtain out where out: "js_ser C (verdict_tree (verdict_accept (Some n))) = Inr out"
    "js_parse C out = Inr (verdict_tree (verdict_accept (Some n)))" using assms(7) by blast
  have "dispatch_verify C text_in [vector] s = (Ok out, s)"
    using assms(5,6,8) n out(1) by (simp add: dispatch_verify_def route_def act_then_def act_lift_def)
  with out(2) show ?thesis by (auto simp: from_str_def parse_verdict_tree)
qed

end

interpretation keycard_pair: vector_pair "keycard_verify E C" "capture_produce K R E C"
  "\<lambda>cfg. hex_laws C \<and> (\<exists>cas. parse_trusted_cas C cfg = Inr cas \<and> STATUS_PRODUCTION_CA \<in> set cas)"
  for E :: "('sig, 'vk) crypto" and C and K :: "('w, 'sk, 'pk) suite" and R :: "('w, 'ctx, 'card) pcsc"
proof unfold_locales
  fix req :: produce_request and w reply w' and r :: verify_request
  assume "capture_produce K R E C req w = (Ok reply, w')"
    and "hex_laws C \<and> (\<exists>cas. parse_trusted_cas C (vr_config r) = Inr cas \<and> STATUS_PRODUCTION_CA \<in> set cas)"
    and "vr_payload_hex r = rp_payload_hex reply" "vr_id_commitment_hex r = pr_id_commitment_hex req"
  then show "\<exists>n. keycard_verify E C r = Ok (verdict_accept (Some n))"
    using captured_accepted [of C K R E req w reply w' r] by blast
qed


text \<open>The two modules together: what \<open>produce\<close> handed out, the other module's \<open>verify_auth\<close> answers
  with a text that the gifter reads as an acceptance.\<close>

lemma captured_verify_auth:
  assumes "hex_laws C" and "capture_produce K R E C req w = (Ok reply, w')"
    and "parse_trusted_cas C (vr_config r) = Inr cas" and "STATUS_PRODUCTION_CA \<in> set cas"
    and "vr_payload_hex r = rp_payload_hex reply" and "vr_id_commitment_hex r = pr_id_commitment_hex req"
    and "vr_auth_type r = KEYCARD_ATTEST_AUTH_TYPE" and "js_parse C args = Inr t" and "verify_request_of t = Some r"
    and "\<And>vd. \<exists>out. js_ser C (verdict_tree vd) = Inr out \<and> js_parse C out = Inr (verdict_tree vd)"
  shows "\<exists>n out. keycard_verify_auth E C args s = (Ok out, s)
    \<and> map_sum id (parse_verdict C) (from_str C out) = Inr (Inr (verdict_accept (Some n)))"
  unfolding keycard_verify_auth_def
  by (rule keycard_pair.produced_dispatch [OF assms(2) _ assms(5,6,8,9,10)])
     (use assms(1,3,4,7) in \<open>auto simp: keycard_verifier_vector_def\<close>)

end
