(* ===== verification/Sample_Card.thy ===== *)
theory Sample_Card
  imports Card_Path Card_Pairing Keycard_Capture Vectors
begin

text \<open>
  Concrete cards and primitives on which the theorems about the card client are applied: a reversing
  block cipher, a card that keeps its side of the channel and echoes what it is sent, and a card that
  answers SELECT and IDENTIFY in the clear.
\<close>

section \<open>Primitives\<close>

definition sample_suite :: "('w, unit, unit) suite" where
  "sample_suite =
     \<lparr>sha2_256 = (\<lambda>_. replicate 32 1), sha2_512 = (\<lambda>_. replicate 64 1), pbkdf2_sha256 = (\<lambda>_ _ _. replicate 32 5),
      nfkd_str = id, aes_enc = (\<lambda>_. rev), aes_dec = (\<lambda>_. rev), pk_from_sec1 = (\<lambda>_. Inr ()),
      dh = (\<lambda>_ _. replicate 32 3), eph_point = (\<lambda>_. replicate 65 4), random_secret = (\<lambda>w. ((), w)),
      fill_bytes = (\<lambda>n w. (replicate n 9, w))\<rparr>"

lemma sample_suite_laws: "suite_laws sample_suite" "aes_laws sample_suite"
  by (simp_all add: suite_laws_def aes_laws_def sample_suite_def)

theorem encrypt_roundtrip_witness:
  "\<exists>c. encrypt_data (sample_suite :: (unit, unit, unit) suite) [1, 2, 3] (replicate 32 7) (replicate 16 0) = Ok c
    \<and> 16 dvd length c \<and> length ([1, 2, 3] :: bytes) < length c \<and> length c \<le> length ([1, 2, 3] :: bytes) + 16
    \<and> decrypt_data (sample_suite :: (unit, unit, unit) suite) c (replicate 32 7) (replicate 16 0) = Ok [1, 2, 3]"
  by (rule encrypt_roundtrip) (simp_all add: sample_suite_laws)

theorem calculate_mac_is_cbc_mac_witness:
  "calculate_mac (sample_suite :: (unit, unit, unit) suite) (replicate 16 1) (replicate 16 2) (replicate 32 7)
    = Ok (cbc_mac (sample_suite :: (unit, unit, unit) suite) (replicate 32 7) (replicate 16 1 @ replicate 16 2))"
  using calculate_mac_is_cbc_mac [of "sample_suite :: (unit, unit, unit) suite" "replicate 32 7" "replicate 16 1" "replicate 16 2"]
  by (simp add: sample_suite_laws)

section \<open>A card on the secure channel\<close>

definition echo_card :: "bytes \<Rightarrow> peer \<Rightarrow> (string + bytes) \<times> peer" where
  "echo_card raw v =
     (let data = take (unat (raw ! 4)) (drop 5 raw); mac = take 16 data in
      (case and_then (decrypt_data (sample_suite :: (peer, unit, unit) suite) (drop 16 data) (peer_enc v) (peer_iv v)) (\<lambda>plain.
         and_then (encrypt_data (sample_suite :: (peer, unit, unit) suite) (plain @ [0x90, 0x00]) (peer_enc v) mac) (\<lambda>enc.
         and_then (calculate_mac (sample_suite :: (peer, unit, unit) suite) (resp_meta (16 + length enc)) enc (peer_mac v)) (\<lambda>m.
           Ok (m, enc)))) of
         Ok (m, enc) \<Rightarrow> (Inr (m @ enc @ [0x90, 0x00]), v\<lparr>peer_iv := m\<rparr>)
       | _ \<Rightarrow> (Inr [0x69, 0x82], v)))"

text \<open>The same card also pairs and opens sessions.\<close>

definition session_card :: "bytes \<Rightarrow> peer \<Rightarrow> (string + bytes) \<times> peer" where
  "session_card raw v =
     (if raw ! 1 = INS_PAIR then
        (Inr ((if raw ! 2 = P1_PAIR_FIRST then replicate 32 1 @ replicate 32 2 else [0, 6]) @ [0x90, 0x00]), v)
      else if raw ! 1 = INS_OPEN_SECURE_CHANNEL then
        (Inr (replicate 32 5 @ replicate 16 6 @ [0x90, 0x00]),
         \<lparr>peer_enc = replicate 32 1, peer_mac = replicate 32 1, peer_iv = replicate 16 6\<rparr>)
      else echo_card raw v)"

definition echo_reader :: "(peer, unit, unit) pcsc" where
  "echo_reader =
     \<lparr>establish = (\<lambda>w. (Inr (), w)), list_readers = (\<lambda>_ w. (Inr [''reader''], w)), status_change = (\<lambda>_ _ w. (Changed True, w)),
      connect_card = (\<lambda>_ _ w. (Inr (), w)), transmit_card = (\<lambda>_ raw _. session_card raw),
      release_ctx = (\<lambda>_ w. w), disconnect_card = (\<lambda>_ w. w)\<rparr>"

definition echo_answer :: "peer \<Rightarrow> command \<Rightarrow> bytes" where
  "echo_answer v c = cmd_data c @ [0x90, 0x00]"

lemma decrypt_sizes: "decrypt_data K d key iv = Ok p \<Longrightarrow> length key = 32 \<and> length iv = 16"
  by (auto simp: decrypt_data_def cbc_decrypt_raw_def outcome_simps split: if_splits)

lemma mac_sizes: "calculate_mac K m d key = Ok x \<Longrightarrow> length key = 32"
  by (auto simp: calculate_mac_def split: if_splits)

lemma echo_honest: "honest_peer sample_suite echo_reader h (\<lambda>w. w) echo_answer"
  unfolding honest_peer_def
proof (intro allI impI)
  let ?K = "sample_suite :: (peer, unit, unit) suite"
  fix v :: peer and c :: command and mac enc :: bytes
  assume sec: "secured c" and l: "length mac = 16" "length (mac @ enc) < 256"
    and m: "calculate_mac ?K (cmd_meta c (length (mac @ enc))) enc (peer_mac v) = Ok mac"
    and d: "decrypt_data ?K enc (peer_enc v) (peer_iv v) = Ok (cmd_data c)"
  have laws: "aes_laws ?K" by (rule sample_suite_laws(2))
  obtain enc' where e: "encrypt_data ?K (echo_answer v c) (peer_enc v) mac = Ok enc'"
    using encrypt_data_Ok [OF laws _ l(1), of "peer_enc v"] decrypt_sizes [OF d] by blast
  obtain mac' where m': "calculate_mac ?K (resp_meta (16 + length enc')) enc' (peer_mac v) = Ok mac'" "length mac' = 16"
    using calculate_mac_Ok [OF laws mac_sizes [OF m]] length_cbc_mac [OF laws mac_sizes [OF m]] by simp
  have raw: "serialize (c\<lparr>cmd_data := mac @ enc\<rparr>)
      = [cla c, ins c, p1 c, p2 c, of_nat (length (mac @ enc))] @ (mac @ enc) @ (case le c of Some b \<Rightarrow> [b] | None \<Rightarrow> [])"
    using l(1) by (auto simp: serialize_def)
  have "unat (of_nat (length (mac @ enc)) :: u8) = length (mac @ enc)" by (rule unat_byte [OF l(2)])
  then have "take (unat (serialize (c\<lparr>cmd_data := mac @ enc\<rparr>) ! 4)) (drop 5 (serialize (c\<lparr>cmd_data := mac @ enc\<rparr>))) = mac @ enc"
    unfolding raw by (simp del: of_nat_add length_append) simp
  then have "echo_card (serialize (c\<lparr>cmd_data := mac @ enc\<rparr>)) v = (Inr (mac' @ enc' @ [0x90, 0x00]), v\<lparr>peer_iv := mac'\<rparr>)"
    using l(1) d e m' unfolding echo_card_def Let_def echo_answer_def by simp
  moreover have "serialize (c\<lparr>cmd_data := mac @ enc\<rparr>) ! 1 = ins c" unfolding raw by simp
  ultimately have "session_card (serialize (c\<lparr>cmd_data := mac @ enc\<rparr>)) v
      = (Inr (mac' @ enc' @ [0x90, 0x00]), v\<lparr>peer_iv := mac'\<rparr>)"
    using sec by (simp add: session_card_def secured_def)
  then show "\<exists>enc' mac' w'. encrypt_data ?K (echo_answer v c) (peer_enc v) mac = Ok enc'
      \<and> calculate_mac ?K (resp_meta (length (mac' @ enc'))) enc' (peer_mac v) = Ok mac' \<and> length mac' = 16
      \<and> transmit_card echo_reader h (serialize (c\<lparr>cmd_data := mac @ enc\<rparr>)) 1024 v = (Inr (mac' @ enc' @ [0x90, 0x00]), w')
      \<and> w' = v\<lparr>peer_iv := mac'\<rparr>"
    using e m' by (auto simp: echo_reader_def)
qed


definition echo_channel :: secure_channel where
  "echo_channel =
     \<lparr>sc_open = True, sc_secret = replicate 32 3, sc_eph_pub = [], sc_enc_key = replicate 32 7,
      sc_mac_key = replicate 32 8, sc_iv = replicate 16 0\<rparr>"

definition echo_client :: "(unit, unit) keycard" where
  "echo_client =
     \<lparr>kc_ctx = (), kc_card = (), kc_sc = echo_channel, initialized = True, instance_uid = [1],
      pairing_index = 0, pairing_key = []\<rparr>"

definition echo_peer :: peer where
  "echo_peer = \<lparr>peer_enc = replicate 32 7, peer_mac = replicate 32 8, peer_iv = replicate 16 0\<rparr>"

abbreviation echo_suite :: "(peer, unit, unit) suite" where
  "echo_suite \<equiv> sample_suite"

abbreviation echo_command :: command where
  "echo_command \<equiv> new_command CLA_GP INS_IDENTIFY 0 0 [1, 2, 3]"

lemma echo_sync: "in_sync (kc_sc echo_client) echo_peer"
  by (simp add: in_sync_def sc_sized_def echo_client_def echo_channel_def echo_peer_def)

lemma echo_sized: "sc_open (kc_sc echo_client)" "sc_sized (kc_sc echo_client)"
  using echo_sync by (simp_all add: in_sync_def)

theorem secure_channel_transparent_witness:
  "\<exists>mac w'. send_sc sample_suite echo_reader echo_command (echo_client, echo_peer)
      = (Ok (parse_response [1, 2, 3, 0x90, 0x00]),
         (echo_client\<lparr>kc_sc := (kc_sc echo_client)\<lparr>sc_iv := mac\<rparr>\<rparr>, w'))
    \<and> in_sync ((kc_sc echo_client)\<lparr>sc_iv := mac\<rparr>) w'"
  using secure_channel_transparent [OF sample_suite_laws(2) echo_honest echo_sync, of echo_command]
  by (simp add: echo_answer_def new_command_def secured_def INS_IDENTIFY_def INS_SELECT_def INS_PAIR_def
      INS_OPEN_SECURE_CHANNEL_def)

lemma echo_run:
  "\<exists>kc' w'. send_sc sample_suite echo_reader echo_command (echo_client, echo_peer)
      = (Ok (parse_response [1, 2, 3, 0x90, 0x00]), (kc', w'))"
proof -
  have "fst (send_sc sample_suite echo_reader echo_command (echo_client, echo_peer))
      = Ok (parse_response [1, 2, 3, 0x90, 0x00])" by code_simp
  then show ?thesis by (metis prod.collapse)
qed

theorem send_sc_authentic_witness:
  "\<exists>kc' w' enc mac rmac rdata plain.
      decrypt_data echo_suite enc (sc_enc_key (kc_sc echo_client)) (sc_iv (kc_sc echo_client)) = Ok (cmd_data echo_command)
    \<and> mac = cbc_mac echo_suite (sc_mac_key (kc_sc echo_client)) (cmd_meta echo_command (length enc + 16) @ enc)
    \<and> transmit_card echo_reader (kc_card echo_client) (serialize (echo_command\<lparr>cmd_data := mac @ enc\<rparr>)) 1024 echo_peer
        = (Inr (rmac @ rdata @ [0x90, 0x00]), w')
    \<and> rmac = cbc_mac echo_suite (sc_mac_key (kc_sc echo_client)) (resp_meta (length rdata + 16) @ rdata) \<and> 16 dvd length rdata
    \<and> decrypt_data echo_suite rdata (sc_enc_key (kc_sc echo_client)) mac = Ok plain
    \<and> parse_response [1, 2, 3, 0x90, 0x00] = parse_response plain
    \<and> kc' = echo_client\<lparr>kc_sc := (kc_sc echo_client)\<lparr>sc_iv := rmac\<rparr>\<rparr>"
proof -
  obtain kc' w' where "send_sc echo_suite echo_reader echo_command (echo_client, echo_peer)
      = (Ok (parse_response [1, 2, 3, 0x90, 0x00]), (kc', w'))" using echo_run by blast
  from send_sc_authentic [OF sample_suite_laws(2) echo_sized this] show ?thesis by blast
qed

definition fresh_client :: "(unit, unit) keycard" where
  "fresh_client = echo_client\<lparr>kc_sc := echo_channel\<lparr>sc_open := False, sc_eph_pub := replicate 65 4\<rparr>\<rparr>"

lemma session_card_laws:
  "pairing_card echo_suite echo_reader h pass (\<lambda>_ _. Some (replicate 32 1))"
  "opening_card echo_suite echo_reader h (\<lambda>w. w) (\<lambda>_ _. Some (replicate 32 1)) (\<lambda>_. replicate 32 3)"
  "accepting_card echo_suite (\<lambda>w. w) echo_answer"
  unfolding pairing_card_def opening_card_def accepting_card_def
    apply (intro allI impI, rule exI [of _ "replicate 32 2"])
    apply (auto simp: echo_reader_def session_card_def sample_suite_def serialize_def new_command_def echo_answer_def
      INS_PAIR_def INS_OPEN_SECURE_CHANNEL_def P1_PAIR_FIRST_def P1_PAIR_FINAL_def) [3]
  done

theorem session_established_witness:
  "\<exists>kc1 w1 kc2 w2. pair echo_suite echo_reader ''pw'' (fresh_client, echo_peer) = (Ok (), (kc1, w1))
    \<and> open_secure_channel echo_suite echo_reader (kc1, w1) = (Ok (), (kc2, w2)) \<and> in_sync (kc_sc kc2) w2"
  by (rule session_established [OF sample_suite_laws(1) echo_honest session_card_laws])
     (simp_all add: fresh_client_def echo_channel_def)

definition short_reader :: "(unit, unit, unit) pcsc" where
  "short_reader =
     \<lparr>establish = (\<lambda>w. (Inr (), w)), list_readers = (\<lambda>_ w. (Inr [''reader''], w)), status_change = (\<lambda>_ _ w. (Changed True, w)),
      connect_card = (\<lambda>_ _ w. (Inr (), w)), transmit_card = (\<lambda>_ _ _ w. (Inr [0x90, 0x00], w)),
      release_ctx = (\<lambda>_ w. w), disconnect_card = (\<lambda>_ w. w)\<rparr>"

theorem send_sc_panics_iff_witness:
  "(fst (send_sc sample_suite short_reader echo_command (echo_client, ())) = Panic
      \<longleftrightarrow> length ([] :: bytes) < 16 \<or> \<not> 16 dvd length ([] :: bytes))
    \<and> fst (send_sc sample_suite short_reader echo_command (echo_client, ())) \<noteq> Diverge"
  by (rule send_sc_panics_iff [OF sample_suite_laws(2) echo_sized]) (simp add: short_reader_def)


section \<open>A card in the clear\<close>

definition select_reply :: bytes where
  "select_reply = tlv 0xA4 (tlv 0x8F [1] @ tlv 0x80 [4])"

definition plain_card :: "bytes \<Rightarrow> bytes" where
  "plain_card raw = (if raw ! 1 = INS_SELECT then select_reply else sample_tlv) @ [0x90, 0x00]"

definition plain_reader :: "(unit, unit, unit) pcsc" where
  "plain_reader =
     \<lparr>establish = (\<lambda>w. (Inr (), w)), list_readers = (\<lambda>_ w. (Inr [''reader''], w)), status_change = (\<lambda>_ _ w. (Changed True, w)),
      connect_card = (\<lambda>_ _ w. (Inr (), w)), transmit_card = (\<lambda>_ raw _ w. (Inr (plain_card raw), w)),
      release_ctx = (\<lambda>_ w. w), disconnect_card = (\<lambda>_ w. w)\<rparr>"

definition plain_client :: "(unit, unit) keycard" where
  "plain_client =
     \<lparr>kc_ctx = (), kc_card = (),
      kc_sc = \<lparr>sc_open = False, sc_secret = replicate 32 0, sc_eph_pub = [],
               sc_enc_key = replicate 32 0, sc_mac_key = replicate 32 0, sc_iv = replicate 16 0\<rparr>,
      initialized = False, instance_uid = [], pairing_index = 0, pairing_key = []\<rparr>"

lemma plain_connect: "connect plain_reader () = (Inr plain_client, ())"
  by (simp add: connect_def plain_reader_def plain_client_def call_then_def call_error_def call_lift_def get_at_def)

lemma select_tags:
  "require_tag select_reply 0xA4 e = Ok (tlv 0x8F [1] @ tlv 0x80 [4])"
  "require_tag (tlv 0x8F [1] @ tlv 0x80 [4]) 0x8F e = Ok [1]"
  "require_tag (tlv 0x8F [1] @ tlv 0x80 [4]) 0x80 e = Ok [4]"
  using apdu_find_tag_items [of "[]" "0xA4" "tlv 0x8F [1] @ tlv 0x80 [4]" "[]"]
    apdu_find_tag_items [of "[]" "0x8F" "[1]" "tlv 0x80 [4]"] apdu_find_tag_items [of "[(0x8F, [1])]" "0x80" "[4]" "[]"]
  by (simp_all add: require_tag_def select_reply_def tlvs_def tlv_def len_bytes_def vec_limit_def)

definition selected_client :: "(unit, unit) keycard" where
  "selected_client = plain_client\<lparr>initialized := True, instance_uid := [1],
     kc_sc := (kc_sc plain_client)\<lparr>sc_secret := replicate 32 3, sc_eph_pub := replicate 65 4\<rparr>\<rparr>"

abbreviation plain_suite :: "(unit, unit, unit) suite" where
  "plain_suite \<equiv> sample_suite"

lemma parse_ok [simp]: "parse_response (d @ [0x90, 0x00]) = \<lparr>resp_data = d, sw = SW_OK\<rparr>"
  by (simp only: parse_response_append ok_status)

lemma plain_select: "select plain_suite plain_reader (plain_client, ()) = (Ok (), (selected_client, ()))"
proof -
  have "transmit plain_reader ((new_command 0x00 INS_SELECT 0x04 0x00 KEYCARD_INSTANCE_AID)\<lparr>le := Some 0\<rparr>) (plain_client, ())
      = (Ok \<lparr>resp_data = select_reply, sw = SW_OK\<rparr>, (plain_client, ()))"
    by (simp add: transmit_def call_error_def plain_reader_def plain_card_def serialize_def new_command_def SW_OK_def)
  moreover have "get_at select_reply 0 = Some 0xA4" by (simp add: get_at_def select_reply_def tlv_def)
  ultimately show ?thesis
    by (simp add: select_def check_sw_def select_tags ecdh_generate_def sample_suite_def selected_client_def plain_client_def act_then_def act_lift_def set_kc_def)
qed

theorem card_state_invariant_witness:
  "sc_sized (kc_sc selected_client) \<and> pairing_key selected_client \<in> {[]} \<union> {k. length k = 32}
    \<and> (initialized selected_client \<or> instance_uid selected_client = [])
    \<and> kc_ctx selected_client = kc_ctx plain_client \<and> kc_card selected_client = kc_card plain_client
    \<and> (\<exists>sc' c'. sc_wrap plain_suite (kc_sc selected_client) echo_command = Ok (sc', c'))"
proof (rule card_state_invariant [OF sample_suite_laws(1) plain_connect])
  show "(kc_step plain_suite plain_reader)\<^sup>*\<^sup>* (plain_client, ()) (selected_client, ())"
    using kc_step.Select [OF plain_select] by (auto simp: alive_def)
qed


text \<open>The Status production CA is the one whose signature the sample certificate recovers.\<close>

definition capture_crypto :: "(bytes, bytes) crypto" where
  "capture_crypto = sample_crypto\<lparr>point_bytes := (\<lambda>_ _. STATUS_PRODUCTION_CA)\<rparr>"

abbreviation sample_att :: "bytes attestation" where
  "sample_att \<equiv> \<lparr>ident_pub = replicate 33 7, ca_sig = replicate 64 7 @ [1], challenge_sig = tlv 0x30 [5]\<rparr>"

lemma capture_parse: "parse_attestation capture_crypto sample_tlv = Inr sample_att"
proof -
  have der: "sig_from_der capture_crypto = sig_from_der sample_crypto" by (simp add: capture_crypto_def)
  have "parse_attestation capture_crypto sample_tlv = parse_attestation sample_crypto sample_tlv"
    unfolding parse_attestation_def der by (rule refl)
  then show ?thesis by (simp add: sample_parse)
qed

lemma capture_verified:
  "verify_attestation capture_crypto sample_att [STATUS_PRODUCTION_CA] (bound_challenge capture_crypto idc)
    = Inr (sample_digest (replicate 33 7))"
proof -
  have "(replicate 64 7 @ [1] :: bytes) ! 64 = 1" by (simp add: nth_append)
  then have "genuine capture_crypto [STATUS_PRODUCTION_CA] idc sample_att"
    by (simp add: genuine_def capture_crypto_def sample_crypto_def)
  then show ?thesis
    by (subst verify_attestation_Inr) (simp add: capture_crypto_def sample_crypto_def)
qed

definition capture_request :: produce_request where
  "capture_request = \<lparr>pr_auth_type = KEYCARD_ATTEST_AUTH_TYPE, pr_id_commitment_hex = sample_hex_enc (replicate 32 1), pr_args = None\<rparr>"

definition captured_request :: verify_request where
  "captured_request = (kc_request 32)\<lparr>vr_config := Some (JObj [(''trusted_cas'', JArr [JStr (sample_hex_enc STATUS_PRODUCTION_CA)])])\<rparr>"

lemma plain_identify:
  "identify plain_suite plain_reader ch (selected_client, ()) = (Ok sample_tlv, (selected_client, ()))"
proof -
  have "\<not> sc_open (kc_sc selected_client)" by (simp add: selected_client_def plain_client_def)
  moreover have "transmit plain_reader (new_command CLA_GP INS_IDENTIFY 0 0 ch) (selected_client, ())
      = (Ok \<lparr>resp_data = sample_tlv, sw = SW_OK\<rparr>, (selected_client, ()))"
    by (simp add: transmit_def call_error_def plain_reader_def plain_card_def serialize_def new_command_def
        INS_SELECT_def INS_IDENTIFY_def SW_OK_def)
  ultimately show ?thesis
    by (simp add: identify_def send_sc_def check_sw_def act_then_def act_lift_def)
qed

lemma sample_captured:
  "capture_produce plain_suite plain_reader capture_crypto sample_crates capture_request ()
    = (Ok \<lparr>rp_payload_hex = sample_hex_enc sample_tlv\<rparr>, ())"
proof -
  have "attest_card plain_suite plain_reader capture_crypto (bound_challenge capture_crypto idc) (plain_client, ())
      = (Ok sample_tlv, (selected_client, ()))" for idc
    by (simp add: attest_card_def plain_select plain_identify capture_parse capture_verified act_then_def act_lift_def)
      (simp add: selected_client_def)
  moreover have "parse_hex32 sample_crates f (sample_hex_enc (replicate 32 1)) = Inr (replicate 32 1)" for f
    by (simp add: parse_hex32_def del: sample_hex_enc.simps)
  ultimately show ?thesis
    by (simp add: capture_produce_def capture_request_def plain_connect act_then_def act_lift_def act_call_def
        del: sample_hex_enc.simps)
qed

theorem captured_payload_accepted_witness:
  "\<exists>idc kc w0 w1 w2 payload att. hex_dec sample_crates (trim_0x (pr_id_commitment_hex capture_request)) = Inr idc
    \<and> connect plain_reader () = (Inr kc, w0)
    \<and> transmit_card plain_reader (kc_card kc)
        (serialize (new_command CLA_GP INS_IDENTIFY 0 0 (bound_challenge capture_crypto idc))) 1024 w1
        = (Inr (payload @ [0x90, 0x00]), w2)
    \<and> rp_payload_hex \<lparr>rp_payload_hex = sample_hex_enc sample_tlv\<rparr> = hex_enc sample_crates payload
    \<and> parse_attestation capture_crypto payload = Inr att
    \<and> keycard_verify capture_crypto sample_crates captured_request
        = Ok (verdict_accept (Some (hex_enc sample_crates (keccak256 capture_crypto (ident_pub att)))))"
proof (rule captured_payload_accepted [OF sample_crates_laws(1) sample_captured])
  have l: "length STATUS_PRODUCTION_CA = 33" by (simp add: STATUS_PRODUCTION_CA_def)
  show "parse_trusted_cas sample_crates (vr_config captured_request) = Inr [STATUS_PRODUCTION_CA]"
    using l by (simp add: parse_trusted_cas_def captured_request_def del: sample_hex_enc.simps)
  show "vr_payload_hex captured_request = rp_payload_hex \<lparr>rp_payload_hex = sample_hex_enc sample_tlv\<rparr>"
    by (simp add: captured_request_def kc_request_def)
  show "vr_id_commitment_hex captured_request = pr_id_commitment_hex capture_request"
    by (simp add: captured_request_def kc_request_def capture_request_def)
qed simp

end
