(* ===== verification/Lp_Memory.thy ===== *)
theory Lp_Memory
  imports Lp
begin

text \<open>
  The unsafe half of \<open>lp.rs\<close>: the raw pointers of \<open>call_json\<close> and \<open>reply_trampoline\<close>, the reply channel
  between them, and any number of threads in calls while the host calls back when it likes.
  \<open>Lp\<close> has the calls as functions of what the host answered; here that answer is put together from
  memory that both sides allocate and free. Freed or foreign memory is never touched, and a call
  returns what the function of \<open>Lp\<close> returns.
\<close>

section \<open>Memory\<close>

text \<open>
  \<open>boxes\<close>: the live \<open>Box<AsyncReply>\<close>, from its address to the channel its sender belongs to;
  \<open>c_strings\<close>: the live C strings that the host hands out, without the final NUL. Address 0 is null.
  \<open>queues\<close> and \<open>receivers\<close>: the messages of an \<open>mpsc\<close> channel and whether its receiver is still there;
  channels are numbered as they are made, addresses may be used again once they are free.
\<close>

record lp_mem =
  boxes :: "nat \<rightharpoonup> nat"
  c_strings :: "nat \<rightharpoonup> bytes"
  queues :: "nat \<Rightarrow> (bool \<times> string) list"
  receivers :: "nat set"
  next_channel :: nat

text \<open>An operation on a pointer that is not live is undefined behaviour: \<open>None\<close>.\<close>

definition read_cstr :: "nat \<Rightarrow> lp_mem \<Rightarrow> string option" where
  "read_cstr p m = map_option from_utf8_lossy (c_strings m p)"

definition lp_string_free :: "nat \<Rightarrow> lp_mem \<Rightarrow> lp_mem option" where
  "lp_string_free p m =
     (if c_strings m p = None then None else Some (m\<lparr>c_strings := (c_strings m)(p := None)\<rparr>))"

definition take_cstr :: "nat \<Rightarrow> lp_mem \<Rightarrow> (string \<times> lp_mem) option" where
  "take_cstr p m =
     (case read_cstr p m of None \<Rightarrow> None | Some t \<Rightarrow> map_option (Pair t) (lp_string_free p m))"

definition box_into_raw :: "nat \<Rightarrow> lp_mem \<Rightarrow> lp_mem" where
  "box_into_raw u m =
     m\<lparr>boxes := (boxes m)(u \<mapsto> next_channel m), queues := (queues m)(next_channel m := []),
       receivers := insert (next_channel m) (receivers m), next_channel := Suc (next_channel m)\<rparr>"

definition box_from_raw :: "nat \<Rightarrow> lp_mem \<Rightarrow> (nat \<times> lp_mem) option" where
  "box_from_raw u m =
     (case boxes m u of None \<Rightarrow> None | Some c \<Rightarrow> Some (c, m\<lparr>boxes := (boxes m)(u := None)\<rparr>))"

text \<open>\<open>Sender::send\<close> fails when the receiver is gone, which the code ignores.\<close>

definition chan_send :: "nat \<Rightarrow> bool \<times> string \<Rightarrow> lp_mem \<Rightarrow> lp_mem" where
  "chan_send c x m =
     (if c \<in> receivers m then m\<lparr>queues := (queues m)(c := queues m c @ [x])\<rparr> else m)"

definition drop_receiver :: "nat \<Rightarrow> lp_mem \<Rightarrow> lp_mem" where
  "drop_receiver c m = m\<lparr>receivers := receivers m - {c}\<rparr>"

section \<open>The code on memory\<close>

definition raw_trampoline :: "int \<Rightarrow> nat \<Rightarrow> nat \<Rightarrow> lp_mem \<Rightarrow> lp_mem option" where
  "raw_trampoline ok json user_data m =
     (if user_data = 0 then Some m
      else case box_from_raw user_data m of
        None \<Rightarrow> None
      | Some (tx, m1) \<Rightarrow>
          (case (if json = 0 then Some '''' else read_cstr json m1) of
             None \<Rightarrow> None
           | Some raw \<Rightarrow> Some (chan_send tx (ok \<noteq> 0, raw) m1)))"

text \<open>On the owner thread, after \<open>lp_invoke\<close> has returned.\<close>

definition sync_finish ::
  "crates \<Rightarrow> string \<Rightarrow> int \<Rightarrow> nat \<Rightarrow> nat \<Rightarrow> lp_mem \<Rightarrow> ((string + json) \<times> lp_mem) option" where
  "sync_finish C method rc result_json error_json m =
     (if rc \<noteq> 0 then
        (if error_json = 0 then Some (Inl (method @ '': lp error '' @ dec_int rc), m)
         else map_option (apfst Inl) (take_cstr error_json m))
      else
        map_option (apfst (Inr \<circ> parse_ok C))
          (if result_json = 0 then Some ('''', m) else take_cstr result_json m))"

text \<open>Off the owner thread: the dispatch was refused, or the wait on the channel is over.\<close>

definition async_refused :: "string \<Rightarrow> int \<Rightarrow> nat \<Rightarrow> nat \<Rightarrow> lp_mem \<Rightarrow> ((string + json) \<times> lp_mem) option" where
  "async_refused method rc user_data rx m =
     (case box_from_raw user_data m of
        None \<Rightarrow> None
      | Some (_, m1) \<Rightarrow>
          Some (Inl (method @ '': lp_invoke_async dispatch failed rc='' @ dec_int rc), drop_receiver rx m1))"

definition async_finish :: "crates \<Rightarrow> string \<Rightarrow> nat \<Rightarrow> lp_mem \<Rightarrow> (string + json) \<times> lp_mem" where
  "async_finish C method rx m =
     (case queues m rx of
        [] \<Rightarrow> Inl (method @ '': reply channel timed out'')
      | (ok, raw) # _ \<Rightarrow> if \<not> ok then Inl (method @ '': '' @ err_message C raw) else Inr (parse_ok C raw),
      drop_receiver rx m)"

text \<open>\<open>timeout_ms as u64 + 10_000\<close>: the cast extends the sign, the addition is checked or wraps.\<close>

definition reply_wait :: "32 word \<Rightarrow> u64 \<times> bool" where
  "reply_wait timeout_ms = (let t = (scast timeout_ms :: u64) in (t + 10000, 2 ^ 64 \<le> unat t + 10000))"

section \<open>Threads and the host\<close>

text \<open>
  A thread is inside \<open>lp_invoke\<close>, inside \<open>lp_invoke_async\<close> (its \<open>user_data\<close> and channel), or waits
  on its channel. \<open>owed\<close> are the dispatches the host has not called back yet, by \<open>user_data\<close>, and
  \<open>fired\<close> the arguments of the callbacks it made; a dispatch goes by the number of its channel.
\<close>

datatype frame = Invoking string | Dispatching string nat nat | Awaiting string nat

record lp_sys =
  mem :: lp_mem
  frames :: "nat \<rightharpoonup> frame"
  owed :: "nat \<rightharpoonup> nat"
  fired :: "nat \<rightharpoonup> int \<times> bytes option"

text \<open>An event that ends a call has the thread, the method, what the host answered and the result.\<close>

datatype lp_event =
    Internal
  | Invoked nat string "int \<times> bytes option \<times> bytes option" "string + json"
  | Replied nat string "int \<times> (int \<times> bytes option) option" "string + json"

definition string_at :: "lp_mem \<Rightarrow> nat \<Rightarrow> bytes option" where
  "string_at m p = (if p = 0 then None else c_strings m p)"

definition valid_ptr :: "lp_mem \<Rightarrow> nat \<Rightarrow> bool" where
  "valid_ptr m p \<longleftrightarrow> p = 0 \<or> c_strings m p \<noteq> None"

abbreviation ends :: "lp_sys \<Rightarrow> nat \<Rightarrow> lp_mem \<Rightarrow> lp_sys" where
  "ends s t m \<equiv> s\<lparr>mem := m, frames := (frames s)(t := None)\<rparr>"

text \<open>
  The host keeps the contract of its ABI: the strings it passes are live, a dispatch is called back at
  most once and not at all when it was refused. The callback may come before \<open>lp_invoke_async\<close> has
  returned, long after the caller has given up, or never. \<open>None\<close> on the right is undefined behaviour.
\<close>

inductive lp_step :: "crates \<Rightarrow> lp_sys \<Rightarrow> lp_event \<Rightarrow> lp_sys option \<Rightarrow> bool" for C where
  invokes: "frames s t = None \<Longrightarrow> lp_step C s Internal (Some (s\<lparr>frames := (frames s)(t \<mapsto> Invoking method)\<rparr>))"
| invoke_returns: "frames s t = Some (Invoking method) \<Longrightarrow> valid_ptr (mem s) r \<Longrightarrow> valid_ptr (mem s) e \<Longrightarrow>
    sync_finish C method rc r e (mem s) = Some (x, m) \<Longrightarrow>
    lp_step C s (Invoked t method (rc, string_at (mem s) r, string_at (mem s) e) x) (Some (ends s t m))"
| invoke_faults: "frames s t = Some (Invoking method) \<Longrightarrow> valid_ptr (mem s) r \<Longrightarrow> valid_ptr (mem s) e \<Longrightarrow>
    sync_finish C method rc r e (mem s) = None \<Longrightarrow> lp_step C s Internal None"
| dispatches: "frames s t = None \<Longrightarrow> u \<noteq> 0 \<Longrightarrow> boxes (mem s) u = None \<Longrightarrow> c = next_channel (mem s) \<Longrightarrow>
    lp_step C s Internal (Some (s\<lparr>mem := box_into_raw u (mem s), owed := (owed s)(u \<mapsto> c),
      frames := (frames s)(t \<mapsto> Dispatching method u c)\<rparr>))"
| refuses: "frames s t = Some (Dispatching method u c) \<Longrightarrow> rc \<noteq> 0 \<Longrightarrow> owed s u = Some c \<Longrightarrow>
    async_refused method rc u c (mem s) = Some (x, m) \<Longrightarrow>
    lp_step C s (Replied t method (rc, None) x) (Some (ends (s\<lparr>owed := (owed s)(u := None)\<rparr>) t m))"
| refuse_faults: "frames s t = Some (Dispatching method u c) \<Longrightarrow> rc \<noteq> 0 \<Longrightarrow> owed s u = Some c \<Longrightarrow>
    async_refused method rc u c (mem s) = None \<Longrightarrow> lp_step C s Internal None"
| accepts: "frames s t = Some (Dispatching method u c) \<Longrightarrow>
    lp_step C s Internal (Some (s\<lparr>frames := (frames s)(t \<mapsto> Awaiting method c)\<rparr>))"
| calls_back: "owed s u = Some c \<Longrightarrow> valid_ptr (mem s) json \<Longrightarrow> raw_trampoline ok json u (mem s) = Some m \<Longrightarrow>
    lp_step C s Internal (Some (s\<lparr>owed := (owed s)(u := None), mem := m,
      fired := (fired s)(c \<mapsto> (ok, string_at (mem s) json))\<rparr>))"
| callback_faults: "owed s u = Some c \<Longrightarrow> valid_ptr (mem s) json \<Longrightarrow> raw_trampoline ok json u (mem s) = None \<Longrightarrow>
    lp_step C s Internal None"
| returns: "frames s t = Some (Awaiting method c) \<Longrightarrow> async_finish C method c (mem s) = (x, m) \<Longrightarrow>
    lp_step C s (Replied t method (0, fired s c) x) (Some (ends s t m))"
| host_allocates: "p \<noteq> 0 \<Longrightarrow> c_strings (mem s) p = None \<Longrightarrow>
    lp_step C s Internal (Some (s\<lparr>mem := (mem s)\<lparr>c_strings := (c_strings (mem s))(p \<mapsto> b)\<rparr>\<rparr>))"
| host_frees: "c_strings (mem s) p \<noteq> None \<Longrightarrow>
    lp_step C s Internal (Some (s\<lparr>mem := (mem s)\<lparr>c_strings := (c_strings (mem s))(p := None)\<rparr>\<rparr>))"

definition lp_start :: lp_sys where
  "lp_start = \<lparr>mem = \<lparr>boxes = Map.empty, c_strings = Map.empty, queues = (\<lambda>_. []), receivers = {}, next_channel = 0\<rparr>,
     frames = Map.empty, owed = Map.empty, fired = Map.empty\<rparr>"

inductive lp_reachable :: "crates \<Rightarrow> lp_sys \<Rightarrow> bool" for C where
  start: "lp_reachable C lp_start"
| step: "lp_reachable C s \<Longrightarrow> lp_step C s ev (Some s') \<Longrightarrow> lp_reachable C s'"

section \<open>The invariant\<close>

fun chan_of :: "frame \<Rightarrow> nat option" where
  "chan_of (Invoking _) = None"
| "chan_of (Dispatching _ _ c) = Some c"
| "chan_of (Awaiting _ c) = Some c"

abbreviation thread_chan :: "lp_sys \<Rightarrow> nat \<Rightarrow> nat option" where
  "thread_chan s t \<equiv> Option.bind (frames s t) chan_of"

definition delivered :: "(int \<times> bytes option) option \<Rightarrow> (bool \<times> string) list" where
  "delivered f = (case f of None \<Rightarrow> [] | Some (ok, p) \<Rightarrow> [(ok \<noteq> 0, c_str p)])"

text \<open>
  A box lives exactly as long as the host owes its callback; every waiting thread has a channel of its
  own, which holds the reply of its own dispatch and nothing else.
\<close>

definition lp_inv :: "lp_sys \<Rightarrow> bool" where
  "lp_inv s \<longleftrightarrow>
     boxes (mem s) = owed s \<and> owed s 0 = None
     \<and> (\<forall>u c. owed s u = Some c \<longrightarrow> c < next_channel (mem s) \<and> fired s c = None)
     \<and> (\<forall>u v c. owed s u = Some c \<longrightarrow> owed s v = Some c \<longrightarrow> u = v)
     \<and> (\<forall>c. next_channel (mem s) \<le> c \<longrightarrow> fired s c = None)
     \<and> (\<forall>c \<in> receivers (mem s). c < next_channel (mem s) \<and> queues (mem s) c = delivered (fired s c))
     \<and> (\<forall>t c. thread_chan s t = Some c \<longrightarrow> c \<in> receivers (mem s))
     \<and> (\<forall>t t' c. thread_chan s t = Some c \<longrightarrow> thread_chan s t' = Some c \<longrightarrow> t = t')"

lemma lp_invD:
  assumes "lp_inv s"
  shows "boxes (mem s) = owed s" "owed s 0 = None"
    "owed s u = Some c \<Longrightarrow> c < next_channel (mem s)" "owed s u = Some c \<Longrightarrow> fired s c = None"
    "owed s u = Some c \<Longrightarrow> owed s v = Some c \<Longrightarrow> u = v"
    "next_channel (mem s) \<le> c \<Longrightarrow> fired s c = None"
    "c \<in> receivers (mem s) \<Longrightarrow> c < next_channel (mem s)"
    "c \<in> receivers (mem s) \<Longrightarrow> queues (mem s) c = delivered (fired s c)"
    "thread_chan s t = Some c \<Longrightarrow> c \<in> receivers (mem s)"
    "thread_chan s t = Some c \<Longrightarrow> thread_chan s t' = Some c \<Longrightarrow> t = t'"
  using assms unfolding lp_inv_def by blast+

lemma owed_nonnull: "lp_inv s \<Longrightarrow> owed s u = Some c \<Longrightarrow> u \<noteq> 0"
  by (cases "u = 0") (simp_all add: lp_invD(2))

named_theorems mem_ops \<open>the operations on memory, unfolded\<close>

lemmas [mem_ops] = read_cstr_def lp_string_free_def take_cstr_def box_into_raw_def box_from_raw_def chan_send_def
  drop_receiver_def raw_trampoline_def sync_finish_def async_refused_def async_finish_def

text \<open>The results of \<open>call_json\<close> in \<open>Lp\<close> as functions of the host's answer.\<close>

definition invoke_result :: "crates \<Rightarrow> string \<Rightarrow> int \<times> bytes option \<times> bytes option \<Rightarrow> string + json" where
  "invoke_result C method ans =
     (case ans of (rc, result_json, error_json) \<Rightarrow>
        if rc \<noteq> 0 then
          Inl (case error_json of None \<Rightarrow> method @ '': lp error '' @ dec_int rc | Some _ \<Rightarrow> c_str error_json)
        else Inr (parse_ok C (c_str result_json)))"

definition async_result :: "crates \<Rightarrow> string \<Rightarrow> int \<times> (int \<times> bytes option) option \<Rightarrow> string + json" where
  "async_result C method ans =
     (case ans of (rc, reply) \<Rightarrow>
        if rc \<noteq> 0 then Inl (method @ '': lp_invoke_async dispatch failed rc='' @ dec_int rc)
        else case delivered reply of
          [] \<Rightarrow> Inl (method @ '': reply channel timed out'')
        | (ok, raw) # _ \<Rightarrow> if \<not> ok then Inl (method @ '': '' @ err_message C raw) else Inr (parse_ok C raw))"

lemma call_json_answers:
  assumes "client_ptr F tid target g = (Some p, g1)" "cstring_ok method" "cstring_ok (js_print C args)"
  shows "on_owner_thread tid g1 \<Longrightarrow> lp_invoke F p method (js_print C args) tmo (outside g1) = (ans, w) \<Longrightarrow>
      fst (call_json F C tid target method args tmo g) = invoke_result C method ans"
    and "\<not> on_owner_thread tid g1 \<Longrightarrow> lp_invoke_async F p method (js_print C args) tmo (outside g1) = (ans', w) \<Longrightarrow>
      fst (call_json F C tid target method args tmo g) = async_result C method ans'"
  using assms
  by (auto simp: call_json_def invoke_result_def async_result_def delivered_def reply_trampoline_def Let_def
      on_owner_thread_def split: prod.splits option.splits)

text \<open>What each operation returns where the pointers are live.\<close>

lemma take_cstr_live:
  "c_strings m p = Some b \<Longrightarrow> take_cstr p m = Some (from_utf8_lossy b, m\<lparr>c_strings := (c_strings m)(p := None)\<rparr>)"
  by (simp add: mem_ops)

lemma sync_finish_live:
  assumes "valid_ptr m r" "valid_ptr m e"
  shows "sync_finish C method rc r e m = Some (invoke_result C method (rc, string_at m r, string_at m e),
    let p = if rc \<noteq> 0 then e else r in if p = 0 then m else m\<lparr>c_strings := (c_strings m)(p := None)\<rparr>)"
proof (cases "rc \<noteq> 0")
  case True
  with assms(2) show ?thesis
    by (auto simp: sync_finish_def invoke_result_def string_at_def valid_ptr_def take_cstr_live c_str_def)
next
  case False
  with assms(1) show ?thesis
    by (auto simp: sync_finish_def invoke_result_def string_at_def valid_ptr_def take_cstr_live c_str_def)
qed

lemma async_refused_live:
  assumes "boxes m u = Some c"
  shows "async_refused method rc u rx m = Some (Inl (method @ '': lp_invoke_async dispatch failed rc='' @ dec_int rc),
    m\<lparr>boxes := (boxes m)(u := None), receivers := receivers m - {rx}\<rparr>)"
  using assms by (simp add: mem_ops)

lemma raw_trampoline_live:
  assumes "boxes m u = Some c" "u \<noteq> 0" "valid_ptr m json"
  shows "raw_trampoline ok json u m
    = Some (chan_send c (reply_trampoline ok (string_at m json)) (m\<lparr>boxes := (boxes m)(u := None)\<rparr>))"
  using assms by (auto simp: mem_ops valid_ptr_def string_at_def reply_trampoline_def c_str_def)

text \<open>A callback that comes a second time finds its box gone.\<close>

lemma second_callback_faults:
  "u \<noteq> 0 \<Longrightarrow> raw_trampoline ok json u m = Some m' \<Longrightarrow> raw_trampoline ok' json' u m' = None"
  by (auto simp: mem_ops split: option.splits if_splits)

lemma lp_inv_start: "lp_inv lp_start"
  by (simp add: lp_inv_def lp_start_def)

lemma lp_inv_dispatch:
  assumes "lp_inv s" "frames s t = None" "u \<noteq> 0" "boxes (mem s) u = None" "c = next_channel (mem s)"
  shows "lp_inv (s\<lparr>mem := box_into_raw u (mem s), owed := (owed s)(u \<mapsto> c),
    frames := (frames s)(t \<mapsto> Dispatching method u c)\<rparr>)"
proof -
  have new: "fired s c = None" "c \<notin> receivers (mem s)" "\<And>v. owed s v \<noteq> Some c" "\<And>t'. thread_chan s t' \<noteq> Some c"
    using lp_invD(3,6,7,9) [OF assms(1)] assms(5) by (force+)
  show ?thesis
    using assms new unfolding lp_inv_def
    by (intro conjI) (auto simp: box_into_raw_def delivered_def less_Suc_eq split: if_splits)
qed

lemma lp_inv_release:
  "lp_inv s \<Longrightarrow> lp_inv (s\<lparr>mem := (mem s)\<lparr>boxes := (boxes (mem s))(u := None)\<rparr>, owed := (owed s)(u := None)\<rparr>)"
  unfolding lp_inv_def by (intro conjI) (auto split: if_splits)

lemma lp_inv_drop:
  "lp_inv s \<Longrightarrow> thread_chan s t = Some c \<Longrightarrow> lp_inv (ends s t (drop_receiver c (mem s)))"
  unfolding lp_inv_def by (intro conjI) (auto simp: drop_receiver_def split: if_splits)

lemma lp_inv_deliver:
  "lp_inv s \<Longrightarrow> c < next_channel (mem s) \<Longrightarrow> fired s c = None \<Longrightarrow> (\<And>u. owed s u \<noteq> Some c) \<Longrightarrow>
   lp_inv (s\<lparr>mem := chan_send c (reply_trampoline ok p) (mem s), fired := (fired s)(c \<mapsto> (ok, p))\<rparr>)"
  unfolding lp_inv_def
  by (intro conjI) (auto simp: chan_send_def delivered_def reply_trampoline_def split: if_splits)

lemma lp_inv_reframe: "lp_inv s \<Longrightarrow> (\<And>t. Option.bind (f t) chan_of = thread_chan s t) \<Longrightarrow> lp_inv (s\<lparr>frames := f\<rparr>)"
  by (simp add: lp_inv_def)

lemma lp_inv_step:
  assumes "lp_step C s ev (Some s')" "lp_inv s"
  shows "lp_inv s'"
  using assms
proof (cases rule: lp_step.cases)
  case (invoke_returns t meth r e rc x m)
  obtain f where "m = (mem s)\<lparr>c_strings := f\<rparr>"
    using sync_finish_live [OF invoke_returns(4,5), of C meth rc] invoke_returns(6)
    by (cases "mem s") (auto simp: Let_def split: if_splits)
  with invoke_returns assms(2) show ?thesis by (auto simp: lp_inv_def)
next
  case (refuses t meth u c rc x m)
  let ?s = "s\<lparr>mem := (mem s)\<lparr>boxes := (boxes (mem s))(u := None)\<rparr>, owed := (owed s)(u := None)\<rparr>"
  have "lp_inv (ends ?s t (drop_receiver c (mem ?s)))"
    using lp_inv_drop [OF lp_inv_release [OF assms(2)]] refuses(3) by simp
  moreover have "m = drop_receiver c (mem ?s)"
    using async_refused_live [of "mem s" u c meth rc c] refuses(5,6) lp_invD(1) [OF assms(2)]
    by (simp add: drop_receiver_def)
  ultimately show ?thesis using refuses(2) by simp
next
  case (calls_back u c json ok m)
  let ?s = "s\<lparr>mem := (mem s)\<lparr>boxes := (boxes (mem s))(u := None)\<rparr>, owed := (owed s)(u := None)\<rparr>"
  note i = lp_invD [OF assms(2)]
  have "u \<noteq> 0" using owed_nonnull [OF assms(2) calls_back(3)] .
  with raw_trampoline_live [of "mem s" u c json ok] calls_back(3-5) i(1)
  have "m = chan_send c (reply_trampoline ok (string_at (mem s) json)) (mem ?s)" by simp
  moreover have "owed ?s v \<noteq> Some c" for v using i(5) [OF calls_back(3)] by auto
  ultimately show ?thesis
    using lp_inv_deliver [OF lp_inv_release [OF assms(2), of u], of c ok "string_at (mem s) json"] i(3,4) calls_back(2,3)
    by simp
next
  case (returns t meth c x m)
  with lp_inv_drop [OF assms(2), of t c] show ?thesis by (simp add: async_finish_def)
qed (auto simp: lp_inv_dispatch intro!: lp_inv_reframe, auto simp: lp_inv_def)

lemma lp_reachable_inv: "lp_reachable C s \<Longrightarrow> lp_inv s"
  by (induction rule: lp_reachable.induct) (auto intro: lp_inv_start lp_inv_step)

section \<open>Memory safety and refinement\<close>

text \<open>
  C16. No call and no callback touches memory that is not live, in any interleaving of any number of threads
  with a host that calls each accepted dispatch back at most once: there is no double free and no use
  after free, even when the callback comes before the dispatch returns or after the caller timed out.
  And nothing leaks on the caller's side: a reply box is live exactly while the host still owes the
  callback that frees it.
\<close>

theorem lp_memory_safe:
  assumes "lp_reachable C s"
  shows "\<not> lp_step C s ev None \<and> boxes (mem s) = owed s"
proof
  note i = lp_invD [OF lp_reachable_inv [OF assms]]
  show "boxes (mem s) = owed s" by (rule i(1))
  have nz: "u \<noteq> 0" if "owed s u = Some c" for u c using owed_nonnull [OF lp_reachable_inv [OF assms] that] .
  show "\<not> lp_step C s ev None"
  proof
    assume "lp_step C s ev None"
    then show False
      by (cases rule: lp_step.cases)
         (use i(1) nz in \<open>auto simp: sync_finish_live raw_trampoline_live async_refused_live\<close>)
  qed
qed

lemma invoked_result: "lp_step C s (Invoked t method ans x) (Some s') \<Longrightarrow> x = invoke_result C method ans"
  by (cases rule: lp_step.cases) (auto simp: sync_finish_live)

lemma replied_result:
  assumes "lp_reachable C s" "lp_step C s (Replied t method ans x) (Some s')"
  shows "x = async_result C method ans"
proof -
  note i = lp_invD [OF lp_reachable_inv [OF assms(1)]]
  from assms(2) show ?thesis
  proof (cases rule: lp_step.cases)
    case (refuses u c rc m)
    with i(1) show ?thesis by (simp add: async_refused_live async_result_def)
  next
    case (returns c m)
    from i(9) [of t c] returns(3) have "queues (mem s) c = delivered (fired s c)" by (intro i(8)) simp
    with returns show ?thesis by (simp add: async_result_def async_finish_def)
  qed
qed

text \<open>
  C17. The call on raw memory refines \<open>call_json\<close>: when a call ends in the system of threads and callbacks,
  its result is the one \<open>call_json\<close> computes from the host's answer. For a call off the owner thread
  that answer is the code of its own dispatch and, if it came in time, its own callback; a reply never
  reaches another call.
\<close>

theorem raw_call_refines:
  assumes "lp_reachable C s" "client_ptr F tid target g = (Some p, g1)"
    and "cstring_ok method" "cstring_ok (js_print C args)"
  shows "(on_owner_thread tid g1 \<longrightarrow> lp_step C s (Invoked t method ans x) (Some s') \<longrightarrow>
      lp_invoke F p method (js_print C args) tmo (outside g1) = (ans, w) \<longrightarrow>
      fst (call_json F C tid target method args tmo g) = x)
    \<and> (\<not> on_owner_thread tid g1 \<longrightarrow> lp_step C s (Replied t method ans' x) (Some s') \<longrightarrow>
      lp_invoke_async F p method (js_print C args) tmo (outside g1) = (ans', w) \<longrightarrow>
      fst (call_json F C tid target method args tmo g) = x)"
  using call_json_answers [OF assms(2-4), of tmo] invoked_result replied_result [OF assms(1)] by blast

text \<open>The wait on the channel never overflows with a timeout the code uses.\<close>

lemma reply_wait_exact:
  assumes "0 \<le> tmo" "tmo < 2 ^ 31"
  shows "unat (fst (reply_wait (word_of_int tmo))) = nat tmo + 10000 \<and> \<not> snd (reply_wait (word_of_int tmo))"
proof -
  have "signed_take_bit 31 tmo = tmo" using assms by (intro signed_take_bit_int_eq_self) simp_all
  then have "sint (word_of_int tmo :: 32 word) = tmo" by (simp add: sint_sbintrunc')
  then have "scast (word_of_int tmo :: 32 word) = (word_of_int tmo :: u64)" by (simp add: scast_eq)
  moreover have "unat (word_of_int tmo :: u64) = nat tmo"
    using assms by (simp add: unsigned_of_int take_bit_int_eq_self)
  ultimately show ?thesis using assms by (simp add: reply_wait_def Let_def unat_plus_simple [THEN iffD1] unat_word_ariths)
qed

end
