(* ===== verification/Sample_Calls.thy ===== *)
theory Sample_Calls
  imports Lp_Memory Sample_World
begin

text \<open>
  Two short runs of the raw calls of \<open>Lp_Memory\<close>: a callback that comes before \<open>lp_invoke_async\<close> has
  returned, and one that is still owed after the caller gave up.
\<close>

definition early_reply :: lp_sys where
  "early_reply =
     \<lparr>mem = \<lparr>boxes = Map.empty, c_strings = [32 \<mapsto> as_bytes ''V''], queues = (\<lambda>_. [])(0 := [(True, ''V'')]),
         receivers = {0}, next_channel = 1\<rparr>,
      frames = [5 \<mapsto> Awaiting ''m'' 0], owed = Map.empty, fired = [0 \<mapsto> (1, Some (as_bytes ''V''))]\<rparr>"

definition late_reply :: lp_sys where
  "late_reply =
     \<lparr>mem = \<lparr>boxes = [16 \<mapsto> 0], c_strings = Map.empty, queues = (\<lambda>_. [])(0 := []), receivers = {}, next_channel = 1\<rparr>,
      frames = Map.empty, owed = [16 \<mapsto> 0], fired = Map.empty\<rparr>"

lemma sample_utf8: "from_utf8_lossy (as_bytes ''V'') = ''V''"
  using valid_str_ascii [of "''V''"] by (simp del: as_bytes_simps)

lemma dispatched_reachable:
  "lp_reachable C (lp_start\<lparr>mem := box_into_raw 16 (mem lp_start), owed := [16 \<mapsto> 0],
     frames := [5 \<mapsto> Dispatching ''m'' 16 0]\<rparr>)" (is "lp_reachable C ?s")
proof -
  have "lp_step C lp_start Internal (Some ?s)"
    using lp_step.dispatches [of lp_start 5 16 0 C "''m''"] by (simp add: lp_start_def)
  then show ?thesis by (rule lp_reachable.step [OF lp_reachable.start])
qed

lemma early_reply_reachable: "lp_reachable C early_reply"
proof -
  let ?s1 = "lp_start\<lparr>mem := box_into_raw 16 (mem lp_start), owed := [16 \<mapsto> 0], frames := [5 \<mapsto> Dispatching ''m'' 16 0]\<rparr>"
  let ?s2 = "?s1\<lparr>mem := (mem ?s1)\<lparr>c_strings := (c_strings (mem ?s1))(32 \<mapsto> as_bytes ''V'')\<rparr>\<rparr>"
  let ?s3 = "early_reply\<lparr>frames := [5 \<mapsto> Dispatching ''m'' 16 0]\<rparr>"
  have "lp_step C ?s1 Internal (Some ?s2)"
    by (rule lp_step.host_allocates) (simp_all add: box_into_raw_def lp_start_def del: as_bytes_simps)
  then have "lp_reachable C ?s2" by (rule lp_reachable.step [OF dispatched_reachable])
  moreover have "lp_step C ?s2 Internal (Some ?s3)"
    using lp_step.calls_back [of ?s2 16 0 32 1 _ C]
    by (simp add: mem_ops valid_ptr_def string_at_def lp_start_def early_reply_def sample_utf8 del: as_bytes_simps)
  ultimately have "lp_reachable C ?s3" by (rule lp_reachable.step)
  moreover have "lp_step C ?s3 Internal (Some early_reply)"
    using lp_step.accepts [of ?s3 5 "''m''" 16 0 C] by (simp add: early_reply_def del: as_bytes_simps)
  ultimately show ?thesis by (rule lp_reachable.step)
qed

lemma late_reply_reachable: "lp_reachable C late_reply"
proof -
  let ?s1 = "lp_start\<lparr>mem := box_into_raw 16 (mem lp_start), owed := [16 \<mapsto> 0], frames := [5 \<mapsto> Dispatching ''m'' 16 0]\<rparr>"
  let ?s2 = "?s1\<lparr>frames := [5 \<mapsto> Awaiting ''m'' 0]\<rparr>"
  have "lp_step C ?s1 Internal (Some ?s2)"
    using lp_step.accepts [of ?s1 5 "''m''" 16 0 C] by simp
  then have "lp_reachable C ?s2" by (rule lp_reachable.step [OF dispatched_reachable])
  moreover have "lp_step C ?s2 (Replied 5 ''m'' (0, None) (Inl ''m: reply channel timed out'')) (Some late_reply)"
    using lp_step.returns [of ?s2 5 "''m''" 0 C] by (simp add: mem_ops lp_start_def late_reply_def)
  ultimately show ?thesis by (rule lp_reachable.step)
qed

theorem lp_memory_safe_witness:
  "owed late_reply 16 = Some 0 \<and> \<not> lp_step sample_crates late_reply Internal None
    \<and> boxes (mem late_reply) = owed late_reply"
  using lp_memory_safe [OF late_reply_reachable, of sample_crates Internal] by (simp add: late_reply_def)

theorem raw_call_refines_witness:
  "fst (call_json (sample_ffi\<lparr>lp_invoke_async := (\<lambda>_ _ _ _ w. ((0, Some (1, Some (as_bytes ''V''))), w))\<rparr>)
      sample_crates 5 RLN_MODULE ''m'' (JArr []) 1000 sample_state) = Inr (parse_ok sample_crates ''V'')"
proof -
  let ?F = "sample_ffi\<lparr>lp_invoke_async := (\<lambda>_ _ _ _ w. ((0, Some (1, Some (as_bytes ''V''))), w))\<rparr>"
  have off: "\<not> on_owner_thread 5 sample_state" by (simp add: on_owner_thread_def sample_state_def)
  have ptr: "client_ptr ?F 5 RLN_MODULE sample_state = (Some 1, sample_state)"
    unfolding client_ptr_off_owner [OF off]
    by (simp add: client_table_def sample_state_def RLN_MODULE_def LIBP2P_MODULE_def)
  have ok: "cstring_ok ''m''" "cstring_ok (js_print sample_crates (JArr []))"
    by (simp_all add: cstring_ok_def sample_crates_def)
  have "lp_step sample_crates early_reply (Replied 5 ''m'' (0, Some (1, Some (as_bytes ''V'')))
      (Inr (parse_ok sample_crates ''V''))) (Some (ends early_reply 5 (drop_receiver 0 (mem early_reply))))"
    using lp_step.returns [of early_reply 5 "''m''" 0 sample_crates]
    by (simp add: early_reply_def async_finish_def del: as_bytes_simps)
  with off show ?thesis
    using raw_call_refines [OF early_reply_reachable ptr ok] by (simp del: as_bytes_simps)
qed

end
