(* ===== verification/Mint_Keccak.thy ===== *)
theory Mint_Keccak
  imports Gifter_Prelude
begin

text \<open>
  Keccak-256 as \<open>tools/mint_attest.py\<close> computes it: the compact permutation with its rotations and
  round constants made on the fly. Lanes are 64-bit words, \<open>lanes ! x ! y\<close> in the source's order. The
  permutation is the one of the standard, stated with its five step mappings and its tables.
\<close>

section \<open>The tool's code\<close>

type_synonym lanes = "u64 list list"

definition rol64 :: "u64 \<Rightarrow> nat \<Rightarrow> u64" where
  "rol64 a n = drop_bit (64 - n mod 64) a + push_bit (n mod 64) a"

definition set_lane :: "lanes \<Rightarrow> nat \<Rightarrow> nat \<Rightarrow> u64 \<Rightarrow> lanes" where
  "set_lane A x y v = A[x := (A ! x)[y := v]]"

definition mix_columns :: "lanes \<Rightarrow> lanes" where
  "mix_columns A =
     (let C = map (\<lambda>x. A ! x ! 0 XOR A ! x ! 1 XOR A ! x ! 2 XOR A ! x ! 3 XOR A ! x ! 4) [0..<5];
          D = map (\<lambda>x. C ! ((x + 4) mod 5) XOR rol64 (C ! ((x + 1) mod 5)) 1) [0..<5]
      in map (\<lambda>x. map (\<lambda>y. A ! x ! y XOR D ! x) [0..<5]) [0..<5])"

text \<open>The walk over the lanes that rotates each and moves it to the place of the next.\<close>

fun walk_step :: "nat \<Rightarrow> nat \<times> nat \<times> u64 \<times> lanes \<Rightarrow> nat \<times> nat \<times> u64 \<times> lanes" where
  "walk_step t (x, y, current, A) =
     (let (x', y') = (y, (2 * x + 3 * y) mod 5)
      in (x', y', A ! x' ! y', set_lane A x' y' (rol64 current ((t + 1) * (t + 2) div 2))))"

definition walk :: "lanes \<Rightarrow> lanes" where
  "walk A = snd (snd (snd (fold walk_step [0..<24] (1, 0, A ! 1 ! 0, A))))"

definition mix_row :: "nat \<Rightarrow> lanes \<Rightarrow> lanes" where
  "mix_row y A =
     (let T = map (\<lambda>x. A ! x ! y) [0..<5]
      in fold (\<lambda>x A. set_lane A x y (T ! x XOR (NOT (T ! ((x + 1) mod 5)) AND T ! ((x + 2) mod 5)))) [0..<5] A)"

text \<open>The round constant, one bit at a time from a shift register.\<close>

fun constant_step :: "nat \<Rightarrow> int \<times> lanes \<Rightarrow> int \<times> lanes" where
  "constant_step j (R, A) =
     (let R' = (R * 2 XOR (R div 2 ^ 7 * 0x71)) mod 256
      in (R', if R' AND 2 \<noteq> 0 then set_lane A 0 0 (A ! 0 ! 0 XOR push_bit (2 ^ j - 1) 1) else A))"

fun keccak_round :: "int \<times> lanes \<Rightarrow> int \<times> lanes" where
  "keccak_round (R, A) = fold constant_step [0..<7] (R, fold mix_row [0..<5] (walk (mix_columns A)))"

definition keccak_f :: "lanes \<Rightarrow> lanes" where
  "keccak_f A = snd ((keccak_round ^^ 24) (1, A))"

definition le_word :: "bytes \<Rightarrow> u64" where
  "le_word b = foldr (\<lambda>x a. ucast x OR push_bit 8 a) b 0"

definition le_bytes :: "u64 \<Rightarrow> bytes" where
  "le_bytes w = map (\<lambda>i. ucast (drop_bit (8 * i) w)) [0..<8]"

definition keccak_rate :: nat where "keccak_rate = 136"

definition keccak_pad :: "bytes \<Rightarrow> bytes" where
  "keccak_pad data =
     (let m = data @ [1];
          msg = m @ replicate (nat (- int (length m) mod int keccak_rate)) 0
      in butlast msg @ [last msg XOR 0x80])"

definition absorb :: "bytes \<Rightarrow> lanes \<Rightarrow> lanes" where
  "absorb block A =
     keccak_f (fold (\<lambda>i A. set_lane A (i mod 5) (i div 5)
         (A ! (i mod 5) ! (i div 5) XOR le_word (take 8 (drop (8 * i) block))))
       [0..<keccak_rate div 8] A)"

definition mint_keccak256 :: "bytes \<Rightarrow> bytes" where
  "mint_keccak256 data =
     (let msg = keccak_pad data;
          A = fold (\<lambda>i. absorb (take keccak_rate (drop (i * keccak_rate) msg))) [0..<length msg div keccak_rate]
            (replicate 5 (replicate 5 0))
      in concat (map (\<lambda>i. le_bytes (A ! (i mod 5) ! (i div 5))) [0..<4]))"

section \<open>The standard\<close>

text \<open>
  The step mappings of Keccak-f on a function of the coordinates, with the rotation offsets and the
  round constants from the standard's tables.
\<close>

type_synonym kstate = "nat \<Rightarrow> nat \<Rightarrow> u64"

definition k_theta :: "kstate \<Rightarrow> kstate" where
  "k_theta a x y =
     (let c = (\<lambda>x. a x 0 XOR a x 1 XOR a x 2 XOR a x 3 XOR a x 4)
      in a x y XOR (c ((x + 4) mod 5) XOR word_rotl 1 (c ((x + 1) mod 5))))"

definition k_offsets :: "nat list list" where
  "k_offsets = [[0, 36, 3, 41, 18], [1, 44, 10, 45, 2], [62, 6, 43, 15, 61], [28, 55, 25, 21, 56], [27, 20, 39, 8, 14]]"

definition k_rho :: "kstate \<Rightarrow> kstate" where
  "k_rho a x y = word_rotl (k_offsets ! x ! y) (a x y)"

definition k_pi :: "kstate \<Rightarrow> kstate" where
  "k_pi a x y = a ((x + 3 * y) mod 5) x"

definition k_chi :: "kstate \<Rightarrow> kstate" where
  "k_chi a x y = a x y XOR (NOT (a ((x + 1) mod 5) y) AND a ((x + 2) mod 5) y)"

definition k_constants :: "u64 list" where
  "k_constants =
     [0x0000000000000001, 0x0000000000008082, 0x800000000000808A, 0x8000000080008000, 0x000000000000808B,
      0x0000000080000001, 0x8000000080008081, 0x8000000000008009, 0x000000000000008A, 0x0000000000000088,
      0x0000000080008009, 0x000000008000000A, 0x000000008000808B, 0x800000000000008B, 0x8000000000008089,
      0x8000000000008003, 0x8000000000008002, 0x8000000000000080, 0x000000000000800A, 0x800000008000000A,
      0x8000000080008081, 0x8000000000008080, 0x0000000080000001, 0x8000000080008008]"

definition k_iota :: "u64 \<Rightarrow> kstate \<Rightarrow> kstate" where
  "k_iota rc a x y = (if x = 0 \<and> y = 0 then a x y XOR rc else a x y)"

definition keccak_f_spec :: "kstate \<Rightarrow> kstate" where
  "keccak_f_spec a = fold (\<lambda>rc a. k_iota rc (k_chi (k_pi (k_rho (k_theta a))))) k_constants a"

text \<open>The sponge with the padding \<open>10*1\<close>, a rate of 136 bytes and an output of 32.\<close>

definition multi_rate_pad :: "nat \<Rightarrow> bytes" where
  "multi_rate_pad n =
     (let q = keccak_rate - n mod keccak_rate in if q = 1 then [0x81] else [0x01] @ replicate (q - 2) 0 @ [0x80])"

definition absorb_spec :: "bytes \<Rightarrow> kstate \<Rightarrow> kstate" where
  "absorb_spec block a =
     keccak_f_spec (\<lambda>x y. if x + 5 * y < 17 then a x y XOR le_word (take 8 (drop (8 * (x + 5 * y)) block)) else a x y)"

fun sponge_spec :: "bytes \<Rightarrow> kstate \<Rightarrow> kstate" where
  "sponge_spec m a =
     (if length m < keccak_rate \<or> keccak_rate = 0 then a
      else sponge_spec (drop keccak_rate m) (absorb_spec (take keccak_rate m) a))"

declare sponge_spec.simps [simp del]

definition keccak256_spec :: "bytes \<Rightarrow> bytes" where
  "keccak256_spec data =
     (let a = sponge_spec (data @ multi_rate_pad (length data)) (\<lambda>_ _. 0)
      in le_bytes (a 0 0) @ le_bytes (a 1 0) @ le_bytes (a 2 0) @ le_bytes (a 3 0))"

section \<open>Equivalence\<close>

definition grid :: "kstate \<Rightarrow> lanes" where
  "grid a = map (\<lambda>x. map (a x) [0..<5]) [0..<5]"

lemma grid_nth [simp]: "x < 5 \<Longrightarrow> y < 5 \<Longrightarrow> grid a ! x ! y = a x y"
  by (simp add: grid_def)

lemma less_5_cases: "(n :: nat) < 5 \<Longrightarrow> n = 0 \<or> n = 1 \<or> n = 2 \<or> n = 3 \<or> n = 4"
  by linarith

lemma grid_unfold: "grid a = [[a 0 0, a 0 1, a 0 2, a 0 3, a 0 4], [a 1 0, a 1 1, a 1 2, a 1 3, a 1 4],
    [a 2 0, a 2 1, a 2 2, a 2 3, a 2 4], [a 3 0, a 3 1, a 3 2, a 3 3, a 3 4], [a 4 0, a 4 1, a 4 2, a 4 3, a 4 4]]"
  by (simp add: grid_def upt_rec numeral_eq_Suc)

lemma rol64_rotl: "rol64 a n = word_rotl (n mod 64) a"
proof -
  have "rol64 a n = drop_bit (64 - n mod 64) a OR push_bit (n mod 64) a"
    unfolding rol64_def
    by (rule disjunctive_add) (auto simp: bit_simps dest!: bit_imp_le_length)
  also have "\<dots> = word_rotl (n mod 64) a"
  proof (rule bit_word_eqI)
    fix i assume "i < LENGTH(64)"
    then have i: "i < 64" by simp
    have m: "n mod 64 < 64" by simp
    have "(i + 64 - n mod 64) mod 64 = (if n mod 64 \<le> i then i - n mod 64 else 64 + i - n mod 64)"
    proof (cases "n mod 64 \<le> i")
      case True
      then have "i + 64 - n mod 64 = (i - n mod 64) + 64" by linarith
      with i True show ?thesis by (metis less_imp_diff_less mod_add_self2 mod_less)
    next
      case False
      with i m show ?thesis by (simp add: add.commute)
    qed
    moreover have "\<not> bit a (64 + i - n mod 64)" if "n mod 64 \<le> i"
      using bit_imp_le_length [of a "64 + i - n mod 64"] that by auto
    ultimately show "bit (drop_bit (64 - n mod 64) a OR push_bit (n mod 64) a) i = bit (word_rotl (n mod 64) a) i"
      using i m by (auto simp: bit_simps)
  qed
  finally show ?thesis .
qed

lemma mix_columns_grid: "mix_columns (grid a) = grid (k_theta a)"
proof -
  have "map (\<lambda>x. map (\<lambda>y. grid a ! x ! y XOR
        map (\<lambda>x. map (\<lambda>x. grid a ! x ! 0 XOR grid a ! x ! 1 XOR grid a ! x ! 2 XOR grid a ! x ! 3 XOR grid a ! x ! 4) [0..<5]
            ! ((x + 4) mod 5) XOR rol64 (map (\<lambda>x. grid a ! x ! 0 XOR grid a ! x ! 1 XOR grid a ! x ! 2 XOR grid a ! x ! 3
              XOR grid a ! x ! 4) [0..<5] ! ((x + 1) mod 5)) 1) [0..<5] ! x) [0..<5]) [0..<5]
      = grid (k_theta a)"
    unfolding grid_def [of "k_theta a"]
    by (intro map_cong refl) (simp add: k_theta_def rol64_rotl Let_def)
  then show ?thesis by (simp add: mix_columns_def Let_def)
qed

lemma walk_grid: "walk (grid a) = grid (k_pi (k_rho a))"
proof -
  have [simp]: "word_rotl 0 w = w" for w :: u64 by (rule bit_word_eqI) (auto simp: bit_simps)
  show ?thesis
    unfolding walk_def grid_unfold
    by (simp add: upt_rec set_lane_def k_pi_def k_rho_def k_offsets_def rol64_rotl)
qed

lemma mix_rows_grid: "fold mix_row [0..<5] (grid a) = grid (k_chi a)"
  unfolding grid_unfold by (simp add: upt_rec mix_row_def set_lane_def k_chi_def Let_def numeral_2_eq_2)

text \<open>The register's walk through one round, and the constant it leaves.\<close>

fun register_step :: "nat \<Rightarrow> int \<times> u64 \<Rightarrow> int \<times> u64" where
  "register_step j (R, c) =
     (let R' = (R * 2 XOR (R div 2 ^ 7 * 0x71)) mod 256
      in (R', if R' AND 2 \<noteq> 0 then c XOR push_bit (2 ^ j - 1) 1 else c))"

definition register_round :: "int \<Rightarrow> int \<times> u64" where
  "register_round R = fold register_step [0..<7] (R, 0)"

primrec register_constants :: "nat \<Rightarrow> int \<Rightarrow> u64 list" where
  "register_constants 0 R = []"
| "register_constants (Suc n) R = (case register_round R of (R', c) \<Rightarrow> c # register_constants n R')"

lemma set_lane_iota: "set_lane (grid (k_iota c a)) 0 0 (grid (k_iota c a) ! 0 ! 0 XOR d) = grid (k_iota (c XOR d) a)"
  by (simp add: grid_unfold set_lane_def k_iota_def xor.assoc)

lemma constant_steps:
  "fold constant_step js (R, grid (k_iota c a))
    = (case fold register_step js (R, c) of (R', c') \<Rightarrow> (R', grid (k_iota c' a)))"
  by (induction js arbitrary: R c) (simp_all add: Let_def set_lane_iota del: grid_nth)

definition spec_round :: "u64 \<Rightarrow> kstate \<Rightarrow> kstate" where
  "spec_round rc a = k_iota rc (k_chi (k_pi (k_rho (k_theta a))))"

lemma keccak_round_grid:
  "keccak_round (R, grid a) = (case register_round R of (R', c) \<Rightarrow> (R', grid (spec_round c a)))"
proof -
  have "grid b = grid (k_iota 0 b)" for b by (simp add: grid_unfold k_iota_def)
  then show ?thesis
    by (simp add: mix_columns_grid walk_grid mix_rows_grid register_round_def spec_round_def)
       (metis constant_steps)
qed

lemma keccak_rounds_grid:
  "snd ((keccak_round ^^ n) (R, grid a)) = grid (fold spec_round (register_constants n R) a)"
  by (induction n arbitrary: R a) (simp_all add: funpow_Suc_right keccak_round_grid del: funpow.simps keccak_round.simps split: prod.split)

lemma register_constants_table: "register_constants 24 1 = k_constants"
  by code_simp

lemma keccak_f_grid: "keccak_f (grid a) = grid (keccak_f_spec a)"
proof -
  have "spec_round = (\<lambda>rc a. k_iota rc (k_chi (k_pi (k_rho (k_theta a)))))"
    by (intro ext) (simp add: spec_round_def)
  then show ?thesis
    using keccak_rounds_grid [of 24 1 a] by (simp add: keccak_f_def keccak_f_spec_def register_constants_table)
qed

lemma absorb_grid: "absorb block (grid a) = grid (absorb_spec block a)"
proof -
  have "fold (\<lambda>i A. set_lane A (i mod 5) (i div 5)
          (A ! (i mod 5) ! (i div 5) XOR le_word (take 8 (drop (8 * i) block)))) [0..<17] (grid a)
      = grid (\<lambda>x y. if x + 5 * y < 17 then a x y XOR le_word (take 8 (drop (8 * (x + 5 * y)) block)) else a x y)"
    unfolding grid_unfold by (simp add: upt_rec set_lane_def)
  then show ?thesis by (simp add: absorb_def absorb_spec_def keccak_rate_def keccak_f_grid)
qed

lemma keccak_pad_multi_rate: "keccak_pad data = data @ multi_rate_pad (length data)"
proof -
  let ?n = "length data" and ?q = "keccak_rate - length data mod keccak_rate"
  have q: "1 \<le> ?q" "?q \<le> 136" by (auto simp: keccak_rate_def Suc_le_eq)
  have "- int (length (data @ [1])) = (135 - int (?n mod 136)) + 136 * (- int (?n div 136) - 1)"
    using arg_cong [OF div_mult_mod_eq [of ?n 136], of int] by (simp only: length_append of_nat_add of_nat_mult) simp
  then have "- int (length (data @ [1])) mod 136 = (135 - int (?n mod 136)) mod 136"
    by (metis mod_mult_self2)
  also have "\<dots> = 135 - int (?n mod 136)"
    using mod_less_divisor [of 136 ?n] by (intro mod_pos_pos_trivial) linarith+
  finally have "nat (- int (length (data @ [1])) mod int keccak_rate) = ?q - 1"
    using mod_less_divisor [of 136 ?n] by (simp add: keccak_rate_def nat_diff_distrib)
  then have "keccak_pad data = butlast (data @ [1] @ replicate (?q - 1) 0) @ [last (data @ [1] @ replicate (?q - 1) 0) XOR 0x80]"
    by (simp add: keccak_pad_def Let_def)
  also have "\<dots> = data @ multi_rate_pad ?n"
  proof (cases "?q = 1")
    case True
    then show ?thesis by (simp add: multi_rate_pad_def butlast_append)
  next
    case False
    with q(1) obtain k where "?q = Suc (Suc k)" by (metis One_nat_def Suc_le_D le_SucE nat_le_linear not0_implies_Suc not_one_le_zero)
    then show ?thesis by (simp add: multi_rate_pad_def butlast_append replicate_append_same [symmetric])
  qed
  finally show ?thesis .
qed

lemma multi_rate_pad_length: "(length data + length (multi_rate_pad (length data))) mod keccak_rate = 0"
proof -
  let ?n = "length data"
  have "length (multi_rate_pad ?n) = keccak_rate - ?n mod keccak_rate"
    using mod_less_divisor [of 136 ?n] by (auto simp: multi_rate_pad_def Let_def keccak_rate_def)
  moreover have "?n + (k - ?n mod k) = ?n div k * k + k" if "0 < k" for k
    using mod_less_divisor [OF that, of ?n] div_mult_mod_eq [of ?n k] by linarith
  ultimately show ?thesis by (simp add: keccak_rate_def)
qed

lemma sponge_grid:
  assumes "length m = n * keccak_rate"
  shows "fold (\<lambda>i. absorb (take keccak_rate (drop (i * keccak_rate) m))) [0..<n] (grid a) = grid (sponge_spec m a)"
  using assms
proof (induction n arbitrary: m a)
  case 0
  then show ?case by (simp add: sponge_spec.simps keccak_rate_def)
next
  case (Suc n)
  have r: "keccak_rate > 0" by (simp add: keccak_rate_def)
  have "fold (\<lambda>i. absorb (take keccak_rate (drop (i * keccak_rate) m))) [0..<Suc n] (grid a)
    = fold (\<lambda>i. absorb (take keccak_rate (drop (i * keccak_rate) (drop keccak_rate m)))) [0..<n]
        (grid (absorb_spec (take keccak_rate m) a))"
    by (simp add: upt_conv_Cons map_Suc_upt [symmetric] fold_map comp_def absorb_grid add.commute del: upt_Suc)
  also have "\<dots> = grid (sponge_spec (drop keccak_rate m) (absorb_spec (take keccak_rate m) a))"
    by (rule Suc.IH) (simp add: Suc.prems)
  also have "\<dots> = grid (sponge_spec m a)"
    using Suc.prems r by (subst (2) sponge_spec.simps) simp
  finally show ?case .
qed

lemma mint_keccak256_spec: "mint_keccak256 data = keccak256_spec data"
proof -
  let ?m = "data @ multi_rate_pad (length data)"
  have "length ?m = (length ?m div keccak_rate) * keccak_rate"
    using multi_rate_pad_length [of data] by (simp add: mod_0_imp_dvd)
  note s = sponge_grid [OF this, of "\<lambda>_ _. 0"]
  have z: "replicate 5 (replicate 5 (0 :: u64)) = grid (\<lambda>_ _. 0)" by (simp add: grid_unfold numeral_eq_Suc)
  show ?thesis
    unfolding mint_keccak256_def keccak_pad_multi_rate z Let_def s keccak256_spec_def
    by (simp add: upt_rec numeral_2_eq_2)
qed

text \<open>
  C39. The tool's Keccak-256 is the standard's: for every message, the compact permutation with its
  walking rotations and shift-register constants, and the padding by setting two bits in place,
  compute the sponge over the five step mappings with the tables and the \<open>10*1\<close> padding.
\<close>

theorem keccak256_standard: "mint_keccak256 data = keccak256_spec data"
  by (rule mint_keccak256_spec)

end
