(* ===== verification/Mint_Attest.thy ===== *)
theory Mint_Attest
  imports Keycard_Auth Mint_Keccak
begin

text \<open>
  \<open>tools/mint_attest.py\<close>, which mints attestations for tests: secp256k1 and ECDSA over Python's integers,
  DER and the document it prints (its Keccak-256 is in \<open>Mint_Keccak\<close>). \<open>hashlib.sha256\<close> is the parameter \<open>sha\<close>; \<open>bytes.hex\<close> is the
  hexadecimal text of \<open>crates\<close>. Private keys are natural numbers (a negative literal on the command line
  would keep \<open>_mul\<close> running for ever).
\<close>

datatype py_error = ValueError | OverflowError | TypeError

section \<open>Integers and bytes\<close>

primrec be_bytes :: "nat \<Rightarrow> nat \<Rightarrow> bytes" where
  "be_bytes 0 v = []"
| "be_bytes (Suc n) v = be_bytes n (v div 256) @ [of_nat (v mod 256)]"

text \<open>\<open>int.to_bytes(n, "big")\<close>, \<open>int.from_bytes(b, "big")\<close> and \<open>int.bit_length\<close>.\<close>

definition to_bytes :: "nat \<Rightarrow> int \<Rightarrow> (py_error, bytes) outcome" where
  "to_bytes n v = (if v < 0 \<or> 256 ^ n \<le> v then Err OverflowError else Ok (be_bytes n (nat v)))"

definition from_bytes :: "bytes \<Rightarrow> int" where
  "from_bytes b = foldl (\<lambda>a x. a * 256 + uint x) 0 b"




text \<open>\<open>pow(a, -1, m)\<close> by Euclid's algorithm: \<open>r0\<close> and \<open>r1\<close> are \<open>t0\<close> and \<open>t1\<close> times \<open>a\<close> modulo \<open>m\<close>.\<close>

function inv_loop :: "int \<Rightarrow> int \<Rightarrow> int \<Rightarrow> int \<Rightarrow> int \<times> int" where
  "inv_loop r0 r1 t0 t1 =
     (if r1 \<le> 0 then (r0, t0) else inv_loop r1 (r0 mod r1) t1 (t0 - r0 div r1 * t1))"
  by auto
termination by (relation "measure (\<lambda>(r0, r1, t0, t1). nat r1)") simp_all

declare inv_loop.simps [simp del]

definition py_inv :: "int \<Rightarrow> int \<Rightarrow> (py_error, int) outcome" where
  "py_inv a m =
     (case inv_loop m (a mod m) 0 1 of (g, t) \<Rightarrow> if g = 1 then Ok (t mod m) else Err ValueError)"

section \<open>The curve\<close>

definition mint_P :: int where
  "mint_P = 0xFFFFFFFFFFFFFFFFFFFFFFFFFFFFFFFFFFFFFFFFFFFFFFFFFFFFFFFEFFFFFC2F"

definition mint_N :: int where
  "mint_N = 0xFFFFFFFFFFFFFFFFFFFFFFFFFFFFFFFEBAAEDCE6AF48A03BBFD25E8CD0364141"

type_synonym point = "(int \<times> int) option"

definition mint_G :: point where
  "mint_G = Some (0x79BE667EF9DCBBAC55A06295CE870B07029BFCDB2DCE28D959F2815B16F81798,
     0x483ADA7726A3C4655DA4FBFC0E1108A8FD17B448A68554199C47D08FFB10D4B8)"

definition ec_add :: "point \<Rightarrow> point \<Rightarrow> (py_error, point) outcome" where
  "ec_add p q =
     (case (p, q) of
        (None, _) \<Rightarrow> Ok q
      | (_, None) \<Rightarrow> Ok p
      | (Some (px, py), Some (qx, qy)) \<Rightarrow>
          if px = qx \<and> (py + qy) mod mint_P = 0 then Ok None
          else
            and_then
              (if px = qx \<and> py = qy
               then and_then (py_inv (2 * py) mint_P) (\<lambda>i. Ok ((3 * px * px) * i mod mint_P))
               else and_then (py_inv (qx - px) mint_P) (\<lambda>i. Ok ((qy - py) * i mod mint_P)))
              (\<lambda>lam.
                 let x = (lam * lam - px - qx) mod mint_P
                 in Ok (Some (x, (lam * (px - x) - py) mod mint_P))))"

fun mul_loop :: "nat \<Rightarrow> point \<Rightarrow> point \<Rightarrow> (py_error, point) outcome" where
  "mul_loop k p r =
     (if k = 0 then Ok r
      else
        and_then (if odd k then ec_add r p else Ok r) (\<lambda>r'.
        and_then (ec_add p p) (\<lambda>p'. mul_loop (k div 2) p' r')))"

declare mul_loop.simps [simp del]

definition ec_mul :: "nat \<Rightarrow> point \<Rightarrow> (py_error, point) outcome" where
  "ec_mul k p = mul_loop k p None"

definition pub_point :: "nat \<Rightarrow> (py_error, point) outcome" where
  "pub_point priv = ec_mul priv mint_G"

text \<open>Unpacking \<open>None\<close> into a pair is a \<open>TypeError\<close>.\<close>

definition coordinates :: "point \<Rightarrow> (py_error, int \<times> int) outcome" where
  "coordinates p = ok_or p TypeError"


definition uncompressed_pub :: "nat \<Rightarrow> (py_error, bytes) outcome" where
  "uncompressed_pub priv =
     and_then (pub_point priv) (\<lambda>p.
     and_then (coordinates p) (\<lambda>(x, y).
     and_then (to_bytes 32 x) (\<lambda>xb.
     and_then (to_bytes 32 y) (\<lambda>yb. Ok ([4] @ xb @ yb)))))"

section \<open>Signatures\<close>

text \<open>The counter goes into four bytes of the hash, so the search for a nonce ends.\<close>

function sign_loop :: "(bytes \<Rightarrow> bytes) \<Rightarrow> nat \<Rightarrow> bytes \<Rightarrow> nat \<Rightarrow> (py_error, int \<times> int \<times> int) outcome" where
  "sign_loop sha priv prehash ctr =
     and_then (to_bytes 32 (int priv)) (\<lambda>pb.
     and_then (to_bytes 4 (int ctr)) (\<lambda>cb.
       let z = from_bytes prehash;
           k = from_bytes (sha (pb @ prehash @ cb)) mod mint_N in
       if k = 0 then sign_loop sha priv prehash (ctr + 1)
       else
         and_then (ec_mul (nat k) mint_G) (\<lambda>R.
         and_then (coordinates R) (\<lambda>(rx, ry).
           if mint_N \<le> rx then sign_loop sha priv prehash (ctr + 1)
           else
             let r = rx mod mint_N in
             if r = 0 then sign_loop sha priv prehash (ctr + 1)
             else
               and_then (py_inv k mint_N) (\<lambda>i.
                 let s = i * (z + r * int priv) mod mint_N in
                 if s = 0 then sign_loop sha priv prehash (ctr + 1)
                 else
                   let recid = ry mod 2 in
                   if mint_N div 2 < s then Ok (r, mint_N - s, recid XOR 1)
                   else Ok (r, s, recid))))))"
  by auto
termination
  by (relation "measure (\<lambda>(sha, priv, prehash, ctr). 2 ^ 32 - ctr)")
     (auto simp: to_bytes_def split: if_splits)

declare sign_loop.simps [simp del]

definition sign_prehash :: "(bytes \<Rightarrow> bytes) \<Rightarrow> nat \<Rightarrow> bytes \<Rightarrow> (py_error, int \<times> int \<times> int) outcome" where
  "sign_prehash sha priv prehash = sign_loop sha priv prehash 0"



section \<open>The attestation\<close>







section \<open>Bytes and integers\<close>

lemma be_bytes_length [simp]: "length (be_bytes n v) = n"
  by (induction n arbitrary: v) simp_all

lemma to_bytes_Ok: "to_bytes n v = Ok b \<longleftrightarrow> 0 \<le> v \<and> v < 256 ^ n \<and> b = be_bytes n (nat v)"
  by (auto simp: to_bytes_def)


lemma from_bytes_snoc [simp]: "from_bytes (b @ [x]) = from_bytes b * 256 + uint x"
  by (simp add: from_bytes_def)

lemma from_be_bytes: "v < 256 ^ n \<Longrightarrow> from_bytes (be_bytes n v) = int v"
proof (induction n arbitrary: v)
  case 0
  then show ?case by (simp add: from_bytes_def)
next
  case (Suc n)
  have "v div 256 < 256 ^ n" using Suc.prems by (simp add: less_mult_imp_div_less mult.commute)
  with Suc.IH have "from_bytes (be_bytes n (v div 256)) = int (v div 256)" .
  moreover have "uint (of_nat (v mod 256) :: u8) = int (v mod 256)" by (simp add: unsigned_of_nat take_bit_eq_mod)
  ultimately show ?case by (simp add: zdiv_int zmod_int)
qed

lemma from_bytes_nonneg: "0 \<le> from_bytes b"
  by (induction b rule: rev_induct) (simp_all, simp add: from_bytes_def)

text \<open>Reading back what was written, and the number of bytes an integer takes.\<close>

lemma to_bytes_roundtrip: "to_bytes n v = Ok b \<Longrightarrow> from_bytes b = v \<and> length b = n"
  by (auto simp: to_bytes_Ok from_be_bytes nat_less_iff)



section \<open>The modular inverse\<close>

text \<open>The loop computes the greatest common divisor, and a multiple of \<open>a\<close> that it is modulo \<open>m\<close>.\<close>

lemma inv_loop_gcd: "0 \<le> r1 \<Longrightarrow> 0 \<le> r0 \<Longrightarrow> fst (inv_loop r0 r1 t0 t1) = gcd r0 r1"
proof (induction r0 r1 t0 t1 rule: inv_loop.induct)
  case (1 r0 r1 t0 t1)
  show ?case
  proof (cases "r1 \<le> 0")
    case True
    with 1 show ?thesis by (subst inv_loop.simps) simp
  next
    case False
    with 1 have "fst (inv_loop r1 (r0 mod r1) t1 (t0 - r0 div r1 * t1)) = gcd r1 (r0 mod r1)" by simp
    with False show ?thesis by (subst inv_loop.simps) (simp add: gcd.commute [of r0] gcd_red_int [symmetric])
  qed
qed

lemma inv_loop_multiple:
  "m dvd r0 - t0 * a \<Longrightarrow> m dvd r1 - t1 * a \<Longrightarrow> inv_loop r0 r1 t0 t1 = (g, t) \<Longrightarrow> m dvd g - t * a"
proof (induction r0 r1 t0 t1 rule: inv_loop.induct)
  case (1 r0 r1 t0 t1)
  show ?case
  proof (cases "r1 \<le> 0")
    case True
    with 1 show ?thesis by (simp add: inv_loop.simps [of r0 r1])
  next
    case False
    have "r0 mod r1 - (t0 - r0 div r1 * t1) * a = (r0 - t0 * a) - r0 div r1 * (r1 - t1 * a)"
      by (simp add: minus_div_mult_eq_mod [symmetric] algebra_simps)
    with 1(2,3) have "m dvd r0 mod r1 - (t0 - r0 div r1 * t1) * a" by simp
    with 1 False show ?thesis by (simp add: inv_loop.simps [of r0 r1])
  qed
qed

lemma py_inv_Ok:
  assumes "1 < m"
  shows "py_inv a m = Ok x \<longleftrightarrow> 0 \<le> x \<and> x < m \<and> a * x mod m = 1"
    and "(\<exists>x. py_inv a m = Ok x) \<longleftrightarrow> coprime a m"
proof -
  obtain g t where l: "inv_loop m (a mod m) 0 1 = (g, t)" by fastforce
  have g: "g = gcd a m"
    using inv_loop_gcd [of "a mod m" m 0 1] l assms by (simp add: gcd.commute [of m] gcd_red_int [symmetric])
  have "m dvd (a mod m) - 1 * a" using dvd_minus_mod [of m a] by (simp add: dvd_diff_commute)
  with inv_loop_multiple [of m m 0 a "a mod m" 1, OF _ _ l] have "m dvd g - t * a" by simp
  then have t: "t * a mod m = g mod m" by (metis mod_eq_dvd_iff)
  show "(\<exists>x. py_inv a m = Ok x) \<longleftrightarrow> coprime a m" by (simp add: py_inv_def l g coprime_iff_gcd_eq_1)
  have inv: "0 \<le> y \<and> y < m \<and> a * y mod m = 1" if "py_inv a m = Ok y" for y
    using that assms t by (auto simp: py_inv_def l mod_mult_right_eq mult.commute split: if_splits)
  show "py_inv a m = Ok x \<longleftrightarrow> 0 \<le> x \<and> x < m \<and> a * x mod m = 1"
  proof
    assume x: "0 \<le> x \<and> x < m \<and> a * x mod m = 1"
    have "coprime a m"
    proof (rule coprimeI)
      fix c assume c: "c dvd a" "c dvd m"
      then have "c dvd a * x mod m" by (simp add: dvd_mod)
      with x show "is_unit c" by simp
    qed
    then obtain y where y: "py_inv a m = Ok y" using \<open>(\<exists>x. py_inv a m = Ok x) \<longleftrightarrow> coprime a m\<close> by blast
    with inv have "0 \<le> y" "y < m" "a * y mod m = 1" by blast+
    then have "x mod m = (a * y mod m * x) mod m" using assms by simp
    also have "\<dots> = (a * x mod m * y) mod m" by (simp add: mod_simps algebra_simps)
    also have "\<dots> = y mod m" using x by simp
    finally show "py_inv a m = Ok x" using y x \<open>0 \<le> y\<close> \<open>y < m\<close> by simp
  qed (rule inv)
qed


section \<open>Signatures\<close>

text \<open>What a signature is: the nonce's point gives \<open>r\<close>, the nonce solves the signing equation up to sign.\<close>

definition signs :: "int \<Rightarrow> int \<Rightarrow> int \<times> int \<times> int \<Rightarrow> bool" where
  "signs z priv rsv = (case rsv of (r, s, recid) \<Rightarrow>
     0 < r \<and> r < mint_N \<and> 0 < s \<and> s \<le> mint_N div 2
     \<and> (\<exists>k rx ry. 0 < k \<and> k < mint_N \<and> ec_mul (nat k) mint_G = Ok (Some (rx, ry)) \<and> r = rx mod mint_N
         \<and> (recid = ry mod 2 \<and> s * k mod mint_N = (z + r * priv) mod mint_N
           \<or> recid = (ry + 1) mod 2 \<and> s * k mod mint_N = - (z + r * priv) mod mint_N)))"

lemma mint_N_pos: "1 < mint_N" "0 < mint_N"
  by (simp_all add: mint_N_def)

lemma residue: "x mod mint_N \<noteq> 0 \<Longrightarrow> 0 < x mod mint_N \<and> x mod mint_N < mint_N"
  using pos_mod_sign [of mint_N x] mint_N_pos(2) by (simp add: le_less)

lemma flip_parity: "(y :: int) mod 2 XOR 1 = (y + 1) mod 2"
  by (cases "even y") (simp_all add: mod2_eq_if)

lemma signs_found:
  assumes "0 < k" "k < mint_N" "ec_mul (nat k) mint_G = Ok (Some (rx, ry))" "py_inv k mint_N = Ok i"
    and "r = rx mod mint_N" "r \<noteq> 0" "s = i * (z + r * priv) mod mint_N" "s \<noteq> 0"
  shows "signs z priv (if mint_N div 2 < s then (r, mint_N - s, ry mod 2 XOR 1) else (r, s, ry mod 2))"
proof -
  have r: "0 < r" "r < mint_N" and s: "0 < s" "s < mint_N"
    using assms(5-8) residue by blast+
  have "s * k mod mint_N = (k * i) * (z + r * priv) mod mint_N"
    by (simp add: assms(7) mod_mult_left_eq) (simp add: ac_simps)
  also have "\<dots> = (k * i mod mint_N) * (z + r * priv) mod mint_N"
    by (simp add: mod_mult_left_eq)
  finally have eq: "s * k mod mint_N = (z + r * priv) mod mint_N"
    using assms(4) mint_N_pos(1) by (simp add: py_inv_Ok)
  then have "(mint_N - s) * k mod mint_N = - (z + r * priv) mod mint_N"
    by (metis (no_types, lifting) diff_0 left_diff_distrib minus_mult_left mod_diff_eq mod_minus_eq mod_mult_self1_is_0 mod_mod_trivial)
  moreover have "mint_N - s \<le> mint_N div 2" if "mint_N div 2 < s"
    using that by (simp add: mint_N_def)
  ultimately show ?thesis
    using r s eq assms(1-3,5) by (auto simp: signs_def flip_parity)
qed

lemma sign_loop_signs:
  "sign_loop sha priv prehash ctr = Ok rsv \<Longrightarrow> signs (from_bytes prehash) (int priv) rsv"
proof (induction sha priv prehash ctr rule: sign_loop.induct)
  case (1 sha priv prehash ctr)
  let ?z = "from_bytes prehash"
  from "1.prems" obtain pb cb where b: "to_bytes 32 (int priv) = Ok pb" "to_bytes 4 (int ctr) = Ok cb"
    by (subst (asm) sign_loop.simps) (auto simp: and_then_eq_Ok)
  define k where "k = from_bytes (sha (pb @ prehash @ cb)) mod mint_N"
  note step = "1.prems" [unfolded sign_loop.simps [of sha priv prehash ctr] b and_then.simps Let_def k_def [symmetric]]
  note IH = "1.IH" [OF b refl k_def]
  show ?case
  proof (cases "k = 0")
    case True
    with step IH(1) show ?thesis by simp
  next
    case False
    with step obtain R rx ry where R: "ec_mul (nat k) mint_G = Ok R" "coordinates R = Ok (rx, ry)"
      by (auto simp: and_then_eq_Ok)
    define r where "r = rx mod mint_N"
    show ?thesis
    proof (cases "mint_N \<le> rx \<or> r = 0")
      case True
      with step False R IH(2-3) [OF False R refl] show ?thesis by (auto simp: r_def split: if_splits)
    next
      case ok: False
      then obtain i where i: "py_inv k mint_N = Ok i" using step False R by (auto simp: r_def and_then_eq_Ok)
      define s where "s = i * (?z + r * int priv) mod mint_N"
      show ?thesis
      proof (cases "s = 0")
        case True
        with step False R ok i IH(4) show ?thesis by (auto simp: r_def s_def)
      next
        case s0: False
        have "R = Some (rx, ry)" using R(2) by (cases R) (simp_all add: coordinates_def)
        moreover have "0 < k" "k < mint_N" using False residue k_def by blast+
        ultimately have "signs ?z (int priv) (if mint_N div 2 < s then (r, mint_N - s, ry mod 2 XOR 1) else (r, s, ry mod 2))"
          using signs_found [OF _ _ _ i r_def _ s_def s0] ok R(1) by simp
        then show ?thesis using step False R ok i s0 by (simp add: r_def s_def split: if_splits)
      qed
    qed
  qed
qed

section \<open>Encodings\<close>


lemma from_bytes_zero [simp]: "from_bytes (0 # b) = from_bytes b"
  by (simp add: from_bytes_def)






section \<open>What is minted is accepted\<close>

text \<open>
  Every signature the tool makes is an ECDSA signature with low \<open>s\<close>, for every key and message: \<open>r\<close> and
  \<open>s\<close> are in range, \<open>s\<close> is at most half the order, \<open>r\<close> is the nonce point's abscissa, and \<open>s\<close> times the
  nonce is the message plus \<open>r\<close> times the key, or its negation with the recovery bit flipped.
\<close>

lemma sign_prehash_signs:
  "sign_prehash sha priv prehash = Ok rsv \<Longrightarrow> signs (from_bytes prehash) (int priv) rsv"
  unfolding sign_prehash_def by (rule sign_loop_signs)








end
