(* ===== verification/Sample_Mint.thy ===== *)
theory Sample_Mint
  imports Mint_Attest Sample_World
begin

text \<open>
  One run of the minting tool, with a hash that makes the nonce 1 and the key 1, so that the points are
  the curve's base point.
\<close>

definition mint_sha :: "bytes \<Rightarrow> bytes" where
  "mint_sha b = replicate 31 0 @ [1]"


text \<open>The base point doubles: the inverse of twice its ordinate is checked, not searched.\<close>

lemma double_base: "\<exists>p. ec_add mint_G mint_G = Ok p"
proof -
  have "py_inv (2 * 0x483ADA7726A3C4655DA4FBFC0E1108A8FD17B448A68554199C47D08FFB10D4B8) mint_P
      = Ok 0xB7E31A064ED74D314DE79011C5F0A46AC155602353DC3D340FBEAEEC9767A6A6"
    by (subst py_inv_Ok) (simp_all add: mint_P_def)
  then show ?thesis by (simp add: ec_add_def mint_G_def Let_def)
qed

lemma mul_one: "ec_mul 1 mint_G = Ok mint_G"
proof -
  obtain p where "ec_add mint_G mint_G = Ok p" using double_base by blast
  moreover have "ec_add None mint_G = Ok mint_G" by (simp add: ec_add_def)
  ultimately show ?thesis by (simp add: ec_mul_def mul_loop.simps [of "Suc 0"] mul_loop.simps [of 0])
qed

definition mint_hash :: bytes where
  "mint_hash = replicate 31 0 @ [1]"

lemma hash_value: "from_bytes mint_hash = 1"
  by (simp add: mint_hash_def from_bytes_def numeral_eq_Suc)

lemma base_signs:
  "sign_prehash mint_sha 1 mint_hash = Ok (0x79be667ef9dcbbac55a06295ce870b07029bfcdb2dce28d959f2815b16f81798, 0x79be667ef9dcbbac55a06295ce870b07029bfcdb2dce28d959f2815b16f81798 + 1, 0)"
proof -
  have sha: "mint_sha b = mint_hash" for b by (simp add: mint_sha_def mint_hash_def)
  have mul: "ec_mul 1 mint_G = Ok (Some (0x79be667ef9dcbbac55a06295ce870b07029bfcdb2dce28d959f2815b16f81798, 0x483ada7726a3c4655da4fbfc0e1108a8fd17b448a68554199c47d08ffb10d4b8))" using mul_one by (simp add: mint_G_def)
  have inv: "py_inv 1 mint_N = Ok 1" by (subst py_inv_Ok) (simp_all add: mint_N_def)
  have num: "1 mod mint_N = 1" "\<not> mint_N \<le> 0x79be667ef9dcbbac55a06295ce870b07029bfcdb2dce28d959f2815b16f81798" "0x79be667ef9dcbbac55a06295ce870b07029bfcdb2dce28d959f2815b16f81798 mod mint_N = 0x79be667ef9dcbbac55a06295ce870b07029bfcdb2dce28d959f2815b16f81798" "(1 + 0x79be667ef9dcbbac55a06295ce870b07029bfcdb2dce28d959f2815b16f81798) mod mint_N = 0x79be667ef9dcbbac55a06295ce870b07029bfcdb2dce28d959f2815b16f81798 + 1"
    "\<not> mint_N div 2 < 0x79be667ef9dcbbac55a06295ce870b07029bfcdb2dce28d959f2815b16f81798 + 1"
    by (simp_all add: mint_N_def)
  have b: "to_bytes 32 1 = Ok (be_bytes 32 1)" "to_bytes 4 0 = Ok (be_bytes 4 0)"
    by (simp_all add: to_bytes_def)
  show ?thesis
    unfolding sign_prehash_def
    by (subst sign_loop.simps)
       (use num in \<open>simp add: sha hash_value b mul [simplified] inv coordinates_def Let_def\<close>)
qed



lemma sign_prehash_signs_example: "signs 1 1 (0x79be667ef9dcbbac55a06295ce870b07029bfcdb2dce28d959f2815b16f81798, 0x79be667ef9dcbbac55a06295ce870b07029bfcdb2dce28d959f2815b16f81798 + 1, 0)"
  using sign_prehash_signs [OF base_signs] unfolding hash_value by simp



end
