(* ===== verification/Spec2Isabelle.thy ===== *)
theory Spec2Isabelle
  imports Gifter_Module Conformance_Vectors Sample_Card Sample_Calls Sample_Mint
begin

text \<open>
  A model of logos-rln-gifter and its correctness theorems.

  \<^bold>\<open>The program.\<close> A gifter node gives away memberships of an RLN group. A client module sends a request
  with an identity commitment and a credential over a libp2p stream; the node asks a verifier module
  whether the credential is good, reserves it so that it is spent once, registers the commitment with
  the RLN module, waits for the confirmation and answers. The modules talk to each other through a C
  ABI with JSON arguments. Two verifiers are in the repository (an Ethereum allowlist and Keycard
  attestations), and a capture module that produces Keycard attestations from a card at a PC/SC reader.

  \<^bold>\<open>How code is modelled.\<close> Pure functions are HOL functions on machine words, byte lists and strings
  (a Rust string is its list of UTF-8 bytes). A function on module state takes the state and returns
  it updated. \<open>Result<T, E>\<close> is a sum, or an \<open>outcome\<close> where the code can also panic or not return. Loops
  are recursive functions with a termination proof; the two loops that need not end (the confirmation
  loop of the gifter, the TLV search of the card client) and the worker are partial functions whose
  \<open>None\<close> is a run that does not return. Third-party code is a parameter: \<open>crates\<close> (serde_json, hex,
  base64, Unicode tables), \<open>ffi\<close> (the SDK's C ABI, clock, sleep, file writes), \<open>crypto\<close> and \<open>suite\<close>
  (k256, sha2, tiny-keccak, aes, pbkdf2, rand), \<open>pcsc\<close> (the reader). What a theorem needs of them is a
  named hypothesis that states their documented behaviour (\<open>hex_laws\<close>, \<open>b64_laws\<close>, \<open>json_text_laws\<close>, \<open>crypto_laws\<close>,
  \<open>aes_laws\<close>, \<open>suite_laws\<close>, and for the card \<open>honest_peer\<close>, \<open>pairing_card\<close>, \<open>opening_card\<close>,
  \<open>accepting_card\<close>), and each such theorem is applied at a concrete instance.

  \<^bold>\<open>Theories and sources.\<close>
  \<^item> \<open>Gifter_Prelude\<close>: machine integers, outcomes, actions, slices; \<open>Rust_Std\<close>: the string and
    formatting functions of the standard library; \<open>Crates\<close>: JSON trees and derived deserialisers.
  \<^item> \<open>Wire\<close>, \<open>Wire_Correct\<close>: \<open>rust/rln-gifter-module/rust-lib/src/wire.rs\<close>. Varints, fields and the four
    messages; encoders and decoders are inverse, with unknown fields skipped, and the request decoder
    meets a last-field-wins specification. The locale \<open>proto_message\<close> carries the shared argument.
  \<^item> \<open>Auth_Vector\<close>: \<open>crates/rln-auth-vector/src/lib.rs\<close>. Shapes, routing and dispatch; a verdict read
    from a reply was returned by the vector that owns the type. The locale \<open>verifier\<close> is the contract
    of a verifying vector; both verifiers interpret it.
  \<^item> \<open>Gifter_State\<close>, \<open>Lp\<close>: the statics of the gifter module and \<open>lp.rs\<close>, the calls to other modules.
    \<open>Lp_Memory\<close>: the unsafe half of \<open>lp.rs\<close>, the reply boxes, C strings and channels of \<open>call_json\<close> and
    \<open>reply_trampoline\<close>, with any number of threads and a host that calls back when it likes; no pointer
    is used that is not live, nothing leaks, and each call returns what \<open>Lp\<close>'s function returns.
  \<^item> \<open>Nullifiers\<close>: \<open>auth.rs\<close>, the store of spent credentials, an append-only store (locale) that
    reads back what was appended.
  \<^item> \<open>Server\<close>: \<open>server.rs\<close>, one definition per function. \<open>Server_Correct\<close>: no registration without
    authorisation; \<open>Serve_Correct\<close>: configuration fails closed, one worker; \<open>Server_Live\<close>: every request
    is answered, after at most 78 calls (the confirmation budget is 150 s with a poll every
    2 s, so the registry is read at most 76 times), and the worker completes any number of turns; \<open>Replay\<close>: the
    atomic steps between which threads interleave, credentials spent once (locale \<open>spend_once\<close>),
    refinement of the reservation protocol, survival of a restart, and two scenarios in which the
    code forgets a spent credential. \<open>Gifting\<close>: the whole life of a node, with restarts and requests
    lost in a crash; the locale \<open>durable_gifter\<close> states what a deployment has to provide for each
    credential to be good for one registration, and the code's operations refine the steps.
  \<^item> \<open>Client\<close>: \<open>client.rs\<close>, refusals before any effect, no panic, only real grants reported.
    \<open>Exchange\<close>: client and gifter composed over the wire. \<open>Gifter_Module\<close>: \<open>lib.rs\<close>, the module's
    methods as a step relation and its invariant.
  \<^item> \<open>Keycard_Attest\<close>: \<open>crates/keycard-attest\<close>, attestation parsing and verification; \<open>Keycard_Auth\<close> and
    \<open>Eth_Auth\<close>: the verifier modules, which accept exactly the right requests; \<open>Vectors\<close>: their
    credentials fit the gifter's store (locale \<open>ticketed_verifier\<close>). \<open>Gift_Once\<close>: gifter, host and
    verifiers together; over any life of the node, one membership per genuine card and per allowlisted
    address, and an earned, unspent request is granted. The platform's part is \<open>platform\<close> (library laws, a disk that works) and \<open>hosts\<close> (a reply
    is the answer of the module that was called); a registration counts once its outcome is settled,
    so one that a crash cuts off between \<open>register_member\<close> and the store is not covered.
  \<^item> \<open>Apdu\<close>, \<open>Kc_Crypto\<close>, \<open>Keycard_Client\<close>: \<open>crates/keycard-client/src\<close> (\<open>apdu.rs\<close>, \<open>crypto.rs\<close>,
    \<open>client.rs\<close>). CBC round trip and CBC-MAC equivalence; \<open>Channel\<close>: the secure channel refines the
    plain exchange and authenticates what it returns; \<open>Card_Session\<close>: the client's invariant over all
    operations and the replies that make it panic; \<open>Card_Pairing\<close>: pairing and opening a session with
    a genuine card leave both sides in sync; \<open>Card_Path\<close>: derivation paths round trip.
  \<^item> \<open>Keycard_Capture\<close>: \<open>rust/keycard-capture-module\<close>; what it produces the verifier accepts (locale
    \<open>vector_pair\<close>, the contract of the two halves of a vector).
  \<^item> \<open>Mint_Keccak\<close>, \<open>Mint_Attest\<close>: \<open>tools/mint_attest.py\<close>, in Python: its Keccak-256 is the standard's,
    its signatures solve the signing equation with low \<open>s\<close>, its DER reads back, and what it mints the
    verifier accepts (\<open>ecdsa_agrees\<close>: the tool and \<open>k256\<close> speak of the same curve).
  \<^item> \<open>Conformance\<close>, \<open>Conformance_Vectors\<close>: the repository's unit tests, each as its assertions on the
    model, and that they pass.
  \<^item> \<open>Sample_Codec\<close>, \<open>Sample_Json\<close>, \<open>Sample_World\<close>, \<open>Sample_Gift\<close>, \<open>Sample_Card\<close>, \<open>Sample_Calls\<close>,
    \<open>Sample_Mint\<close>: concrete codecs, an outside for the gifter, a deployment of the reference vectors,
    cards, runs of the raw calls and of the minting tool, on which the theorems are applied.

  \<^bold>\<open>Bounds.\<close> \<open>usize\<close> has 64 bits and a buffer has fewer than 2^63 bytes (\<open>vec_limit\<close>); additions the code
  checks are compared with 2^64, and the unchecked ones of \<open>apdu.rs\<close> wrap there.

  \<^bold>\<open>Not modelled.\<close> The generated provider glue and \<open>logos_module_install\<close> (not in the repository), the
  SDK's side of the C ABI, log output, the command line of \<open>tools/mint_attest.py\<close>, build files.
  A lock is the atomicity of the step it protects; a panic ends the process.
\<close>

end
